theory Spec2Isabelle
  imports Complex_Main "HOL-Library.AList"
begin

section \<open>Numbers\<close>

text \<open>
  A JavaScript number is an IEEE double. Two views of it are used below.

  \<^item> The filter-cutoff curve and the pitch-bend conversions are given on \<^typ>\<open>real\<close>: a
    finite double is identified with the real it denotes and the rounding of each
    operation is left out.

  \<^item> Everything else uses the type \<open>number\<close>: the reals together with the two infinities
    and NaN. The result of an arithmetic operation is the exact result rounded to the
    nearest double, a tie to the even neighbour (\<open>nearestDouble\<close>: a significand of 53
    bits, exponents from \<open>-1022\<close> upwards, the subnormal numbers below), and an infinity
    where the exact result reaches the overflow threshold. Negative zero is identified
    with zero. A value that is read as an input may be any real.
\<close>

datatype number = Fin real | PosInf | NegInf | NaN

text \<open>Rounding to the nearest integer, a tie to the even one.\<close>

definition roundTiesToEven :: "real \<Rightarrow> int" where
  "roundTiesToEven x =
     (let n = \<lfloor>x\<rfloor>; r = x - of_int n
      in if r < 1 / 2 then n else if 1 / 2 < r then n + 1 else if even n then n else n + 1)"

text \<open>
  The binary exponent of a real as a double has it (\<open>-1022\<close> for the subnormal numbers
  and zero), and the distance of neighbouring doubles at that exponent.
\<close>

definition exponent :: "real \<Rightarrow> int" where
  "exponent x = (if \<bar>x\<bar> < 2 powr (- 1022) then - 1022 else \<lfloor>log 2 \<bar>x\<bar>\<rfloor>)"

definition ulp :: "real \<Rightarrow> real" where
  "ulp x = 2 powr (of_int (exponent x) - 52)"

definition nearestDouble :: "real \<Rightarrow> real" where
  "nearestDouble x = of_int (roundTiesToEven (x / ulp x)) * ulp x"

text \<open>
  The overflow threshold: half way between the largest double and \<open>2\<^sup>1\<^sup>0\<^sup>2\<^sup>4\<close>.
\<close>

definition DBL_OVERFLOW :: real where
  "DBL_OVERFLOW = 2 ^ 1024 - 2 ^ 970"

definition fl :: "real \<Rightarrow> number" where
  "fl x = (if DBL_OVERFLOW \<le> x then PosInf
           else if x \<le> - DBL_OVERFLOW then NegInf
           else Fin (nearestDouble x))"

fun num_neg :: "number \<Rightarrow> number" where
  "num_neg (Fin a) = Fin (- a)"
| "num_neg PosInf = NegInf"
| "num_neg NegInf = PosInf"
| "num_neg NaN = NaN"

fun num_add :: "number \<Rightarrow> number \<Rightarrow> number" where
  "num_add (Fin a) (Fin b) = fl (a + b)"
| "num_add NaN y = NaN"
| "num_add x NaN = NaN"
| "num_add PosInf NegInf = NaN"
| "num_add NegInf PosInf = NaN"
| "num_add PosInf y = PosInf"
| "num_add x PosInf = PosInf"
| "num_add NegInf y = NegInf"
| "num_add x NegInf = NegInf"

definition num_sub :: "number \<Rightarrow> number \<Rightarrow> number" where
  "num_sub x y = num_add x (num_neg y)"

fun num_mul :: "number \<Rightarrow> number \<Rightarrow> number" where
  "num_mul (Fin a) (Fin b) = fl (a * b)"
| "num_mul NaN y = NaN"
| "num_mul x NaN = NaN"
| "num_mul (Fin a) PosInf = (if a = 0 then NaN else if 0 < a then PosInf else NegInf)"
| "num_mul (Fin a) NegInf = (if a = 0 then NaN else if 0 < a then NegInf else PosInf)"
| "num_mul PosInf (Fin b) = (if b = 0 then NaN else if 0 < b then PosInf else NegInf)"
| "num_mul NegInf (Fin b) = (if b = 0 then NaN else if 0 < b then NegInf else PosInf)"
| "num_mul PosInf PosInf = PosInf"
| "num_mul PosInf NegInf = NegInf"
| "num_mul NegInf PosInf = NegInf"
| "num_mul NegInf NegInf = PosInf"

fun num_div :: "number \<Rightarrow> number \<Rightarrow> number" where
  "num_div (Fin a) (Fin b) =
     (if b = 0 then (if a = 0 then NaN else if 0 < a then PosInf else NegInf)
      else fl (a / b))"
| "num_div NaN y = NaN"
| "num_div x NaN = NaN"
| "num_div (Fin a) PosInf = Fin 0"
| "num_div (Fin a) NegInf = Fin 0"
| "num_div PosInf (Fin b) = (if b < 0 then NegInf else PosInf)"
| "num_div NegInf (Fin b) = (if b < 0 then PosInf else NegInf)"
| "num_div PosInf PosInf = NaN"
| "num_div PosInf NegInf = NaN"
| "num_div NegInf PosInf = NaN"
| "num_div NegInf NegInf = NaN"

text \<open>\<open>Math.max\<close> and \<open>Math.min\<close>: NaN if either argument is NaN.\<close>

fun Math_max :: "number \<Rightarrow> number \<Rightarrow> number" where
  "Math_max (Fin a) (Fin b) = Fin (max a b)"
| "Math_max NaN y = NaN"
| "Math_max x NaN = NaN"
| "Math_max PosInf y = PosInf"
| "Math_max x PosInf = PosInf"
| "Math_max NegInf y = y"
| "Math_max x NegInf = x"

fun Math_min :: "number \<Rightarrow> number \<Rightarrow> number" where
  "Math_min (Fin a) (Fin b) = Fin (min a b)"
| "Math_min NaN y = NaN"
| "Math_min x NaN = NaN"
| "Math_min NegInf y = NegInf"
| "Math_min x NegInf = NegInf"
| "Math_min PosInf y = y"
| "Math_min x PosInf = x"

text \<open>
  \<open>Math.pow\<close>, \<open>Math.log\<close>, \<open>Math.log2\<close> and \<open>Math.sqrt\<close> return an
  implementation-approximated value: a double close to the exact result, which one is
  left to the engine. The engine is a parameter: for each of the four functions and each
  argument, the relative deviation of the value it rounds from the exact result. An
  engine is accurate if no deviation exceeds \<open>2\<^sup>-\<^sup>5\<^sup>2\<close>, one unit in the last place; the
  engine whose deviations are all zero returns the exact result correctly rounded.
\<close>

record engine =
  pow_deviation :: "real \<Rightarrow> real \<Rightarrow> real"
  log_deviation :: "real \<Rightarrow> real"
  log2_deviation :: "real \<Rightarrow> real"
  sqrt_deviation :: "real \<Rightarrow> real"

definition accurate :: "engine \<Rightarrow> bool" where
  "accurate E \<longleftrightarrow>
     (\<forall>x y. \<bar>pow_deviation E x y\<bar> \<le> 1 / 2 ^ 52) \<and>
     (\<forall>x. \<bar>log_deviation E x\<bar> \<le> 1 / 2 ^ 52) \<and>
     (\<forall>x. \<bar>log2_deviation E x\<bar> \<le> 1 / 2 ^ 52) \<and>
     (\<forall>x. \<bar>sqrt_deviation E x\<bar> \<le> 1 / 2 ^ 52)"

definition correctlyRounded :: engine where
  "correctlyRounded =
     \<lparr>pow_deviation = (\<lambda>x y. 0), log_deviation = (\<lambda>x. 0), log2_deviation = (\<lambda>x. 0),
      sqrt_deviation = (\<lambda>x. 0)\<rparr>"

definition isOddInteger :: "real \<Rightarrow> bool" where
  "isOddInteger y = (y = of_int \<lfloor>y\<rfloor> \<and> odd \<lfloor>y\<rfloor>)"

text \<open>
  \<open>Math.pow(base, exponent)\<close>, with the special cases of ECMAScript's
  \<open>Number::exponentiate\<close> (without the sign of a zero).
\<close>

fun Math_pow :: "engine \<Rightarrow> number \<Rightarrow> number \<Rightarrow> number" where
  "Math_pow E b NaN = NaN"
| "Math_pow E NaN (Fin y) = (if y = 0 then Fin 1 else NaN)"
| "Math_pow E NaN e = NaN"
| "Math_pow E PosInf (Fin y) = (if y = 0 then Fin 1 else if 0 < y then PosInf else Fin 0)"
| "Math_pow E PosInf PosInf = PosInf"
| "Math_pow E PosInf NegInf = Fin 0"
| "Math_pow E NegInf (Fin y) =
     (if y = 0 then Fin 1
      else if 0 < y then (if isOddInteger y then NegInf else PosInf)
      else Fin 0)"
| "Math_pow E NegInf PosInf = PosInf"
| "Math_pow E NegInf NegInf = Fin 0"
| "Math_pow E (Fin x) PosInf = (if 1 < \<bar>x\<bar> then PosInf else if \<bar>x\<bar> = 1 then NaN else Fin 0)"
| "Math_pow E (Fin x) NegInf = (if 1 < \<bar>x\<bar> then Fin 0 else if \<bar>x\<bar> = 1 then NaN else PosInf)"
| "Math_pow E (Fin x) (Fin y) =
     (if y = 0 then Fin 1
      else if x = 0 then (if 0 < y then Fin 0 else PosInf)
      else if x < 0 \<and> y \<noteq> of_int \<lfloor>y\<rfloor> then NaN
      else fl ((if x < 0 \<and> odd \<lfloor>y\<rfloor> then - 1 else 1) * (\<bar>x\<bar> powr y)
                 * (1 + pow_deviation E x y)))"

text \<open>\<open>Math.log\<close>, \<open>Math.log2\<close> and \<open>Math.sqrt\<close>.\<close>

fun Math_log :: "engine \<Rightarrow> number \<Rightarrow> number" where
  "Math_log E (Fin r) =
     (if r < 0 then NaN else if r = 0 then NegInf else fl (ln r * (1 + log_deviation E r)))"
| "Math_log E PosInf = PosInf"
| "Math_log E NegInf = NaN"
| "Math_log E NaN = NaN"

fun Math_log2 :: "engine \<Rightarrow> number \<Rightarrow> number" where
  "Math_log2 E (Fin r) =
     (if r < 0 then NaN else if r = 0 then NegInf else fl (log 2 r * (1 + log2_deviation E r)))"
| "Math_log2 E PosInf = PosInf"
| "Math_log2 E NegInf = NaN"
| "Math_log2 E NaN = NaN"

fun Math_sqrt :: "engine \<Rightarrow> number \<Rightarrow> number" where
  "Math_sqrt E (Fin r) = (if r < 0 then NaN else fl (sqrt r * (1 + sqrt_deviation E r)))"
| "Math_sqrt E PosInf = PosInf"
| "Math_sqrt E NegInf = NaN"
| "Math_sqrt E NaN = NaN"

definition isNaN :: "number \<Rightarrow> bool" where
  "isNaN x = (x = NaN)"

text \<open>\<open>Math.round\<close>: the nearest integer, a tie upwards.\<close>

fun Math_round_number :: "number \<Rightarrow> number" where
  "Math_round_number (Fin r) = Fin (of_int \<lfloor>r + 1 / 2\<rfloor>)"
| "Math_round_number x = x"


section \<open>Envelope scheduler\<close>

text \<open>
  The scheduler drives an \<open>AudioParam\<close> of the host. The handle is modelled by the
  automation timeline it has accepted so far and by the host's own validity check: an
  instruction the host rejects raises, and the exception leaves the scheduler at once
  with the timeline as it was at that moment.
\<close>

datatype instruction =
    CancelScheduledValues number
  | SetValueAtTime number number
  | LinearRampToValueAtTime number number

record AudioParam =
  timeline :: "instruction list"
  rejects :: "instruction \<Rightarrow> bool"

text \<open>\<open>Inl (i, p)\<close>: the host threw on instruction \<open>i\<close>, the handle being \<open>p\<close>.\<close>

type_synonym outcome = "(instruction \<times> AudioParam) + AudioParam"

definition issue :: "instruction \<Rightarrow> AudioParam \<Rightarrow> outcome" where
  "issue i p = (if rejects p i then Inl (i, p)
                else Inr (p\<lparr>timeline := timeline p @ [i]\<rparr>))"

definition cancelScheduledValues :: "number \<Rightarrow> AudioParam \<Rightarrow> outcome" where
  "cancelScheduledValues t = issue (CancelScheduledValues t)"

definition setValueAtTime :: "number \<Rightarrow> number \<Rightarrow> AudioParam \<Rightarrow> outcome" where
  "setValueAtTime v t = issue (SetValueAtTime v t)"

definition linearRampToValueAtTime :: "number \<Rightarrow> number \<Rightarrow> AudioParam \<Rightarrow> outcome" where
  "linearRampToValueAtTime v t = issue (LinearRampToValueAtTime v t)"

text \<open>Statement sequencing: the next statement runs only if nothing was thrown.\<close>

definition andThen :: "outcome \<Rightarrow> (AudioParam \<Rightarrow> outcome) \<Rightarrow> outcome" where
  "andThen r f = (case r of Inl e \<Rightarrow> Inl e | Inr p \<Rightarrow> f p)"

text \<open>The options object is destructured in the parameter list; so it is here.\<close>

definition scheduleEnvelopeAttack ::
  "AudioParam \<Rightarrow> number \<Rightarrow> number \<Rightarrow> number \<Rightarrow> number \<Rightarrow> number \<Rightarrow> number \<Rightarrow> outcome" where
  "scheduleEnvelopeAttack param start peak sustain attackTime decayTime now =
     andThen (andThen (andThen
       (cancelScheduledValues now param)
       (setValueAtTime start now))
       (linearRampToValueAtTime peak (num_add now attackTime)))
       (linearRampToValueAtTime sustain (num_add (num_add now attackTime) decayTime))"

definition scheduleEnvelopeRelease ::
  "AudioParam \<Rightarrow> number \<Rightarrow> number \<Rightarrow> number \<Rightarrow> number \<Rightarrow> outcome" where
  "scheduleEnvelopeRelease param from to releaseTime now =
     andThen (andThen
       (cancelScheduledValues now param)
       (setValueAtTime from now))
       (linearRampToValueAtTime to (num_add now releaseTime))"

text \<open>The instruction sequences the contract names.\<close>

definition attackSequence ::
  "number \<Rightarrow> number \<Rightarrow> number \<Rightarrow> number \<Rightarrow> number \<Rightarrow> number \<Rightarrow> instruction list" where
  "attackSequence start peak sustain attackTime decayTime now =
     [CancelScheduledValues now,
      SetValueAtTime start now,
      LinearRampToValueAtTime peak (num_add now attackTime),
      LinearRampToValueAtTime sustain (num_add (num_add now attackTime) decayTime)]"

definition releaseSequence ::
  "number \<Rightarrow> number \<Rightarrow> number \<Rightarrow> number \<Rightarrow> instruction list" where
  "releaseSequence from to releaseTime now =
     [CancelScheduledValues now,
      SetValueAtTime from now,
      LinearRampToValueAtTime to (num_add now releaseTime)]"

text \<open>
  What a run of the scheduler did to the handle: the instructions now on the timeline
  that were not there before.
\<close>

definition issued :: "AudioParam \<Rightarrow> outcome \<Rightarrow> instruction list" where
  "issued p r = drop (length (timeline p))
     (timeline (case r of Inl (i, p') \<Rightarrow> p' | Inr p' \<Rightarrow> p'))"

definition returned :: "outcome \<Rightarrow> bool" where
  "returned r = (case r of Inl e \<Rightarrow> False | Inr p \<Rightarrow> True)"


section \<open>Node lifecycle pool\<close>

text \<open>
  An audio node is an object of the host; the pool's \<open>Map\<close> is keyed by object identity.
  A node is modelled by its identity, the audio context by the supply of identities not
  yet handed out: each factory method of the context returns an object that did not
  exist before. The factory methods are taken to succeed. What the pool does to a node
  itself (resetting its parameters on reuse, disconnecting it on release) happens in the
  host and leaves the bookkeeping modelled here untouched; the errors of those calls are
  swallowed by the source.

  \<open>Date.now()\<close> is a parameter: one clock reading per call of a pool operation.
\<close>

datatype NodeType =
    Gain | Oscillator | Filter | Analyser | Delay | Convolver | WaveShaper | Panner
  | StereoPanner | DynamicsCompressor | ChannelSplitter | ChannelMerger

type_synonym AudioNode = nat

record AudioContext =
  nextNode :: nat

record NodePoolConfig =
  maxPoolSize :: int
  enablePooling :: bool
  cleanupInterval :: int

definition DEFAULT_POOL_CONFIG :: NodePoolConfig where
  "DEFAULT_POOL_CONFIG =
     \<lparr>maxPoolSize = 32, enablePooling = True, cleanupInterval = 30000\<rparr>"

record PooledNode =
  node :: AudioNode
  type :: NodeType
  createdAt :: int
  lastUsed :: int
  isActive :: bool

record PoolStats =
  created :: nat
  reused :: nat
  disposed :: nat
  poolHits :: nat
  poolMisses :: nat

text \<open>The \<open>Map\<close> of tracked nodes, in insertion order.\<close>

record EnhancedAudioNodePool =
  nodes :: "(AudioNode \<times> PooledNode) list"
  config :: NodePoolConfig
  stats :: PoolStats

text \<open>The module variable \<open>globalPool\<close>: \<open>None\<close> is \<open>null\<close>.\<close>

type_synonym globalPool = "EnhancedAudioNodePool option"

record PartialNodePoolConfig =
  maxPoolSize_opt :: "int option"
  enablePooling_opt :: "bool option"
  cleanupInterval_opt :: "int option"

definition mergeConfig :: "NodePoolConfig \<Rightarrow> PartialNodePoolConfig \<Rightarrow> NodePoolConfig" where
  "mergeConfig c p =
     \<lparr>maxPoolSize = (case maxPoolSize_opt p of None \<Rightarrow> maxPoolSize c | Some v \<Rightarrow> v),
      enablePooling = (case enablePooling_opt p of None \<Rightarrow> enablePooling c | Some v \<Rightarrow> v),
      cleanupInterval =
        (case cleanupInterval_opt p of None \<Rightarrow> cleanupInterval c | Some v \<Rightarrow> v)\<rparr>"

definition initializeNodePool :: "PartialNodePoolConfig \<Rightarrow> globalPool \<Rightarrow> globalPool" where
  "initializeNodePool cfg g =
     (case g of
        Some pool \<Rightarrow> Some pool
      | None \<Rightarrow>
          Some \<lparr>nodes = [],
                config = mergeConfig DEFAULT_POOL_CONFIG cfg,
                stats = \<lparr>created = 0, reused = 0, disposed = 0, poolHits = 0,
                         poolMisses = 0\<rparr>\<rparr>)"

definition createNewNode :: "NodeType \<Rightarrow> AudioContext \<Rightarrow> AudioNode \<times> AudioContext" where
  "createNewNode t ctx = (nextNode ctx, ctx\<lparr>nextNode := Suc (nextNode ctx)\<rparr>)"

text \<open>
  The loop of \<open>getPooledNode\<close> over the entries of the map: the first entry of the
  requested type that is not active is marked active, stamped, and its node returned.
\<close>

fun reuseScan ::
  "NodeType \<Rightarrow> int \<Rightarrow> (AudioNode \<times> PooledNode) list
     \<Rightarrow> (AudioNode \<times> (AudioNode \<times> PooledNode) list) option" where
  "reuseScan t now [] = None"
| "reuseScan t now ((n, metadata) # rest) =
     (if type metadata = t \<and> \<not> isActive metadata
      then Some (n, (n, metadata\<lparr>isActive := True, lastUsed := now\<rparr>) # rest)
      else (case reuseScan t now rest of
              None \<Rightarrow> None
            | Some (r, rest') \<Rightarrow> Some (r, (n, metadata) # rest')))"

definition getPooledNode ::
  "NodeType \<Rightarrow> AudioContext \<Rightarrow> int \<Rightarrow> globalPool
     \<Rightarrow> AudioNode \<times> AudioContext \<times> globalPool" where
  "getPooledNode t audioContext now g =
     (case g of
        None \<Rightarrow> (let (n, ctx') = createNewNode t audioContext in (n, ctx', None))
      | Some pool \<Rightarrow>
          if \<not> enablePooling (config pool)
          then (let (n, ctx') = createNewNode t audioContext in (n, ctx', Some pool))
          else
            (case reuseScan t now (nodes pool) of
               Some (n, nodes') \<Rightarrow>
                 (n, audioContext,
                  Some (pool\<lparr>nodes := nodes',
                              stats := (stats pool)
                                \<lparr>poolHits := poolHits (stats pool) + 1,
                                 reused := reused (stats pool) + 1\<rparr>\<rparr>))
             | None \<Rightarrow>
                 (let stats1 = (stats pool)\<lparr>poolMisses := poolMisses (stats pool) + 1\<rparr>;
                      (newNode, ctx') = createNewNode t audioContext
                  in if int (length (nodes pool)) < maxPoolSize (config pool)
                     then (newNode, ctx',
                           Some (pool\<lparr>nodes :=
                                        AList.update newNode
                                          \<lparr>node = newNode, type = t, createdAt = now,
                                           lastUsed = now, isActive = True\<rparr>
                                          (nodes pool),
                                       stats := stats1\<lparr>created := created stats1 + 1\<rparr>\<rparr>))
                     else (newNode, ctx', Some (pool\<lparr>stats := stats1\<rparr>)))))"

definition disposeNode :: "AudioNode \<Rightarrow> globalPool \<Rightarrow> globalPool" where
  "disposeNode n g =
     (case g of
        None \<Rightarrow> None
      | Some pool \<Rightarrow>
          (case map_of (nodes pool) n of
             Some metadata \<Rightarrow>
               Some (pool\<lparr>nodes := AList.delete n (nodes pool),
                           stats := (stats pool)\<lparr>disposed := disposed (stats pool) + 1\<rparr>\<rparr>)
           | None \<Rightarrow> Some pool))"

definition releaseNode :: "AudioNode \<Rightarrow> int \<Rightarrow> globalPool \<Rightarrow> globalPool" where
  "releaseNode n now g =
     (case g of
        None \<Rightarrow> disposeNode n g
      | Some pool \<Rightarrow>
          if \<not> enablePooling (config pool) then disposeNode n g
          else
            (case map_of (nodes pool) n of
               Some metadata \<Rightarrow>
                 Some (pool\<lparr>nodes :=
                              AList.update n (metadata\<lparr>isActive := False, lastUsed := now\<rparr>)
                                (nodes pool)\<rparr>)
             | None \<Rightarrow> disposeNode n g))"

definition cleanupPool :: "int \<Rightarrow> globalPool \<Rightarrow> globalPool" where
  "cleanupPool now g =
     (case g of
        None \<Rightarrow> None
      | Some pool \<Rightarrow>
          fold (\<lambda>(n, metadata) g'.
                  if \<not> isActive metadata \<and> now - lastUsed metadata > 60000
                  then disposeNode n g' else g')
               (nodes pool) g)"

text \<open>\<open>createNodeBatch\<close>: \<open>count\<close> calls of \<open>getPooledNode\<close>, the nodes collected in order.\<close>

fun createNodeBatchLoop ::
  "NodeType \<Rightarrow> int \<Rightarrow> nat \<Rightarrow> AudioNode list \<Rightarrow> AudioContext \<Rightarrow> globalPool
     \<Rightarrow> AudioNode list \<times> AudioContext \<times> globalPool" where
  "createNodeBatchLoop t now 0 acc ctx g = (acc, ctx, g)"
| "createNodeBatchLoop t now (Suc k) acc ctx g =
     (case getPooledNode t ctx now g of
        (n, ctx', g') \<Rightarrow> createNodeBatchLoop t now k (acc @ [n]) ctx' g')"

definition createNodeBatch ::
  "NodeType \<Rightarrow> AudioContext \<Rightarrow> nat \<Rightarrow> int \<Rightarrow> globalPool
     \<Rightarrow> AudioNode list \<times> AudioContext \<times> globalPool" where
  "createNodeBatch t audioContext count now g = createNodeBatchLoop t now count [] audioContext g"

text \<open>\<open>initializeNodePool()\<close> called without an argument: nothing is overridden.\<close>

definition noOverrides :: PartialNodePoolConfig where
  "noOverrides = \<lparr>maxPoolSize_opt = None, enablePooling_opt = None, cleanupInterval_opt = None\<rparr>"

definition isNodeInPool :: "AudioNode \<Rightarrow> globalPool \<Rightarrow> bool" where
  "isNodeInPool n g =
     (case g of None \<Rightarrow> False | Some pool \<Rightarrow> map_of (nodes pool) n \<noteq> None)"

definition getPoolStats :: "globalPool \<Rightarrow> PoolStats option" where
  "getPoolStats g = map_option stats g"

text \<open>
  The state the pool operations keep: the keys of a \<open>Map\<close> are distinct, and every
  tracked node is an object the context has already created.
\<close>

definition poolInv :: "AudioContext \<Rightarrow> EnhancedAudioNodePool \<Rightarrow> bool" where
  "poolInv ctx pool =
     (distinct (map fst (nodes pool)) \<and> list_all (\<lambda>n. n < nextNode ctx) (map fst (nodes pool)))"

text \<open>No tracked node of type \<open>t\<close> is idle.\<close>

definition noIdle :: "NodeType \<Rightarrow> EnhancedAudioNodePool \<Rightarrow> bool" where
  "noIdle t pool = list_all (\<lambda>(n, m). \<not> (type m = t \<and> \<not> isActive m)) (nodes pool)"


section \<open>Unit conversion and curve mapping on ordinary values\<close>

text \<open>
  The filter-cutoff curve and the pitch-bend conversions are looked at on knob positions
  and pitch-bend values only, so they are given on the reals (see the first section).
  \<open>Math.round\<close> rounds to the nearest integer, a tie upwards. \<open>Math.pow(x, y)\<close> is
  \<open>x powr y\<close> for a base that is not negative and a positive exponent (both give 0 for
  the base 0).
\<close>

definition Math_round :: "real \<Rightarrow> real" where
  "Math_round x = of_int \<lfloor>x + 1 / 2\<rfloor>"






definition pitchBendToValue :: "real \<Rightarrow> real" where
  "pitchBendToValue bend = (let normalized = (bend - 8192) / 8192 in normalized * 2)"

definition valueToPitchBend :: "real \<Rightarrow> real" where
  "valueToPitchBend v = (let normalized = v / 2 in Math_round ((normalized + 1) * 8192))"

text \<open>
  The sibling pair of the signal utilities, which centres the bend range on
  \<open>CENTER_PITCH_BEND = 8191.5\<close>.
\<close>

definition SIGNAL_CONSTANTS_CENTER_PITCH_BEND :: real where
  "SIGNAL_CONSTANTS_CENTER_PITCH_BEND = 16383 / 2"

definition pitchBendToSemitones :: "real \<Rightarrow> real" where
  "pitchBendToSemitones bend =
     (let normalized = (bend - SIGNAL_CONSTANTS_CENTER_PITCH_BEND)
                         / SIGNAL_CONSTANTS_CENTER_PITCH_BEND
      in normalized * 2)"

definition semitonesToPitchBend :: "real \<Rightarrow> real" where
  "semitonesToPitchBend semitones =
     (let normalized = semitones / 2
      in Math_round ((normalized + 1) * SIGNAL_CONSTANTS_CENTER_PITCH_BEND))"


section \<open>Control curves\<close>

text \<open>
  \<open>controlToValue\<close> and \<open>valueToControl\<close>, on doubles. The range is the pair
  \<open>[min, max]\<close>; the default curve is the linear one.
\<close>

datatype curve = Linear | Exponential | Logarithmic

definition controlToValue :: "engine \<Rightarrow> number \<Rightarrow> number \<times> number \<Rightarrow> curve \<Rightarrow> number" where
  "controlToValue E control rng curve =
     (let normalized = num_div control (Fin 127);
          (minV, maxV) = rng
      in case curve of
           Exponential \<Rightarrow>
             num_add minV (num_mul (num_sub maxV minV) (Math_pow E normalized (Fin 2)))
         | Logarithmic \<Rightarrow>
             num_add minV
               (num_div
                  (num_mul (num_sub maxV minV)
                     (Math_log E (num_add (Fin 1) (num_mul normalized (Fin 9)))))
                  (Math_log E (Fin 10)))
         | Linear \<Rightarrow> num_add minV (num_mul (num_sub maxV minV) normalized))"

definition valueToControl :: "engine \<Rightarrow> number \<Rightarrow> number \<times> number \<Rightarrow> curve \<Rightarrow> number" where
  "valueToControl E v rng curve =
     (let (minV, maxV) = rng;
          normalized = num_div (num_sub v minV) (num_sub maxV minV);
          result =
            (case curve of
               Exponential \<Rightarrow> Math_sqrt E normalized
             | Logarithmic \<Rightarrow>
                 num_div (num_sub (Math_pow E (Fin 10) normalized) (Fin 1)) (Fin 9)
             | Linear \<Rightarrow> normalized)
      in Math_round_number (num_mul result (Fin 127)))"

text \<open>
  A target range on which the round trip is stable: its lower end is a double, its width
  is neither tiny nor huge, and the lower end is not more than \<open>2\<^sup>3\<^sup>0\<close> times the width
  away from zero.
\<close>

definition wellConditioned :: "real \<Rightarrow> real \<Rightarrow> bool" where
  "wellConditioned lo hi \<longleftrightarrow>
     fl lo = Fin lo \<and> 1 / 2 ^ 500 \<le> \<bar>hi - lo\<bar> \<and> \<bar>hi - lo\<bar> \<le> 2 ^ 500 \<and>
     \<bar>lo\<bar> \<le> 2 ^ 30 * \<bar>hi - lo\<bar>"


section \<open>Notes and frequencies\<close>

definition MIDI_A4_FREQUENCY :: real where
  "MIDI_A4_FREQUENCY = 440"

definition MIDI_A4_MIDI_NOTE :: real where
  "MIDI_A4_MIDI_NOTE = 69"

definition midiNoteToFrequency :: "engine \<Rightarrow> number \<Rightarrow> number" where
  "midiNoteToFrequency E midiNote =
     num_mul (Fin MIDI_A4_FREQUENCY)
       (Math_pow E (Fin 2) (num_div (num_sub midiNote (Fin MIDI_A4_MIDI_NOTE)) (Fin 12)))"

definition frequencyToMidiNote :: "engine \<Rightarrow> number \<Rightarrow> number" where
  "frequencyToMidiNote E frequency =
     Math_round_number
       (num_add (num_mul (Fin 12) (Math_log2 E (num_div frequency (Fin MIDI_A4_FREQUENCY))))
          (Fin MIDI_A4_MIDI_NOTE))"

text \<open>
  Strings are lists of bytes. \<open>\d\<close> matches the ten ASCII digits; \<open>toUpperCase\<close> is
  given on the ASCII letters, which is all that can produce an entry of \<open>noteNames\<close>.
\<close>

definition isDigit :: "char \<Rightarrow> bool" where
  "isDigit c = (c \<in> set ''0123456789'')"

definition digitValue :: "char \<Rightarrow> nat" where
  "digitValue c = of_char c - 48"

definition toUpperCase :: "string \<Rightarrow> string" where
  "toUpperCase s =
     map (\<lambda>c. if c \<in> set ''abcdefghijklmnopqrstuvwxyz''
               then char_of (of_char c - (32::nat)) else c) s"

definition noteNames :: "string list" where
  "noteNames = [''C'', ''C#'', ''D'', ''D#'', ''E'', ''F'', ''F#'', ''G'', ''G#'', ''A'',
                ''A#'', ''B'']"

text \<open>\<open>Array.prototype.indexOf\<close>: the first index of the element, or \<open>-1\<close>.\<close>

fun indexOf :: "'a list \<Rightarrow> 'a \<Rightarrow> int" where
  "indexOf [] x = - 1"
| "indexOf (y # ys) x =
     (if y = x then 0 else (let i = indexOf ys x in if i < 0 then - 1 else i + 1))"

definition noteNameToMidiNote :: "string \<Rightarrow> int" where
  "noteNameToMidiNote noteName = indexOf noteNames (toUpperCase noteName)"

definition decimalValue :: "string \<Rightarrow> nat" where
  "decimalValue ds = foldl (\<lambda>acc c. 10 * acc + digitValue c) 0 ds"

text \<open>
  \<open>parseInt\<close> is only ever applied to a string of decimal digits (everything else has
  been removed from it): the empty string gives NaN, any other its decimal value.
\<close>

definition parseInt :: "string \<Rightarrow> number" where
  "parseInt s =
     (let ds = takeWhile isDigit s
      in if ds = [] then NaN else fl (real (decimalValue ds)))"

definition noteToMidiNote :: "string \<Rightarrow> number" where
  "noteToMidiNote note =
     (let noteName = filter (\<lambda>c. \<not> isDigit c) note;
          octave = parseInt (filter isDigit note);
          noteNumber = noteNameToMidiNote noteName
      in num_add (Fin (of_int noteNumber)) (num_mul (num_add octave (Fin 1)) (Fin 12)))"

definition noteToFrequency :: "engine \<Rightarrow> string \<Rightarrow> number" where
  "noteToFrequency E note = midiNoteToFrequency E (noteToMidiNote note)"

text \<open>The local helper \<open>clamp\<close> of \<open>calculateFrequency\<close>.\<close>

definition clamp :: "number \<Rightarrow> number \<Rightarrow> number \<Rightarrow> number" where
  "clamp v lo hi = Math_max lo (Math_min hi v)"

text \<open>The constant \<open>baseFreq\<close> of \<open>calculateFrequency\<close>.\<close>

definition baseFreq :: "engine \<Rightarrow> string \<Rightarrow> number \<Rightarrow> number" where
  "baseFreq E note masterTune =
     (let clampedMasterTune = clamp masterTune (Fin (- 12)) (Fin 12)
      in num_mul (noteToFrequency E note)
           (Math_pow E (Fin 2) (num_div clampedMasterTune (Fin 12))))"

definition calculateFrequency ::
  "engine \<Rightarrow> string \<Rightarrow> number \<Rightarrow> number \<Rightarrow> number \<Rightarrow> number \<Rightarrow> number" where
  "calculateFrequency E note masterTune detuneSemis pitchWheel detuneCents =
     (let clampedDetuneSemis = clamp detuneSemis (Fin (- 12)) (Fin 12);
          clampedPitchWheel = clamp pitchWheel (Fin 0) (Fin 100);
          bendSemis = num_mul (num_div (num_sub clampedPitchWheel (Fin 50)) (Fin 50)) (Fin 2);
          frequency =
            num_mul (baseFreq E note masterTune)
              (Math_pow E (Fin 2)
                 (num_div
                    (num_add (num_add clampedDetuneSemis bendSemis)
                       (num_div detuneCents (Fin 100)))
                    (Fin 12)))
      in clamp frequency (Fin 20) (Fin 22050))"


section \<open>State codec\<close>

text \<open>
  The state of the synthesiser, as the store's types declare it. The string-literal
  union types of the source (wave forms, ranges, noise types) are plain strings at run
  time and are strings here. The fields \<open>range\<close> and \<open>enabled\<close> of an oscillator are
  called \<open>oscRange\<close> and \<open>oscEnabled\<close>; the auxiliary output has the shape of a mixer
  source and shares its type.
\<close>

record OscillatorState =
  waveform :: string
  frequency :: number
  oscRange :: string
  oscEnabled :: bool

record MixerSourceState =
  enabled :: bool
  volume :: number

record MixerNoiseState = MixerSourceState +
  noiseType :: string

record MixerState =
  osc1 :: MixerSourceState
  osc2 :: MixerSourceState
  osc3 :: MixerSourceState
  noise :: MixerNoiseState
  external :: MixerSourceState

record SynthState =
  isDisabled :: bool
  activeKeys :: "string option"
  pitchWheel :: number
  modWheel :: number
  masterTune :: number
  oscillator1 :: OscillatorState
  oscillator2 :: OscillatorState
  oscillator3 :: OscillatorState
  mixer :: MixerState
  mainVolume :: number
  isMainActive :: bool
  glideOn :: bool
  glideTime :: number
  filterAttack :: number
  filterDecay :: number
  filterSustain :: number
  filterCutoff :: number
  filterEmphasis :: number
  filterContourAmount :: number
  filterModulationOn :: bool
  keyboardControl1 :: bool
  keyboardControl2 :: bool
  oscillatorModulationOn :: bool
  lfoWaveform :: string
  lfoRate :: number
  osc3Control :: bool
  modMix :: number
  osc3FilterEgSwitch :: bool
  noiseLfoSwitch :: bool
  loudnessAttack :: number
  loudnessDecay :: number
  loudnessSustain :: number
  decaySwitchOn :: bool
  tunerOn :: bool
  auxOutput :: MixerSourceState

text \<open>
  What \<open>loadStateFromURL\<close> builds: every field of the state may be missing. An
  oscillator read from the query string holds whatever \<open>params.get\<close> returned for its
  range, which is \<open>null\<close> when that key is absent.
\<close>

record LoadedOscillatorState =
  loadedWaveform :: string
  loadedFrequency :: number
  loadedRange :: "string option"
  loadedEnabled :: bool

record PartialSynthState =
  isDisabled_opt :: "bool option"
  activeKeys_opt :: "string option option"
  pitchWheel_opt :: "number option"
  modWheel_opt :: "number option"
  masterTune_opt :: "number option"
  oscillator1_opt :: "LoadedOscillatorState option"
  oscillator2_opt :: "LoadedOscillatorState option"
  oscillator3_opt :: "LoadedOscillatorState option"
  mixer_opt :: "MixerState option"
  mainVolume_opt :: "number option"
  isMainActive_opt :: "bool option"
  glideOn_opt :: "bool option"
  glideTime_opt :: "number option"
  filterAttack_opt :: "number option"
  filterDecay_opt :: "number option"
  filterSustain_opt :: "number option"
  filterCutoff_opt :: "number option"
  filterEmphasis_opt :: "number option"
  filterContourAmount_opt :: "number option"
  filterModulationOn_opt :: "bool option"
  keyboardControl1_opt :: "bool option"
  keyboardControl2_opt :: "bool option"
  oscillatorModulationOn_opt :: "bool option"
  lfoWaveform_opt :: "string option"
  lfoRate_opt :: "number option"
  osc3Control_opt :: "bool option"
  modMix_opt :: "number option"
  osc3FilterEgSwitch_opt :: "bool option"
  noiseLfoSwitch_opt :: "bool option"
  loudnessAttack_opt :: "number option"
  loudnessDecay_opt :: "number option"
  loudnessSustain_opt :: "number option"
  decaySwitchOn_opt :: "bool option"
  tunerOn_opt :: "bool option"
  auxOutput_opt :: "MixerSourceState option"

definition emptyPartialState :: PartialSynthState where
  "emptyPartialState =
     \<lparr>isDisabled_opt = None,
      activeKeys_opt = None,
      pitchWheel_opt = None,
      modWheel_opt = None,
      masterTune_opt = None,
      oscillator1_opt = None,
      oscillator2_opt = None,
      oscillator3_opt = None,
      mixer_opt = None,
      mainVolume_opt = None,
      isMainActive_opt = None,
      glideOn_opt = None,
      glideTime_opt = None,
      filterAttack_opt = None,
      filterDecay_opt = None,
      filterSustain_opt = None,
      filterCutoff_opt = None,
      filterEmphasis_opt = None,
      filterContourAmount_opt = None,
      filterModulationOn_opt = None,
      keyboardControl1_opt = None,
      keyboardControl2_opt = None,
      oscillatorModulationOn_opt = None,
      lfoWaveform_opt = None,
      lfoRate_opt = None,
      osc3Control_opt = None,
      modMix_opt = None,
      osc3FilterEgSwitch_opt = None,
      noiseLfoSwitch_opt = None,
      loudnessAttack_opt = None,
      loudnessDecay_opt = None,
      loudnessSustain_opt = None,
      decaySwitchOn_opt = None,
      tunerOn_opt = None,
      auxOutput_opt = None\<rparr>"


section \<open>Query strings\<close>

text \<open>
  \<open>URLSearchParams\<close> is the list of its name-value pairs, in order. Its string form
  is the \<open>application/x-www-form-urlencoded\<close> serialisation and its constructor the
  matching parser, both on byte strings: a string stands for its UTF-8 bytes, and the
  parser's last step, decoding the bytes as UTF-8, is left out.
\<close>

type_synonym URLSearchParams = "(string \<times> string) list"

definition unreservedChars :: string where
  "unreservedChars =
     ''ABCDEFGHIJKLMNOPQRSTUVWXYZabcdefghijklmnopqrstuvwxyz0123456789*-._''"

definition hexDigits :: string where
  "hexDigits = ''0123456789ABCDEF''"

definition urlencodeByte :: "char \<Rightarrow> string" where
  "urlencodeByte c =
     (if c \<in> set unreservedChars then [c]
      else if c = CHR '' '' then ''+''
      else [CHR ''%'', hexDigits ! (of_char c div 16), hexDigits ! (of_char c mod 16)])"

definition urlencode :: "string \<Rightarrow> string" where
  "urlencode s = concat (map urlencodeByte s)"

fun URLSearchParams_toString :: "URLSearchParams \<Rightarrow> string" where
  "URLSearchParams_toString [] = []"
| "URLSearchParams_toString [(k, v)] = urlencode k @ ''='' @ urlencode v"
| "URLSearchParams_toString ((k, v) # rest) =
     urlencode k @ ''='' @ urlencode v @ ''&'' @ URLSearchParams_toString rest"

definition hexValue :: "char \<Rightarrow> nat option" where
  "hexValue c =
     (if c \<in> set ''0123456789'' then Some (of_char c - 48)
      else if c \<in> set ''ABCDEF'' then Some (of_char c - 55)
      else if c \<in> set ''abcdef'' then Some (of_char c - 87)
      else None)"

fun percentDecode :: "string \<Rightarrow> string" where
  "percentDecode [] = []"
| "percentDecode [a] = [a]"
| "percentDecode [a, b] = [a, b]"
| "percentDecode (a # b # c # rest) =
     (if a = CHR ''%'' \<and> hexValue b \<noteq> None \<and> hexValue c \<noteq> None
      then char_of (16 * (case hexValue b of Some h \<Rightarrow> h | None \<Rightarrow> 0)
                      + (case hexValue c of Some l \<Rightarrow> l | None \<Rightarrow> 0))
             # percentDecode rest
      else a # percentDecode (b # c # rest))"

definition plusToSpace :: "string \<Rightarrow> string" where
  "plusToSpace s = map (\<lambda>c. if c = CHR ''+'' then CHR '' '' else c) s"

fun splitOn :: "char \<Rightarrow> string \<Rightarrow> string list" where
  "splitOn sep [] = [[]]"
| "splitOn sep (x # xs) =
     (if x = sep then [] # splitOn sep xs
      else (case splitOn sep xs of
              [] \<Rightarrow> [[x]]
            | seg # segs \<Rightarrow> (x # seg) # segs))"

definition parsePair :: "string \<Rightarrow> string \<times> string" where
  "parsePair seg =
     (let name = takeWhile (\<lambda>c. c \<noteq> CHR ''='') seg;
          val = drop 1 (dropWhile (\<lambda>c. c \<noteq> CHR ''='') seg)
      in (percentDecode (plusToSpace name), percentDecode (plusToSpace val)))"

text \<open>\<open>new URLSearchParams(init)\<close>: a leading question mark is dropped.\<close>

definition URLSearchParams_new :: "string \<Rightarrow> URLSearchParams" where
  "URLSearchParams_new init =
     (let input = (case init of c # r \<Rightarrow> if c = CHR ''?'' then r else init | [] \<Rightarrow> init)
      in map parsePair (filter (\<lambda>seg. seg \<noteq> []) (splitOn CHR ''&'' input)))"

text \<open>
  \<open>set\<close>: the first pair of that name takes the value and the other pairs of that name
  go; a name not yet there is appended.
\<close>

fun setFirst :: "string \<Rightarrow> string \<Rightarrow> URLSearchParams \<Rightarrow> URLSearchParams" where
  "setFirst k v [] = []"
| "setFirst k v ((k', v') # rest) =
     (if k' = k then (k, v) # filter (\<lambda>p. fst p \<noteq> k) rest
      else (k', v') # setFirst k v rest)"

definition URLSearchParams_set :: "string \<Rightarrow> string \<Rightarrow> URLSearchParams \<Rightarrow> URLSearchParams" where
  "URLSearchParams_set k v params =
     (if k \<in> fst ` set params then setFirst k v params else params @ [(k, v)])"

text \<open>\<open>get\<close>: the value of the first pair of that name, \<open>None\<close> for \<open>null\<close>.\<close>

definition URLSearchParams_get :: "URLSearchParams \<Rightarrow> string \<Rightarrow> string option" where
  "URLSearchParams_get params k = map_of params k"

definition URLSearchParams_has :: "URLSearchParams \<Rightarrow> string \<Rightarrow> bool" where
  "URLSearchParams_has params k = (map_of params k \<noteq> None)"


section \<open>Parsing numbers\<close>

text \<open>
  \<open>parseFloat\<close>: leading white space is skipped, then the longest prefix that is a
  decimal literal (optional sign; \<open>Infinity\<close>, or digits with an optional fraction
  and an optional exponent) is read; if there is none the result is NaN. The value
  is the decimal's exact value rounded to the nearest double. White space is the ASCII
  white space.
\<close>

definition isWhiteSpace :: "char \<Rightarrow> bool" where
  "isWhiteSpace c = (c \<in> set [CHR 0x09, CHR 0x0A, CHR 0x0B, CHR 0x0C, CHR 0x0D, CHR 0x20])"

definition exponentPart :: "string \<Rightarrow> int" where
  "exponentPart s =
     (case s of
        [] \<Rightarrow> 0
      | c # r \<Rightarrow>
          if c = CHR ''e'' \<or> c = CHR ''E'' then
            (let neg = (case r of d # r' \<Rightarrow> d = CHR ''-'' | [] \<Rightarrow> False);
                 signed = (case r of d # r' \<Rightarrow> d = CHR ''-'' \<or> d = CHR ''+'' | [] \<Rightarrow> False);
                 ds = takeWhile isDigit (if signed then drop 1 r else r)
             in if ds = [] then 0
                else if neg then - int (decimalValue ds) else int (decimalValue ds))
          else 0)"

definition scaleByPowerOfTen :: "real \<Rightarrow> int \<Rightarrow> real" where
  "scaleByPowerOfTen m e = (if 0 \<le> e then m * 10 ^ nat e else m / 10 ^ nat (- e))"

definition parseFloat :: "string \<Rightarrow> number" where
  "parseFloat s =
     (let t = dropWhile isWhiteSpace s;
          neg = (case t of c # r \<Rightarrow> c = CHR ''-'' | [] \<Rightarrow> False);
          signed = (case t of c # r \<Rightarrow> c = CHR ''-'' \<or> c = CHR ''+'' | [] \<Rightarrow> False);
          u = (if signed then drop 1 t else t)
      in if take 8 u = ''Infinity'' then (if neg then NegInf else PosInf)
         else
           (let intDigits = takeWhile isDigit u;
                r1 = dropWhile isDigit u;
                hasPoint = (case r1 of c # r \<Rightarrow> c = CHR ''.'' | [] \<Rightarrow> False);
                fracDigits = (if hasPoint then takeWhile isDigit (drop 1 r1) else []);
                r2 = (if hasPoint then dropWhile isDigit (drop 1 r1) else r1)
            in if intDigits = [] \<and> fracDigits = [] then NaN
               else
                 (let m = real (decimalValue intDigits)
                          + real (decimalValue fracDigits) / 10 ^ length fracDigits;
                      x = scaleByPowerOfTen m (exponentPart r2)
                  in fl (if neg then - x else x))))"

definition clampParameter :: "number \<Rightarrow> number \<Rightarrow> number \<Rightarrow> number" where
  "clampParameter v lo hi = Math_max lo (Math_min hi v)"

text \<open>\<open>value ?? ""\<close> and \<open>value || fallback\<close> on a string that may be \<open>null\<close>.\<close>

definition orEmpty :: "string option \<Rightarrow> string" where
  "orEmpty v = (case v of None \<Rightarrow> [] | Some s \<Rightarrow> s)"

definition orElse :: "string option \<Rightarrow> string \<Rightarrow> string" where
  "orElse v fallback = (case v of None \<Rightarrow> fallback | Some s \<Rightarrow> if s = [] then fallback else s)"

definition parseAndClamp :: "string option \<Rightarrow> number \<Rightarrow> number \<Rightarrow> number \<Rightarrow> number" where
  "parseAndClamp v lo hi defaultValue =
     (let parsed = parseFloat (orEmpty v)
      in if isNaN parsed then defaultValue else clampParameter parsed lo hi)"

definition parseOrDefault :: "string option \<Rightarrow> number \<Rightarrow> number" where
  "parseOrDefault v defaultValue =
     (let parsed = parseFloat (orEmpty v)
      in if isNaN parsed then defaultValue else parsed)"

definition boolToString :: "bool \<Rightarrow> string" where
  "boolToString b = (if b then ''true'' else ''false'')"


section \<open>Saving and loading the state\<close>

text \<open>
  \<open>Number.prototype.toString\<close> is a parameter of the encoder: the shortest decimal
  that reads back as the same double has no counterpart on the reals.
\<close>

definition savedParams :: "(number \<Rightarrow> string) \<Rightarrow> SynthState \<Rightarrow> URLSearchParams" where
  "savedParams toString state =
     foldl (\<lambda>params (k, v). URLSearchParams_set k v params) []
       [(''osc1_waveform'', waveform (oscillator1 state)),
        (''osc1_freq'', toString (frequency (oscillator1 state))),
        (''osc1_range'', oscRange (oscillator1 state)),
        (''osc1_enabled'', boolToString (oscEnabled (oscillator1 state))),
        (''osc2_waveform'', waveform (oscillator2 state)),
        (''osc2_freq'', toString (frequency (oscillator2 state))),
        (''osc2_range'', oscRange (oscillator2 state)),
        (''osc2_enabled'', boolToString (oscEnabled (oscillator2 state))),
        (''osc3_waveform'', waveform (oscillator3 state)),
        (''osc3_freq'', toString (frequency (oscillator3 state))),
        (''osc3_range'', oscRange (oscillator3 state)),
        (''osc3_enabled'', boolToString (oscEnabled (oscillator3 state))),
        (''mix_osc1_enabled'', boolToString (enabled (osc1 (mixer state)))),
        (''mix_osc1_vol'', toString (volume (osc1 (mixer state)))),
        (''mix_osc2_enabled'', boolToString (enabled (osc2 (mixer state)))),
        (''mix_osc2_vol'', toString (volume (osc2 (mixer state)))),
        (''mix_osc3_enabled'', boolToString (enabled (osc3 (mixer state)))),
        (''mix_osc3_vol'', toString (volume (osc3 (mixer state)))),
        (''mix_noise_enabled'', boolToString (enabled (noise (mixer state)))),
        (''mix_noise_vol'', toString (volume (noise (mixer state)))),
        (''mix_noise_type'', noiseType (noise (mixer state))),
        (''mix_ext_enabled'', boolToString (enabled (external (mixer state)))),
        (''mix_ext_vol'', toString (volume (external (mixer state)))),
        (''filter_cutoff'', toString (filterCutoff state)),
        (''filter_emphasis'', toString (filterEmphasis state)),
        (''filter_contour'', toString (filterContourAmount state)),
        (''filter_attack'', toString (filterAttack state)),
        (''filter_decay'', toString (filterDecay state)),
        (''filter_sustain'', toString (filterSustain state)),
        (''filter_mod_on'', boolToString (filterModulationOn state)),
        (''loudness_attack'', toString (loudnessAttack state)),
        (''loudness_decay'', toString (loudnessDecay state)),
        (''loudness_sustain'', toString (loudnessSustain state)),
        (''lfo_waveform'', lfoWaveform state),
        (''lfo_rate'', toString (lfoRate state)),
        (''mod_mix'', toString (modMix state)),
        (''osc_mod_on'', boolToString (oscillatorModulationOn state)),
        (''glide_on'', boolToString (glideOn state)),
        (''glide_time'', toString (glideTime state)),
        (''main_volume'', toString (mainVolume state)),
        (''main_active'', boolToString (isMainActive state)),
        (''keyboard_control1'', boolToString (keyboardControl1 state)),
        (''keyboard_control2'', boolToString (keyboardControl2 state)),
        (''osc3_control'', boolToString (osc3Control state)),
        (''osc3_filter_eg'', boolToString (osc3FilterEgSwitch state)),
        (''noise_lfo_switch'', boolToString (noiseLfoSwitch state)),
        (''decay_switch'', boolToString (decaySwitchOn state)),
        (''master_tune'', toString (masterTune state)),
        (''pitch_wheel'', toString (pitchWheel state)),
        (''mod_wheel'', toString (modWheel state)),
        (''tuner_on'', boolToString (tunerOn state)),
        (''aux_enabled'', boolToString (enabled (auxOutput state))),
        (''aux_volume'', toString (volume (auxOutput state)))]"

definition saveStateToURL :: "(number \<Rightarrow> string) \<Rightarrow> SynthState \<Rightarrow> string" where
  "saveStateToURL toString state = URLSearchParams_toString (savedParams toString state)"

text \<open>
  The blocks of \<open>loadStateFromURL\<close>, one definition for each \<open>if (params.has(...))\<close>.
  Where the anchor's own value is stored, \<open>has\<close> and \<open>get\<close> are one case distinction.
\<close>

definition loadOscillator1 :: "URLSearchParams \<Rightarrow> PartialSynthState \<Rightarrow> PartialSynthState" where
  "loadOscillator1 params state =
     (case URLSearchParams_get params ''osc1_waveform'' of
        None \<Rightarrow> state
      | Some w \<Rightarrow>
          state\<lparr>oscillator1_opt :=
            Some \<lparr>loadedWaveform = w,
                  loadedFrequency = parseFloat (orElse (URLSearchParams_get params ''osc1_freq'') ''440''),
                  loadedRange = URLSearchParams_get params ''osc1_range'',
                  loadedEnabled = (URLSearchParams_get params ''osc1_enabled'' = Some ''true'')\<rparr>\<rparr>)"

definition loadOscillator2 :: "URLSearchParams \<Rightarrow> PartialSynthState \<Rightarrow> PartialSynthState" where
  "loadOscillator2 params state =
     (case URLSearchParams_get params ''osc2_waveform'' of
        None \<Rightarrow> state
      | Some w \<Rightarrow>
          state\<lparr>oscillator2_opt :=
            Some \<lparr>loadedWaveform = w,
                  loadedFrequency = parseFloat (orElse (URLSearchParams_get params ''osc2_freq'') ''0''),
                  loadedRange = URLSearchParams_get params ''osc2_range'',
                  loadedEnabled = (URLSearchParams_get params ''osc2_enabled'' = Some ''true'')\<rparr>\<rparr>)"

definition loadOscillator3 :: "URLSearchParams \<Rightarrow> PartialSynthState \<Rightarrow> PartialSynthState" where
  "loadOscillator3 params state =
     (case URLSearchParams_get params ''osc3_waveform'' of
        None \<Rightarrow> state
      | Some w \<Rightarrow>
          state\<lparr>oscillator3_opt :=
            Some \<lparr>loadedWaveform = w,
                  loadedFrequency = parseFloat (orElse (URLSearchParams_get params ''osc3_freq'') ''0''),
                  loadedRange = URLSearchParams_get params ''osc3_range'',
                  loadedEnabled = (URLSearchParams_get params ''osc3_enabled'' = Some ''true'')\<rparr>\<rparr>)"

definition loadMixer :: "URLSearchParams \<Rightarrow> PartialSynthState \<Rightarrow> PartialSynthState" where
  "loadMixer params state =
     (if URLSearchParams_has params ''mix_osc1_enabled'' then
        state\<lparr>mixer_opt :=
          Some \<lparr>osc1 = \<lparr>enabled = (URLSearchParams_get params ''mix_osc1_enabled'' = Some ''true''), volume = parseFloat (orElse (URLSearchParams_get params ''mix_osc1_vol'') ''0'')\<rparr>,
                osc2 = \<lparr>enabled = (URLSearchParams_get params ''mix_osc2_enabled'' = Some ''true''), volume = parseFloat (orElse (URLSearchParams_get params ''mix_osc2_vol'') ''0'')\<rparr>,
                osc3 = \<lparr>enabled = (URLSearchParams_get params ''mix_osc3_enabled'' = Some ''true''), volume = parseFloat (orElse (URLSearchParams_get params ''mix_osc3_vol'') ''0'')\<rparr>,
                noise = \<lparr>enabled = (URLSearchParams_get params ''mix_noise_enabled'' = Some ''true''),
                         volume = parseFloat (orElse (URLSearchParams_get params ''mix_noise_vol'') ''0''),
                         noiseType = orElse (URLSearchParams_get params ''mix_noise_type'') ''white''\<rparr>,
                external = \<lparr>enabled = (URLSearchParams_get params ''mix_ext_enabled'' = Some ''true''), volume = parseFloat (orElse (URLSearchParams_get params ''mix_ext_vol'') ''0'')\<rparr>\<rparr>\<rparr>
      else state)"

definition loadFilter :: "URLSearchParams \<Rightarrow> PartialSynthState \<Rightarrow> PartialSynthState" where
  "loadFilter params state =
     (if URLSearchParams_has params ''filter_cutoff'' then
        state\<lparr>filterCutoff_opt := Some (parseAndClamp (URLSearchParams_get params ''filter_cutoff'') (Fin (- 4)) (Fin 4) (Fin 0)),
             filterEmphasis_opt := Some (parseOrDefault (URLSearchParams_get params ''filter_emphasis'') (Fin 5)),
             filterContourAmount_opt := Some (parseOrDefault (URLSearchParams_get params ''filter_contour'') (Fin 5)),
             filterAttack_opt := Some (parseOrDefault (URLSearchParams_get params ''filter_attack'') (Fin (1 / 2))),
             filterDecay_opt := Some (parseOrDefault (URLSearchParams_get params ''filter_decay'') (Fin 0)),
             filterSustain_opt := Some (parseOrDefault (URLSearchParams_get params ''filter_sustain'') (Fin 0)),
             filterModulationOn_opt := Some ((URLSearchParams_get params ''filter_mod_on'' = Some ''true''))\<rparr>
      else state)"

definition loadLoudness :: "URLSearchParams \<Rightarrow> PartialSynthState \<Rightarrow> PartialSynthState" where
  "loadLoudness params state =
     (if URLSearchParams_has params ''loudness_attack'' then
        state\<lparr>loudnessAttack_opt := Some (parseOrDefault (URLSearchParams_get params ''loudness_attack'') (Fin (1 / 2))),
             loudnessDecay_opt := Some (parseOrDefault (URLSearchParams_get params ''loudness_decay'') (Fin 0)),
             loudnessSustain_opt := Some (parseOrDefault (URLSearchParams_get params ''loudness_sustain'') (Fin 5))\<rparr>
      else state)"

definition loadModulation :: "URLSearchParams \<Rightarrow> PartialSynthState \<Rightarrow> PartialSynthState" where
  "loadModulation params state =
     (case URLSearchParams_get params ''lfo_waveform'' of
        None \<Rightarrow> state
      | Some w \<Rightarrow>
          state\<lparr>lfoWaveform_opt := Some w,
                lfoRate_opt := Some (parseOrDefault (URLSearchParams_get params ''lfo_rate'') (Fin 5)),
                modMix_opt := Some (parseOrDefault (URLSearchParams_get params ''mod_mix'') (Fin 0)),
                oscillatorModulationOn_opt := Some (URLSearchParams_get params ''osc_mod_on'' = Some ''true'')\<rparr>)"

definition loadGlide :: "URLSearchParams \<Rightarrow> PartialSynthState \<Rightarrow> PartialSynthState" where
  "loadGlide params state =
     (if URLSearchParams_has params ''glide_on'' then
        state\<lparr>glideOn_opt := Some ((URLSearchParams_get params ''glide_on'' = Some ''true'')),
             glideTime_opt := Some (parseOrDefault (URLSearchParams_get params ''glide_time'') (Fin (1 / 10)))\<rparr>
      else state)"

definition loadMainVolume :: "URLSearchParams \<Rightarrow> PartialSynthState \<Rightarrow> PartialSynthState" where
  "loadMainVolume params state =
     (if URLSearchParams_has params ''main_volume'' then
        state\<lparr>mainVolume_opt := Some (parseOrDefault (URLSearchParams_get params ''main_volume'') (Fin (5 / 2))),
             isMainActive_opt := Some ((URLSearchParams_get params ''main_active'' = Some ''true''))\<rparr>
      else state)"

definition loadKeyboardControl :: "URLSearchParams \<Rightarrow> PartialSynthState \<Rightarrow> PartialSynthState" where
  "loadKeyboardControl params state =
     (if URLSearchParams_has params ''keyboard_control1'' then
        state\<lparr>keyboardControl1_opt := Some ((URLSearchParams_get params ''keyboard_control1'' = Some ''true'')),
             keyboardControl2_opt := Some ((URLSearchParams_get params ''keyboard_control2'' = Some ''true''))\<rparr>
      else state)"

definition loadOsc3Control :: "URLSearchParams \<Rightarrow> PartialSynthState \<Rightarrow> PartialSynthState" where
  "loadOsc3Control params state =
     (if URLSearchParams_has params ''osc3_control'' then
        state\<lparr>osc3Control_opt := Some ((URLSearchParams_get params ''osc3_control'' = Some ''true'')),
             osc3FilterEgSwitch_opt := Some ((URLSearchParams_get params ''osc3_filter_eg'' = Some ''true''))\<rparr>
      else state)"

definition loadNoiseLfoSwitch :: "URLSearchParams \<Rightarrow> PartialSynthState \<Rightarrow> PartialSynthState" where
  "loadNoiseLfoSwitch params state =
     (if URLSearchParams_has params ''noise_lfo_switch'' then
        state\<lparr>noiseLfoSwitch_opt := Some ((URLSearchParams_get params ''noise_lfo_switch'' = Some ''true'')),
             decaySwitchOn_opt := Some ((URLSearchParams_get params ''decay_switch'' = Some ''true''))\<rparr>
      else state)"

definition loadMasterTune :: "URLSearchParams \<Rightarrow> PartialSynthState \<Rightarrow> PartialSynthState" where
  "loadMasterTune params state =
     (if URLSearchParams_has params ''master_tune'' then
        state\<lparr>masterTune_opt := Some (parseOrDefault (URLSearchParams_get params ''master_tune'') (Fin 0)),
             pitchWheel_opt := Some (parseOrDefault (URLSearchParams_get params ''pitch_wheel'') (Fin 50)),
             modWheel_opt := Some (parseOrDefault (URLSearchParams_get params ''mod_wheel'') (Fin 50))\<rparr>
      else state)"

definition loadTuner :: "URLSearchParams \<Rightarrow> PartialSynthState \<Rightarrow> PartialSynthState" where
  "loadTuner params state =
     (if URLSearchParams_has params ''tuner_on'' then
        state\<lparr>tunerOn_opt := Some ((URLSearchParams_get params ''tuner_on'' = Some ''true''))\<rparr>
      else state)"

definition loadAuxOutput :: "URLSearchParams \<Rightarrow> PartialSynthState \<Rightarrow> PartialSynthState" where
  "loadAuxOutput params state =
     (if URLSearchParams_has params ''aux_enabled'' then
        state\<lparr>auxOutput_opt := Some (\<lparr>enabled = (URLSearchParams_get params ''aux_enabled'' = Some ''true''), volume = parseOrDefault (URLSearchParams_get params ''aux_volume'') (Fin 0)\<rparr>)\<rparr>
      else state)"

text \<open>
  \<open>loadStateFromURL\<close> reads \<open>window.location.search\<close>, here its argument; \<open>None\<close> is
  the \<open>null\<close> it returns when the query string holds no pair. The blocks run in the
  order of the source, the first on the empty object.
\<close>

definition loadStateFromURL :: "string \<Rightarrow> PartialSynthState option" where
  "loadStateFromURL search =
     (let params = URLSearchParams_new search
      in if URLSearchParams_toString params = [] then None
         else Some
           ((loadAuxOutput params \<circ>
            loadTuner params \<circ>
            loadMasterTune params \<circ>
            loadNoiseLfoSwitch params \<circ>
            loadOsc3Control params \<circ>
            loadKeyboardControl params \<circ>
            loadMainVolume params \<circ>
            loadGlide params \<circ>
            loadModulation params \<circ>
            loadLoudness params \<circ>
            loadFilter params \<circ>
            loadMixer params \<circ>
            loadOscillator3 params \<circ>
            loadOscillator2 params \<circ>
            loadOscillator1 params)
              emptyPartialState))"

text \<open>The numbers the encoder writes.\<close>

definition numericFields :: "SynthState \<Rightarrow> number list" where
  "numericFields state =
     [frequency (oscillator1 state),
      frequency (oscillator2 state),
      frequency (oscillator3 state),
      volume (osc1 (mixer state)),
      volume (osc2 (mixer state)),
      volume (osc3 (mixer state)),
      volume (noise (mixer state)),
      volume (external (mixer state)),
      filterCutoff state,
      filterEmphasis state,
      filterContourAmount state,
      filterAttack state,
      filterDecay state,
      filterSustain state,
      loudnessAttack state,
      loudnessDecay state,
      loudnessSustain state,
      lfoRate state,
      modMix state,
      glideTime state,
      mainVolume state,
      masterTune state,
      pitchWheel state,
      modWheel state,
      volume (auxOutput state)]"

text \<open>
  A state seen as an overlay: every field the encoder writes is present with the
  state's value; the two fields it does not write are absent.
\<close>

definition asLoaded :: "OscillatorState \<Rightarrow> LoadedOscillatorState" where
  "asLoaded osc =
     \<lparr>loadedWaveform = waveform osc, loadedFrequency = frequency osc,
      loadedRange = Some (oscRange osc), loadedEnabled = oscEnabled osc\<rparr>"

definition fullOverlay :: "SynthState \<Rightarrow> PartialSynthState" where
  "fullOverlay state =
     \<lparr>isDisabled_opt = None,
      activeKeys_opt = None,
      pitchWheel_opt = Some (pitchWheel state),
      modWheel_opt = Some (modWheel state),
      masterTune_opt = Some (masterTune state),
      oscillator1_opt = Some (asLoaded (oscillator1 state)),
      oscillator2_opt = Some (asLoaded (oscillator2 state)),
      oscillator3_opt = Some (asLoaded (oscillator3 state)),
      mixer_opt = Some (mixer state),
      mainVolume_opt = Some (mainVolume state),
      isMainActive_opt = Some (isMainActive state),
      glideOn_opt = Some (glideOn state),
      glideTime_opt = Some (glideTime state),
      filterAttack_opt = Some (filterAttack state),
      filterDecay_opt = Some (filterDecay state),
      filterSustain_opt = Some (filterSustain state),
      filterCutoff_opt = Some (filterCutoff state),
      filterEmphasis_opt = Some (filterEmphasis state),
      filterContourAmount_opt = Some (filterContourAmount state),
      filterModulationOn_opt = Some (filterModulationOn state),
      keyboardControl1_opt = Some (keyboardControl1 state),
      keyboardControl2_opt = Some (keyboardControl2 state),
      oscillatorModulationOn_opt = Some (oscillatorModulationOn state),
      lfoWaveform_opt = Some (lfoWaveform state),
      lfoRate_opt = Some (lfoRate state),
      osc3Control_opt = Some (osc3Control state),
      modMix_opt = Some (modMix state),
      osc3FilterEgSwitch_opt = Some (osc3FilterEgSwitch state),
      noiseLfoSwitch_opt = Some (noiseLfoSwitch state),
      loudnessAttack_opt = Some (loudnessAttack state),
      loudnessDecay_opt = Some (loudnessDecay state),
      loudnessSustain_opt = Some (loudnessSustain state),
      decaySwitchOn_opt = Some (decaySwitchOn state),
      tunerOn_opt = Some (tunerOn state),
      auxOutput_opt = Some (auxOutput state)\<rparr>"


text \<open>
  For the examples: \<open>Number.prototype.toString\<close> where it needs neither a fraction nor
  an exponent, that is on NaN, on the infinities and on the integers of magnitude
  below \<open>10\<^sup>2\<^sup>1\<close>. (Of any other number it prints the integer part only; the
  examples do not use it there.)
\<close>

function decimalDigits :: "nat \<Rightarrow> string" where
  "decimalDigits n =
     (if n < 10 then [''0123456789'' ! n]
      else decimalDigits (n div 10) @ [''0123456789'' ! (n mod 10)])"
  by pat_completeness auto
termination
  by (relation "measure id") auto

declare decimalDigits.simps [simp del]

definition toStringInteger :: "number \<Rightarrow> string" where
  "toStringInteger x =
     (case x of
        Fin r \<Rightarrow> if r < 0 then CHR ''-'' # decimalDigits (nat \<lfloor>- r\<rfloor>)
                 else decimalDigits (nat \<lfloor>r\<rfloor>)
      | PosInf \<Rightarrow> ''Infinity''
      | NegInf \<Rightarrow> ''-Infinity''
      | NaN \<Rightarrow> ''NaN'')"

definition exampleState :: SynthState where
  "exampleState =
     \<lparr>isDisabled = False, activeKeys = None,
      pitchWheel = Fin 50, modWheel = Fin 50, masterTune = Fin 0,
      oscillator1 = \<lparr>waveform = ''sawtooth'', frequency = Fin 440, oscRange = ''8'',
                      oscEnabled = True\<rparr>,
      oscillator2 = \<lparr>waveform = ''tri_saw'', frequency = Fin (- 7), oscRange = ''16'',
                      oscEnabled = True\<rparr>,
      oscillator3 = \<lparr>waveform = ''pulse1'', frequency = Fin 0, oscRange = ''lo'',
                      oscEnabled = False\<rparr>,
      mixer = \<lparr>osc1 = \<lparr>enabled = True, volume = Fin 8\<rparr>,
                osc2 = \<lparr>enabled = True, volume = Fin 6\<rparr>,
                osc3 = \<lparr>enabled = False, volume = Fin 0\<rparr>,
                noise = \<lparr>enabled = False, volume = Fin 2, noiseType = ''pink''\<rparr>,
                external = \<lparr>enabled = False, volume = Fin 0\<rparr>\<rparr>,
      mainVolume = Fin 5, isMainActive = True,
      glideOn = False, glideTime = Fin 1,
      filterAttack = Fin 1, filterDecay = Fin 3, filterSustain = Fin 4,
      filterCutoff = Fin (- 2), filterEmphasis = Fin 5, filterContourAmount = Fin 6,
      filterModulationOn = False, keyboardControl1 = True, keyboardControl2 = False,
      oscillatorModulationOn = True, lfoWaveform = ''triangle'', lfoRate = Fin 5,
      osc3Control = True, modMix = Fin 0, osc3FilterEgSwitch = False,
      noiseLfoSwitch = True,
      loudnessAttack = Fin 0, loudnessDecay = Fin 2, loudnessSustain = Fin 9,
      decaySwitchOn = False,
      tunerOn = False, auxOutput = \<lparr>enabled = True, volume = Fin 3\<rparr>\<rparr>"

text \<open>
  In an overlay \<open>d\<close> read from the pairs \<open>params\<close>, a field is present exactly when
  the anchor key of its group is among the pairs, and the two fields without a key are
  absent.
\<close>

definition populatedByAnchor :: "URLSearchParams \<Rightarrow> PartialSynthState \<Rightarrow> bool" where
  "populatedByAnchor params d =
    (isDisabled_opt d = None \<and> activeKeys_opt d = None \<and>
     (oscillator1_opt d \<noteq> None) = URLSearchParams_has params ''osc1_waveform'' \<and>
     (oscillator2_opt d \<noteq> None) = URLSearchParams_has params ''osc2_waveform'' \<and>
     (oscillator3_opt d \<noteq> None) = URLSearchParams_has params ''osc3_waveform'' \<and>
     (mixer_opt d \<noteq> None) = URLSearchParams_has params ''mix_osc1_enabled'' \<and>
     (filterCutoff_opt d \<noteq> None) = URLSearchParams_has params ''filter_cutoff'' \<and>
     (filterEmphasis_opt d \<noteq> None) = URLSearchParams_has params ''filter_cutoff'' \<and>
     (filterContourAmount_opt d \<noteq> None) = URLSearchParams_has params ''filter_cutoff'' \<and>
     (filterAttack_opt d \<noteq> None) = URLSearchParams_has params ''filter_cutoff'' \<and>
     (filterDecay_opt d \<noteq> None) = URLSearchParams_has params ''filter_cutoff'' \<and>
     (filterSustain_opt d \<noteq> None) = URLSearchParams_has params ''filter_cutoff'' \<and>
     (filterModulationOn_opt d \<noteq> None) = URLSearchParams_has params ''filter_cutoff'' \<and>
     (loudnessAttack_opt d \<noteq> None) = URLSearchParams_has params ''loudness_attack'' \<and>
     (loudnessDecay_opt d \<noteq> None) = URLSearchParams_has params ''loudness_attack'' \<and>
     (loudnessSustain_opt d \<noteq> None) = URLSearchParams_has params ''loudness_attack'' \<and>
     (lfoWaveform_opt d \<noteq> None) = URLSearchParams_has params ''lfo_waveform'' \<and>
     (lfoRate_opt d \<noteq> None) = URLSearchParams_has params ''lfo_waveform'' \<and>
     (modMix_opt d \<noteq> None) = URLSearchParams_has params ''lfo_waveform'' \<and>
     (oscillatorModulationOn_opt d \<noteq> None) = URLSearchParams_has params ''lfo_waveform'' \<and>
     (glideOn_opt d \<noteq> None) = URLSearchParams_has params ''glide_on'' \<and>
     (glideTime_opt d \<noteq> None) = URLSearchParams_has params ''glide_on'' \<and>
     (mainVolume_opt d \<noteq> None) = URLSearchParams_has params ''main_volume'' \<and>
     (isMainActive_opt d \<noteq> None) = URLSearchParams_has params ''main_volume'' \<and>
     (keyboardControl1_opt d \<noteq> None) = URLSearchParams_has params ''keyboard_control1'' \<and>
     (keyboardControl2_opt d \<noteq> None) = URLSearchParams_has params ''keyboard_control1'' \<and>
     (osc3Control_opt d \<noteq> None) = URLSearchParams_has params ''osc3_control'' \<and>
     (osc3FilterEgSwitch_opt d \<noteq> None) = URLSearchParams_has params ''osc3_control'' \<and>
     (noiseLfoSwitch_opt d \<noteq> None) = URLSearchParams_has params ''noise_lfo_switch'' \<and>
     (decaySwitchOn_opt d \<noteq> None) = URLSearchParams_has params ''noise_lfo_switch'' \<and>
     (masterTune_opt d \<noteq> None) = URLSearchParams_has params ''master_tune'' \<and>
     (pitchWheel_opt d \<noteq> None) = URLSearchParams_has params ''master_tune'' \<and>
     (modWheel_opt d \<noteq> None) = URLSearchParams_has params ''master_tune'' \<and>
     (tunerOn_opt d \<noteq> None) = URLSearchParams_has params ''tuner_on'' \<and>
     (auxOutput_opt d \<noteq> None) = URLSearchParams_has params ''aux_enabled'')"

text \<open>One pair of the serialisation.\<close>

definition segment :: "string \<times> string \<Rightarrow> string" where
  "segment p = urlencode (fst p) @ ''='' @ urlencode (snd p)"

text \<open>
  A number reads back: it is not NaN and \<open>parseFloat\<close> recovers it from what
  \<open>toString\<close> printed.
\<close>

definition readsBack :: "(number \<Rightarrow> string) \<Rightarrow> number \<Rightarrow> bool" where
  "readsBack toString x = (x \<noteq> NaN \<and> parseFloat (toString x) = x)"

text \<open>
  A number that is at least \<open>a\<close>: a finite number from \<open>a\<close> upwards, or positive
  infinity.
\<close>

definition geNum :: "real \<Rightarrow> number \<Rightarrow> bool" where
  "geNum a x = (case x of Fin y \<Rightarrow> a \<le> y | PosInf \<Rightarrow> True | NegInf \<Rightarrow> False | NaN \<Rightarrow> False)"


section \<open>Properties of the rounding\<close>

text \<open>Rounding errs by at most half the distance of neighbouring doubles.\<close>

lemma rte_err: "\<bar>of_int (roundTiesToEven x) - x\<bar> \<le> 1 / 2"
  unfolding roundTiesToEven_def Let_def by (simp; linarith)

lemma rte_int [simp]: "roundTiesToEven (of_int k) = k"
  by (simp add: roundTiesToEven_def)

lemma rte_nonneg: "0 \<le> x \<Longrightarrow> 0 \<le> roundTiesToEven x"
  unfolding roundTiesToEven_def Let_def by (simp; linarith)

lemma rte_nonpos: "x \<le> 0 \<Longrightarrow> roundTiesToEven x \<le> 0"
proof (cases "x = 0")
  case True
  then show ?thesis by (simp add: roundTiesToEven_def)
next
  case False
  assume "x \<le> 0"
  with False have "x < 0" by simp
  then have "\<lfloor>x\<rfloor> \<le> - 1" by (simp add: floor_le_iff)
  then show ?thesis by (simp add: roundTiesToEven_def Let_def)
qed

lemma ulp_pos [simp]: "0 < ulp x"
  by (simp add: ulp_def)

lemma ulp_nonneg [simp]: "0 \<le> ulp x"
  by (simp add: ulp_def)

lemma ulp_neq0 [simp]: "ulp x \<noteq> 0"
  by (simp add: ulp_def)

lemma nd_err: "\<bar>nearestDouble x - x\<bar> \<le> ulp x / 2"
proof -
  have "ulp x \<noteq> 0" by (simp add: ulp_def)
  then have "nearestDouble x - x = (of_int (roundTiesToEven (x / ulp x)) - x / ulp x) * ulp x"
    by (simp add: nearestDouble_def field_simps)
  then have "\<bar>nearestDouble x - x\<bar> = \<bar>of_int (roundTiesToEven (x / ulp x)) - x / ulp x\<bar> * ulp x"
    by (simp add: abs_mult abs_of_pos)
  also have "\<dots> \<le> 1 / 2 * ulp x"
    by (intro mult_right_mono rte_err) simp
  finally show ?thesis by simp
qed

lemma exponent_le: "2 powr (- 1022) \<le> \<bar>x\<bar> \<Longrightarrow> 2 powr (of_int (exponent x)) \<le> \<bar>x\<bar>"
proof -
  assume a: "2 powr (- 1022) \<le> \<bar>x\<bar>"
  then have pos: "0 < \<bar>x\<bar>" by (smt (verit) powr_gt_zero)
  have "of_int \<lfloor>log 2 \<bar>x\<bar>\<rfloor> \<le> log 2 \<bar>x\<bar>" by simp
  then have "2 powr (of_int \<lfloor>log 2 \<bar>x\<bar>\<rfloor>) \<le> 2 powr (log 2 \<bar>x\<bar>)" by simp
  also have "\<dots> = \<bar>x\<bar>" using pos by simp
  finally show ?thesis using a by (simp add: exponent_def)
qed

lemma ulp_le:
  assumes "\<bar>x\<bar> \<le> B" "2 powr (- 1022) \<le> B"
  shows "ulp x \<le> B / 2 ^ 52"
proof (cases "\<bar>x\<bar> < 2 powr (- 1022)")
  case True
  then have "ulp x = 2 powr (- 1022 - 52)" by (simp add: ulp_def exponent_def)
  also have "\<dots> = 2 powr (- 1022) / 2 ^ 52" using powr_diff [of "2::real" "- 1022" 52] by simp
  also have "\<dots> \<le> B / 2 ^ 52" using assms(2) by (simp add: divide_right_mono)
  finally show ?thesis .
next
  case False
  then have "2 powr (of_int (exponent x)) \<le> \<bar>x\<bar>" by (intro exponent_le) simp
  with assms(1) have "2 powr (of_int (exponent x)) \<le> B" by linarith
  moreover have "ulp x = 2 powr (of_int (exponent x)) / 2 ^ 52" by (simp add: ulp_def powr_diff)
  ultimately show ?thesis by (simp add: divide_right_mono)
qed

lemma nd_abs:
  assumes "\<bar>x\<bar> \<le> B" "2 powr (- 1022) \<le> B"
  shows "\<bar>nearestDouble x - x\<bar> \<le> B / 2 ^ 53"
proof -
  from ulp_le [OF assms] have "ulp x / 2 \<le> B / 2 ^ 52 / 2" by simp
  also have "\<dots> = B / 2 ^ 53" by simp
  finally show ?thesis using nd_err [of x] by linarith
qed

text \<open>
  Doubles are rounded to themselves: the integers below \<open>2\<^sup>5\<^sup>3\<close> in magnitude, and their
  multiples by a power of two.
\<close>

lemma nd_exact_quot: "x / ulp x = of_int k \<Longrightarrow> nearestDouble x = x"
proof -
  assume a: "x / ulp x = of_int k"
  then have "nearestDouble x = x / ulp x * ulp x" by (simp add: nearestDouble_def)
  then show ?thesis by simp
qed

lemma exponent_less:
  assumes "\<bar>x\<bar> < 2 powr (of_int e)" "- 1022 < e"
  shows "exponent x < e"
proof (cases "\<bar>x\<bar> < 2 powr (- 1022)")
  case True
  with assms(2) show ?thesis by (simp add: exponent_def)
next
  case False
  then have "2 powr (of_int (exponent x)) \<le> \<bar>x\<bar>" by (intro exponent_le) simp
  with assms(1) have "(2::real) powr (of_int (exponent x)) < 2 powr (of_int e)" by linarith
  then show ?thesis by simp
qed

lemma exponent_ge: "- 1022 \<le> exponent x"
proof (cases "\<bar>x\<bar> < 2 powr (- 1022)")
  case True
  then show ?thesis by (simp add: exponent_def)
next
  case False
  then have a: "2 powr (- 1022) \<le> \<bar>x\<bar>" by simp
  then have pos: "0 < \<bar>x\<bar>" by (smt (verit) powr_gt_zero)
  from a have "log 2 (2 powr (- 1022)) \<le> log 2 \<bar>x\<bar>"
    using pos by (subst log_le_cancel_iff) simp_all
  then have "- 1022 \<le> log 2 \<bar>x\<bar>" by simp
  then have "- 1022 \<le> \<lfloor>log 2 \<bar>x\<bar>\<rfloor>" by (simp add: le_floor_iff)
  with False show ?thesis by (simp add: exponent_def)
qed

lemma nd_dyadic:
  assumes "\<bar>m\<bar> < 2 ^ 53" "- 1074 \<le> e"
  shows "nearestDouble (of_int m * 2 powr (of_int e)) = of_int m * 2 powr (of_int e)"
proof -
  define x where "x = real_of_int m * 2 powr (of_int e)"
  have "\<bar>real_of_int m\<bar> < 2 ^ 53" using assms(1)
    by (metis of_int_abs of_int_less_iff of_int_numeral of_int_power)
  then have "\<bar>x\<bar> < 2 ^ 53 * 2 powr (of_int e)"
    by (simp add: x_def abs_mult)
  also have "\<dots> = 2 powr (of_int (e + 53))"
    by (simp add: powr_add)
  finally have "exponent x < e + 53" using assms(2) by (intro exponent_less) simp_all
  then have k: "0 \<le> e + 52 - exponent x" by simp
  define k where "k = nat (e + 52 - exponent x)"
  have ke: "of_int e - (of_int (exponent x) - 52) = real k"
    using k by (simp add: k_def)
  have "x / ulp x = of_int m * (2 powr (of_int e) / 2 powr (of_int (exponent x) - 52))"
    by (simp add: x_def ulp_def)
  also have "2 powr (of_int e) / 2 powr (of_int (exponent x) - 52) = (2::real) powr (real k)"
    by (simp flip: powr_diff add: ke)
  also have "(2::real) powr (real k) = 2 ^ k" by (simp add: powr_realpow)
  finally have "x / ulp x = of_int (m * 2 ^ k)" by simp
  then have "nearestDouble x = x" by (rule nd_exact_quot)
  then show ?thesis by (simp add: x_def)
qed

lemma nd_int: "\<bar>k\<bar> < 2 ^ 53 \<Longrightarrow> nearestDouble (of_int k) = of_int k"
  using nd_dyadic [of k 0] by simp

lemma nd_zero [simp]: "nearestDouble 0 = 0"
  using rte_int [of 0] by (simp add: nearestDouble_def)

lemma nd_nonneg: "0 \<le> x \<Longrightarrow> 0 \<le> nearestDouble x"
  by (simp add: nearestDouble_def rte_nonneg)

lemma nd_nonpos: "x \<le> 0 \<Longrightarrow> nearestDouble x \<le> 0"
proof -
  assume "x \<le> 0"
  then have "x / ulp x \<le> 0" by (simp add: divide_nonpos_nonneg)
  then have "roundTiesToEven (x / ulp x) \<le> 0" by (rule rte_nonpos)
  then have "real_of_int (roundTiesToEven (x / ulp x)) \<le> 0" by simp
  then show ?thesis by (simp add: nearestDouble_def mult_nonpos_nonneg)
qed

lemma rte_small: "\<bar>x\<bar> < 1 / 2 \<Longrightarrow> roundTiesToEven x = 0"
proof -
  assume a: "\<bar>x\<bar> < 1 / 2"
  have "\<bar>real_of_int (roundTiesToEven x) - x\<bar> \<le> 1 / 2" by (rule rte_err)
  with a have "\<bar>real_of_int (roundTiesToEven x)\<bar> < 1" by linarith
  then show ?thesis by linarith
qed

lemma nd_twice: "\<bar>nearestDouble x\<bar> \<le> 2 * \<bar>x\<bar>"
proof (cases "\<bar>x / ulp x\<bar> < 1 / 2")
  case True
  then show ?thesis by (simp add: nearestDouble_def rte_small)
next
  case False
  then have "1 / 2 \<le> \<bar>x\<bar> / ulp x" by (simp add: abs_of_pos)
  then have "ulp x / 2 \<le> \<bar>x\<bar>" by (simp add: field_simps)
  with nd_err [of x] show ?thesis by linarith
qed

lemma nd_half:
  assumes "2 powr (- 1022) \<le> x"
  shows "x / 2 \<le> nearestDouble x"
proof -
  have pos: "0 < x" using assms by (smt (verit) powr_gt_zero)
  then have "\<bar>x\<bar> \<le> x" by simp
  from nd_abs [OF this assms] have "\<bar>nearestDouble x - x\<bar> \<le> x / 2 ^ 53" .
  moreover have "x / 2 ^ 53 \<le> x / 2" using pos by (simp add: field_simps)
  ultimately show ?thesis by linarith
qed

lemma DBL_OVERFLOW_gt: "2 ^ 1023 < DBL_OVERFLOW"
  by (simp add: DBL_OVERFLOW_def)

lemma fl_not_NaN [simp]: "fl x \<noteq> NaN"
  by (simp add: fl_def)

lemma fl_zero [simp]: "fl 0 = Fin 0"
  using DBL_OVERFLOW_gt by (simp add: fl_def)

lemma fl_Fin: "\<bar>x\<bar> \<le> 2 ^ 1023 \<Longrightarrow> fl x = Fin (nearestDouble x)"
  using DBL_OVERFLOW_gt by (auto simp: fl_def)

lemma p1022: "(2::real) powr (- 1022) = 1 / 2 ^ 1022"
  by (simp add: powr_minus_divide)

lemma fl_close:
  assumes "\<bar>x\<bar> \<le> B" "1 / 2 ^ 1022 \<le> B" "B \<le> 2 ^ 1023"
  shows "\<exists>y. fl x = Fin y \<and> \<bar>y - x\<bar> \<le> B / 2 ^ 53"
proof -
  from assms have "fl x = Fin (nearestDouble x)" by (intro fl_Fin) linarith
  moreover have "\<bar>nearestDouble x - x\<bar> \<le> B / 2 ^ 53"
    using assms by (intro nd_abs) (simp_all add: p1022)
  ultimately show ?thesis by blast
qed

lemma fl_dyadic:
  assumes "\<bar>m\<bar> < 2 ^ 53" "- 1074 \<le> e" "e \<le> 970"
  shows "fl (of_int m * 2 powr (of_int e)) = Fin (of_int m * 2 powr (of_int e))"
proof -
  have "\<bar>real_of_int m\<bar> < 2 ^ 53" using assms(1)
    by (metis of_int_abs of_int_less_iff of_int_numeral of_int_power)
  moreover have "(2::real) powr (of_int e) \<le> 2 powr (of_int (970::int))"
    by (rule powr_mono) (use assms(3) in simp_all)
  then have "(2::real) powr (of_int e) \<le> 2 ^ 970" by simp
  ultimately have "\<bar>real_of_int m\<bar> * 2 powr (of_int e) \<le> 2 ^ 53 * 2 ^ 970"
    by (intro mult_mono) simp_all
  then have "\<bar>real_of_int m * 2 powr (of_int e)\<bar> \<le> 2 ^ 1023"
    by (simp add: abs_mult)
  then show ?thesis using nd_dyadic [OF assms(1,2)] by (simp add: fl_Fin)
qed

lemma fl_int: "\<bar>k\<bar> < 2 ^ 53 \<Longrightarrow> fl (of_int k) = Fin (of_int k)"
  using fl_dyadic [of k 0] by simp

lemma DBL_OVERFLOW_pos: "0 < DBL_OVERFLOW"
  using DBL_OVERFLOW_gt by (smt (verit) zero_less_power)

lemma DBL_OVERFLOW_lt: "DBL_OVERFLOW < 2 ^ 1024"
  by (simp add: DBL_OVERFLOW_def)

lemma fl_ge_half:
  assumes "a \<le> x" "1 / 2 ^ 1022 \<le> a"
  shows "geNum (a / 2) (fl x)"
proof -
  have x: "2 powr (- 1022) \<le> x" using assms by (simp add: p1022)
  then have "x / 2 \<le> nearestDouble x" by (rule nd_half)
  moreover have "0 < x" using x by (smt (verit) powr_gt_zero)
  ultimately show ?thesis using assms(1) DBL_OVERFLOW_pos by (simp add: fl_def geNum_def)
qed

lemma fl_ge_twice:
  assumes "a \<le> x" "a \<le> 0" "- (2 ^ 1000) \<le> a"
  shows "geNum (2 * a) (fl x)"
proof -
  have "(2::real) ^ 1000 \<le> 2 ^ 1023" by simp
  with DBL_OVERFLOW_gt assms(1,3) have no: "\<not> x \<le> - DBL_OVERFLOW" by linarith
  have "\<bar>nearestDouble x\<bar> \<le> 2 * \<bar>x\<bar>" by (rule nd_twice)
  moreover have "0 \<le> x \<Longrightarrow> 0 \<le> nearestDouble x" by (rule nd_nonneg)
  ultimately have "2 * a \<le> nearestDouble x" using assms(1,2) by (cases "0 \<le> x") linarith+
  with no show ?thesis by (simp add: fl_def geNum_def)
qed

lemma fl_nonneg: "0 \<le> x \<Longrightarrow> geNum 0 (fl x)"
  using DBL_OVERFLOW_pos by (simp add: fl_def geNum_def nd_nonneg)

lemma fl_Fin_bound:
  assumes "fl x = Fin y"
  shows "y = nearestDouble x" "\<bar>x\<bar> < 2 ^ 1024" "\<bar>y\<bar> \<le> 2 ^ 1025"
proof -
  from assms show y: "y = nearestDouble x" by (auto simp: fl_def split: if_splits)
  from assms have "\<bar>x\<bar> < DBL_OVERFLOW" by (auto simp: fl_def split: if_splits)
  with DBL_OVERFLOW_lt show x: "\<bar>x\<bar> < 2 ^ 1024" by linarith
  have "\<bar>y\<bar> \<le> 2 * \<bar>x\<bar>" unfolding y by (rule nd_twice)
  with x show "\<bar>y\<bar> \<le> 2 ^ 1025" by simp
qed

lemma fl_bounded:
  assumes "\<bar>x\<bar> \<le> B" "1 \<le> B" "B \<le> 2 ^ 1000"
  shows "\<exists>y. fl x = Fin y \<and> \<bar>y - x\<bar> \<le> B / 2 ^ 53"
proof -
  have "(1::real) / 2 ^ 1022 \<le> 1" by simp
  with assms(2) have a: "1 / 2 ^ 1022 \<le> B" by linarith
  have "(2::real) ^ 1000 \<le> 2 ^ 1023" by simp
  with assms(3) have b: "B \<le> 2 ^ 1023" by linarith
  from assms(1) a b show ?thesis by (rule fl_close)
qed

lemma rte_half_le: "\<bar>y\<bar> \<le> 1 / 2 \<Longrightarrow> roundTiesToEven y = 0"
proof -
  assume a: "\<bar>y\<bar> \<le> 1 / 2"
  consider "\<bar>y\<bar> < 1 / 2" | "y = 1 / 2" | "y = - 1 / 2" using a by linarith
  then show ?thesis
  proof cases
    case 1 then show ?thesis by (rule rte_small)
  next
    case 2
    have "\<lfloor>1 / 2 :: real\<rfloor> = 0" by simp
    then show ?thesis unfolding 2 by (simp add: roundTiesToEven_def Let_def)
  next
    case 3
    have "\<lfloor>- 1 / 2 :: real\<rfloor> = - 1" by (simp add: floor_unique)
    then show ?thesis unfolding 3 by (simp add: roundTiesToEven_def Let_def)
  qed
qed

lemma nd_tiny:
  assumes "\<bar>x\<bar> \<le> 2 powr (- 1075)"
  shows "nearestDouble x = 0"
proof -
  have "(2::real) powr (- 1075) < 2 powr (- 1022)" by (intro powr_less_mono) simp_all
  with assms have "\<bar>x\<bar> < 2 powr (- 1022)" by linarith
  then have u: "ulp x = 2 powr (- 1074)" by (simp add: ulp_def exponent_def)
  have "(2::real) powr (- 1075) / 2 powr (- 1074) = 2 powr (- 1075 - (- 1074))"
    by (rule powr_diff [symmetric])
  then have h: "(2::real) powr (- 1075) / 2 powr (- 1074) = 1 / 2" by simp
  have "\<bar>x / ulp x\<bar> = \<bar>x\<bar> / 2 powr (- 1074)" by (simp add: u)
  also have "\<dots> \<le> 2 powr (- 1075) / 2 powr (- 1074)"
    using assms by (intro divide_right_mono) simp_all
  finally have "\<bar>x / ulp x\<bar> \<le> 1 / 2" using h by simp
  then have "roundTiesToEven (x / ulp x) = 0" by (rule rte_half_le)
  then show ?thesis by (simp add: nearestDouble_def)
qed

lemma fl_dyadic_lt:
  assumes "\<bar>m\<bar> < 2 ^ 53" "- 1074 \<le> e" "\<bar>real_of_int m * 2 powr (of_int e)\<bar> < DBL_OVERFLOW"
  shows "fl (of_int m * 2 powr (of_int e)) = Fin (of_int m * 2 powr (of_int e))"
  using nd_dyadic [OF assms(1,2)] assms(3) by (auto simp: fl_def)

lemma fl_numeral: "(numeral k :: int) < 2 ^ 53 \<Longrightarrow> fl (numeral k) = Fin (numeral k)"
  using fl_int [of "numeral k"] by simp

lemma fl_neg_numeral:
  "(numeral k :: int) < 2 ^ 53 \<Longrightarrow> fl (- numeral k) = Fin (- numeral k)"
  using fl_int [of "- numeral k"] by simp

lemma fl_one: "fl 1 = Fin 1"
  using fl_int [of 1] by simp

lemma fl_scaled:
  assumes "\<bar>x\<bar> \<le> k * D" "1 \<le> k" "k \<le> 2 ^ 40" "1 / 2 ^ 500 \<le> D" "D \<le> 2 ^ 500"
  shows "\<exists>y. fl x = Fin y \<and> \<bar>y - x\<bar> \<le> k * D / 2 ^ 53"
proof -
  have D0: "0 \<le> D" using assms(4) by (smt (verit) divide_nonneg_nonneg zero_le_power)
  have "1 * (1 / 2 ^ 500) \<le> k * D" using assms(2,4) D0 by (intro mult_mono) simp_all
  moreover have "(1::real) / 2 ^ 1022 \<le> 1 * (1 / 2 ^ 500)" by simp
  ultimately have lo: "1 / 2 ^ 1022 \<le> k * D" by (rule order_trans [rotated])
  have "k * D \<le> 2 ^ 40 * 2 ^ 500" using assms(2,3,5) D0 by (intro mult_mono) simp_all
  moreover have "(2::real) ^ 40 * 2 ^ 500 \<le> 2 ^ 1023" by simp
  ultimately have hi: "k * D \<le> 2 ^ 1023" by (rule order_trans)
  from assms(1) lo hi show ?thesis by (rule fl_close)
qed

lemma exponent_eq:
  assumes "2 powr (of_int e) \<le> \<bar>x\<bar>" "\<bar>x\<bar> < 2 powr (of_int (e + 1))" "- 1022 \<le> e"
  shows "exponent x = e"
proof -
  have up: "exponent x < e + 1" using assms(2,3) by (intro exponent_less) simp_all
  have "(2::real) powr (- 1022) \<le> 2 powr (of_int e)" using assms(3) by (intro powr_mono) simp_all
  with assms(1) have n: "2 powr (- 1022) \<le> \<bar>x\<bar>" by linarith
  then have pos: "0 < \<bar>x\<bar>" by (smt (verit) powr_gt_zero)
  have "log 2 (2 powr (of_int e)) \<le> log 2 \<bar>x\<bar>"
    using assms(1) pos by (subst log_le_cancel_iff) simp_all
  then have "of_int e \<le> log 2 \<bar>x\<bar>" by simp
  then have "e \<le> \<lfloor>log 2 \<bar>x\<bar>\<rfloor>" by (simp add: le_floor_iff)
  with n have "e \<le> exponent x" by (simp add: exponent_def)
  with up show ?thesis by simp
qed

lemma rte_near:
  assumes "\<bar>x - of_int k\<bar> < 1 / 2"
  shows "roundTiesToEven x = k"
proof -
  have "\<bar>real_of_int (roundTiesToEven x) - x\<bar> \<le> 1 / 2" by (rule rte_err)
  with assms have "\<bar>real_of_int (roundTiesToEven x) - real_of_int k\<bar> < 1" by linarith
  then have "\<bar>real_of_int (roundTiesToEven x - k)\<bar> < 1" by simp
  then have "\<bar>roundTiesToEven x - k\<bar> < 1" by linarith
  then show ?thesis by simp
qed

lemma fl_above_2_53:
  assumes "0 \<le> y" "y < 1"
  shows "fl (2 ^ 53 + y) = Fin (2 ^ 53)"
proof -
  define x where "x = 2 ^ 53 + y"
  have xb: "2 ^ 53 \<le> x" "x < 2 ^ 54" using assms by (simp_all add: x_def)
  have "(2::real) powr (of_int 53) = 2 ^ 53" "(2::real) powr (of_int (53 + 1)) = 2 ^ 54"
    by simp_all
  with xb have "exponent x = 53" by (intro exponent_eq) simp_all
  then have u: "ulp x = 2" by (simp add: ulp_def)
  have "x / 2 - of_int (2 ^ 52) = y / 2" unfolding x_def by (simp add: add_divide_distrib)
  then have "\<bar>x / 2 - of_int (2 ^ 52)\<bar> < 1 / 2" using assms by simp
  then have "roundTiesToEven (x / 2) = 2 ^ 52" by (rule rte_near)
  then have "nearestDouble x = 2 ^ 53" by (simp add: nearestDouble_def u)
  moreover have "\<bar>x\<bar> \<le> 2 ^ 1023"
  proof -
    have "\<bar>x\<bar> \<le> 2 ^ 54" using xb by simp
    also have "\<dots> \<le> (2::real) ^ 1023" by simp
    finally show ?thesis .
  qed
  ultimately show ?thesis unfolding x_def by (simp add: fl_Fin)
qed

text \<open>
  The library functions of an accurate engine, and how far a small change of the argument
  moves the exact functions.
\<close>

lemma pow2_between:
  fixes a b x :: real
  shows "a \<le> x \<Longrightarrow> x \<le> b \<Longrightarrow> 2 powr a \<le> 2 powr x \<and> 2 powr x \<le> 2 powr b"
  by simp

lemma tri:
  fixes a b c :: real
  assumes "\<bar>a - b\<bar> \<le> e1" "\<bar>b - c\<bar> \<le> e2" "e1 + e2 \<le> e3"
  shows "\<bar>a - c\<bar> \<le> e3"
  using assms by linarith

lemma abs_scale:
  fixes c a b :: real
  shows "\<bar>c * a - c * b\<bar> = \<bar>c\<bar> * \<bar>a - b\<bar>"
proof -
  have "c * a - c * b = c * (a - b)" by (simp add: algebra_simps)
  then show ?thesis by (simp only: abs_mult)
qed

lemma accurate_correctlyRounded: "accurate correctlyRounded"
  by (simp add: accurate_def correctlyRounded_def)

lemma dev_close:
  assumes "\<bar>d\<bar> \<le> 1 / 2 ^ 52" "\<bar>x\<bar> \<le> B" "1 / 2 ^ 1022 \<le> B" "B \<le> 2 ^ 1022"
  shows "\<exists>y. fl (x * (1 + d)) = Fin y \<and> \<bar>y - x\<bar> \<le> B / 2 ^ 51"
proof -
  have B0: "0 \<le> B" using assms(2) by linarith
  have "\<bar>x * d\<bar> \<le> B * (1 / 2 ^ 52)"
    unfolding abs_mult using assms(1,2) by (intro mult_mono) simp_all
  then have xd: "\<bar>x * d\<bar> \<le> B / 2 ^ 52" by simp
  have e: "x * (1 + d) = x + x * d" by (simp add: algebra_simps)
  have "B / 2 ^ 52 \<le> B" using B0 by (simp add: field_simps)
  with xd assms(2) have b2: "\<bar>x * (1 + d)\<bar> \<le> 2 * B" unfolding e by linarith
  have "\<exists>y. fl (x * (1 + d)) = Fin y \<and> \<bar>y - x * (1 + d)\<bar> \<le> 2 * B / 2 ^ 53"
    using b2 assms(3,4) B0 by (intro fl_close) simp_all
  then obtain y where y: "fl (x * (1 + d)) = Fin y" "\<bar>y - x * (1 + d)\<bar> \<le> 2 * B / 2 ^ 53"
    by blast
  have "2 * B / 2 ^ 53 = B / 2 ^ 52" by simp
  with y(2) xd have "\<bar>y - x\<bar> \<le> B / 2 ^ 52 + B / 2 ^ 52" unfolding e by linarith
  also have "\<dots> = B / 2 ^ 51" by simp
  finally show ?thesis using y(1) by blast
qed

lemma ln2_bounds: "1 / 2 \<le> ln (2::real)" "ln (2::real) \<le> 1"
proof -
  have "exp (1 / 2 :: real) \<le> 1 + (1 / 2) + (1 / 2)\<^sup>2"
    by (rule exp_bound) simp_all
  also have "\<dots> \<le> 2" by (simp add: power2_eq_square)
  finally have "exp (1 / 2 :: real) \<le> 2" .
  then show "1 / 2 \<le> ln (2::real)" using ln_ge_iff [of "2::real" "1 / 2"] by simp
  show "ln (2::real) \<le> 1" using ln_le_minus_one [of "2::real"] by simp
qed

lemma pow2_near_one:
  fixes e :: real
  assumes "\<bar>e\<bar> \<le> 1"
  shows "\<bar>2 powr e - 1\<bar> \<le> 2 * \<bar>e\<bar>"
proof -
  have p: "2 powr e = exp (e * ln 2)" by (simp add: powr_def)
  have lo: "1 + e * ln 2 \<le> 2 powr e" unfolding p by (rule exp_ge_add_one_self)
  have "\<bar>e * ln 2\<bar> \<le> \<bar>e\<bar> * 1"
    unfolding abs_mult using ln2_bounds by (intro mult_left_mono) simp_all
  then have el: "\<bar>e * ln 2\<bar> \<le> \<bar>e\<bar>" by simp
  show ?thesis
  proof (cases "0 \<le> e")
    case True
    then have y0: "0 \<le> e * ln 2" using ln2_bounds by simp
    moreover have y1: "e * ln 2 \<le> 1" using el assms by linarith
    ultimately have "exp (e * ln 2) \<le> 1 + e * ln 2 + (e * ln 2)\<^sup>2" by (rule exp_bound)
    moreover have "(e * ln 2)\<^sup>2 \<le> e * ln 2 * 1"
      unfolding power2_eq_square using y0 y1 by (intro mult_left_mono) simp_all
    ultimately have "2 powr e \<le> 1 + 2 * (e * ln 2)" unfolding p by linarith
    with el lo y0 True show ?thesis by linarith
  next
    case False
    then have "e * ln 2 \<le> 0" using ln2_bounds by (simp add: mult_nonpos_nonneg)
    then have "2 powr e \<le> 1" unfolding p by simp
    with lo el show ?thesis by linarith
  qed
qed

lemma pow2_perturb:
  fixes t x :: real
  assumes "\<bar>t - x\<bar> \<le> 1"
  shows "\<bar>2 powr t - 2 powr x\<bar> \<le> 2 powr x * (2 * \<bar>t - x\<bar>)"
proof -
  have "2 powr x * 2 powr (t - x) = 2 powr t"
    by (simp flip: powr_add)
  then have "2 powr t - 2 powr x = 2 powr x * (2 powr (t - x) - 1)"
    by (simp add: algebra_simps)
  then have "\<bar>2 powr t - 2 powr x\<bar> = 2 powr x * \<bar>2 powr (t - x) - 1\<bar>"
    by (simp add: abs_mult)
  also have "\<dots> \<le> 2 powr x * (2 * \<bar>t - x\<bar>)"
    using pow2_near_one [OF assms] by (intro mult_left_mono) simp_all
  finally show ?thesis .
qed

lemma ln_near_one:
  fixes t :: real
  assumes "\<bar>t\<bar> \<le> 1 / 2"
  shows "\<bar>ln (1 + t)\<bar> \<le> 2 * \<bar>t\<bar>"
proof (cases "0 \<le> t")
  case True
  then have "ln (1 + t) \<le> t" by (rule ln_add_one_self_le_self)
  moreover have "0 \<le> ln (1 + t)" using True by simp
  ultimately show ?thesis using True by linarith
next
  case False
  define s where "s = - t"
  have s: "0 \<le> s" "s \<le> 1 / 2" using False assms by (simp_all add: s_def)
  then have "- s - 2 * s\<^sup>2 \<le> ln (1 - s)" by (rule ln_one_minus_pos_lower_bound)
  moreover have "s\<^sup>2 \<le> s * (1 / 2)"
    unfolding power2_eq_square using s by (intro mult_left_mono) simp_all
  moreover have "ln (1 - s) \<le> 0" using s by simp
  ultimately have "\<bar>ln (1 - s)\<bar> \<le> 2 * s" by linarith
  then show ?thesis using False by (simp add: s_def)
qed

lemma ln_perturb:
  fixes p q :: real
  assumes "0 < p" "\<bar>q - p\<bar> \<le> p / 2"
  shows "0 < q" "\<bar>ln q - ln p\<bar> \<le> 2 * \<bar>q - p\<bar> / p"
proof -
  from assms show q: "0 < q" by linarith
  define t where "t = (q - p) / p"
  have "\<bar>t\<bar> = \<bar>q - p\<bar> / p" using assms(1) by (simp add: t_def)
  also have "\<dots> \<le> 1 / 2" using assms by (simp add: field_simps)
  finally have t: "\<bar>t\<bar> \<le> 1 / 2" .
  have "q = p * (1 + t)" using assms(1) by (simp add: t_def field_simps)
  moreover have "0 < 1 + t" using t by linarith
  ultimately have "ln q = ln p + ln (1 + t)" using assms(1) by (simp add: ln_mult)
  then have "\<bar>ln q - ln p\<bar> = \<bar>ln (1 + t)\<bar>" by simp
  also have "\<dots> \<le> 2 * \<bar>t\<bar>" using t by (rule ln_near_one)
  also have "\<dots> = 2 * \<bar>q - p\<bar> / p" using assms(1) by (simp add: t_def)
  finally show "\<bar>ln q - ln p\<bar> \<le> 2 * \<bar>q - p\<bar> / p" .
qed

lemma log2_perturb:
  fixes p q :: real
  assumes "0 < p" "\<bar>q - p\<bar> \<le> p / 2"
  shows "\<bar>log 2 q - log 2 p\<bar> \<le> 4 * \<bar>q - p\<bar> / p"
proof -
  have "log 2 q - log 2 p = (ln q - ln p) / ln 2" by (simp add: log_def diff_divide_distrib)
  then have "\<bar>log 2 q - log 2 p\<bar> = \<bar>ln q - ln p\<bar> / ln 2" by simp
  also have "\<dots> \<le> (2 * \<bar>q - p\<bar> / p) / ln 2"
    using ln_perturb(2) [OF assms] by (intro divide_right_mono) simp_all
  also have "\<dots> \<le> (2 * \<bar>q - p\<bar> / p) / (1 / 2)"
    using ln2_bounds assms(1) by (intro divide_left_mono) simp_all
  also have "\<dots> = 4 * \<bar>q - p\<bar> / p" by simp
  finally show ?thesis .
qed

lemma Math_round_near:
  fixes r :: real
  assumes "\<bar>r - of_int n\<bar> < 1 / 2"
  shows "Math_round_number (Fin r) = Fin (of_int n)"
proof -
  have "\<lfloor>r + 1 / 2\<rfloor> = n" using assms by (intro floor_unique) linarith+
  then show ?thesis by simp
qed

lemma ln10_bounds: "2 \<le> ln (10::real)" "ln (10::real) \<le> 9"
proof -
  have "exp (1::real) \<le> 1 + 1 + 1\<^sup>2" by (rule exp_bound) simp_all
  then have e1: "exp (1::real) \<le> 3" by simp
  have "exp (2::real) = exp 1 * exp 1" by (simp flip: exp_add)
  also have "\<dots> \<le> 3 * 3" using e1 by (intro mult_mono) simp_all
  finally have "exp (2::real) \<le> 10" by simp
  then show "2 \<le> ln (10::real)" using ln_ge_iff [of "10::real" 2] by simp
  show "ln (10::real) \<le> 9" using ln_le_minus_one [of "10::real"] by simp
qed

lemma exp_near_one:
  fixes x :: real
  assumes "\<bar>x\<bar> \<le> 1"
  shows "\<bar>exp x - 1\<bar> \<le> 2 * \<bar>x\<bar>"
proof (cases "0 \<le> x")
  case True
  with assms have "exp x \<le> 1 + x + x\<^sup>2" by (intro exp_bound) simp_all
  moreover have "x\<^sup>2 \<le> x * 1"
    unfolding power2_eq_square using True assms by (intro mult_left_mono) simp_all
  moreover have "1 + x \<le> exp x" by (rule exp_ge_add_one_self)
  ultimately show ?thesis using True by linarith
next
  case False
  then have "exp x \<le> 1" by simp
  moreover have "1 + x \<le> exp x" by (rule exp_ge_add_one_self)
  ultimately show ?thesis using False by linarith
qed

lemma pow10_perturb:
  fixes q l :: real
  assumes "\<bar>q - l\<bar> \<le> 1 / 9"
  shows "\<bar>10 powr q - 10 powr l\<bar> \<le> 10 powr l * (18 * \<bar>q - l\<bar>)"
proof -
  have "\<bar>(q - l) * ln 10\<bar> \<le> \<bar>q - l\<bar> * 9"
    unfolding abs_mult using ln10_bounds by (intro mult_left_mono) simp_all
  then have b: "\<bar>(q - l) * ln 10\<bar> \<le> 9 * \<bar>q - l\<bar>" by simp
  have "9 * \<bar>q - l\<bar> \<le> 1" using assms by simp
  with b have "\<bar>(q - l) * ln 10\<bar> \<le> 1" by (rule order_trans)
  then have "\<bar>exp ((q - l) * ln 10) - 1\<bar> \<le> 2 * \<bar>(q - l) * ln 10\<bar>" by (rule exp_near_one)
  also have "\<dots> \<le> 2 * (9 * \<bar>q - l\<bar>)" using b by (intro mult_left_mono) simp_all
  finally have e: "\<bar>10 powr (q - l) - 1\<bar> \<le> 18 * \<bar>q - l\<bar>" by (simp add: powr_def)
  have "10 powr l * 10 powr (q - l) = (10::real) powr q" by (simp flip: powr_add)
  then have "10 powr q - 10 powr l = 10 powr l * (10 powr (q - l) - 1)"
    by (simp add: algebra_simps)
  then have "\<bar>10 powr q - 10 powr l\<bar> = 10 powr l * \<bar>10 powr (q - l) - 1\<bar>"
    by (simp add: abs_mult)
  also have "\<dots> \<le> 10 powr l * (18 * \<bar>q - l\<bar>)" using e by (intro mult_left_mono) simp_all
  finally show ?thesis .
qed

lemma sqrt_perturb:
  fixes q s :: real
  assumes "0 \<le> q" "0 < s"
  shows "\<bar>sqrt q - s\<bar> \<le> \<bar>q - s\<^sup>2\<bar> / s"
proof -
  have "(sqrt q - s) * (sqrt q + s) = q - s\<^sup>2"
    using assms(1) by (simp add: algebra_simps power2_eq_square)
  then have "\<bar>sqrt q - s\<bar> * \<bar>sqrt q + s\<bar> = \<bar>q - s\<^sup>2\<bar>" by (simp flip: abs_mult)
  moreover have "s \<le> \<bar>sqrt q + s\<bar>" using assms by simp
  then have "\<bar>sqrt q - s\<bar> * s \<le> \<bar>sqrt q - s\<bar> * \<bar>sqrt q + s\<bar>"
    by (intro mult_left_mono) simp_all
  ultimately have "\<bar>sqrt q - s\<bar> * s \<le> \<bar>q - s\<^sup>2\<bar>" by simp
  then show ?thesis using assms(2) by (simp add: field_simps)
qed


section \<open>Properties of the envelope scheduler\<close>

lemma issue_cases:
  "(rejects p i \<and> issue i p = Inl (i, p)) \<or>
   (\<not> rejects p i \<and> issue i p = Inr (p\<lparr>timeline := timeline p @ [i]\<rparr>))"
  by (simp add: issue_def)

lemma scheduleEnvelopeAttack_run:
  fixes p :: AudioParam and start peak sustain attackTime decayTime now :: number
  defines "cs \<equiv> attackSequence start peak sustain attackTime decayTime now"
  defines "r \<equiv> scheduleEnvelopeAttack p start peak sustain attackTime decayTime now"
  shows "\<exists>k \<le> 4. issued p r = take k cs \<and> (returned r \<longleftrightarrow> k = 4) \<and>
           (returned r \<longleftrightarrow> (\<forall>i \<in> set cs. \<not> rejects p i))"
proof -
  let ?c1 = "CancelScheduledValues now"
  let ?c2 = "SetValueAtTime start now"
  let ?c3 = "LinearRampToValueAtTime peak (num_add now attackTime)"
  let ?c4 = "LinearRampToValueAtTime sustain (num_add (num_add now attackTime) decayTime)"
  have cs: "cs = [?c1, ?c2, ?c3, ?c4]" by (simp add: cs_def attackSequence_def)
  consider (a) "rejects p ?c1"
    | (b) "\<not> rejects p ?c1" "rejects p ?c2"
    | (c) "\<not> rejects p ?c1" "\<not> rejects p ?c2" "rejects p ?c3"
    | (d) "\<not> rejects p ?c1" "\<not> rejects p ?c2" "\<not> rejects p ?c3" "rejects p ?c4"
    | (e) "\<not> rejects p ?c1" "\<not> rejects p ?c2" "\<not> rejects p ?c3" "\<not> rejects p ?c4"
    by blast
  then show ?thesis
  proof cases
    case a
    then have "issued p r = take 0 cs \<and> \<not> returned r"
      by (simp add: r_def scheduleEnvelopeAttack_def cancelScheduledValues_def
          issue_def andThen_def issued_def returned_def)
    with a show ?thesis unfolding cs by (intro exI [of _ 0]) simp
  next
    case b
    then have "issued p r = take 1 cs \<and> \<not> returned r"
      by (simp add: r_def scheduleEnvelopeAttack_def cancelScheduledValues_def
          setValueAtTime_def issue_def andThen_def issued_def returned_def cs)
    with b show ?thesis unfolding cs by (intro exI [of _ 1]) simp
  next
    case c
    then have "issued p r = take 2 cs \<and> \<not> returned r"
      by (simp add: r_def scheduleEnvelopeAttack_def cancelScheduledValues_def
          setValueAtTime_def linearRampToValueAtTime_def issue_def andThen_def
          issued_def returned_def cs)
    with c show ?thesis unfolding cs by (intro exI [of _ 2]) simp
  next
    case d
    then have "issued p r = take 3 cs \<and> \<not> returned r"
      by (simp add: r_def scheduleEnvelopeAttack_def cancelScheduledValues_def
          setValueAtTime_def linearRampToValueAtTime_def issue_def andThen_def
          issued_def returned_def cs)
    with d show ?thesis unfolding cs by (intro exI [of _ 3]) simp
  next
    case e
    then have "issued p r = take 4 cs \<and> returned r"
      by (simp add: r_def scheduleEnvelopeAttack_def cancelScheduledValues_def
          setValueAtTime_def linearRampToValueAtTime_def issue_def andThen_def
          issued_def returned_def cs)
    with e show ?thesis unfolding cs by (intro exI [of _ 4]) simp
  qed
qed

lemma scheduleEnvelopeRelease_run:
  fixes p :: AudioParam and "from" to releaseTime now :: number
  defines "cs \<equiv> releaseSequence from to releaseTime now"
  defines "r \<equiv> scheduleEnvelopeRelease p from to releaseTime now"
  shows "\<exists>k \<le> 3. issued p r = take k cs \<and> (returned r \<longleftrightarrow> k = 3) \<and>
           (returned r \<longleftrightarrow> (\<forall>i \<in> set cs. \<not> rejects p i))"
proof -
  let ?c1 = "CancelScheduledValues now"
  let ?c2 = "SetValueAtTime from now"
  let ?c3 = "LinearRampToValueAtTime to (num_add now releaseTime)"
  have cs: "cs = [?c1, ?c2, ?c3]" by (simp add: cs_def releaseSequence_def)
  consider (a) "rejects p ?c1"
    | (b) "\<not> rejects p ?c1" "rejects p ?c2"
    | (c) "\<not> rejects p ?c1" "\<not> rejects p ?c2" "rejects p ?c3"
    | (d) "\<not> rejects p ?c1" "\<not> rejects p ?c2" "\<not> rejects p ?c3"
    by blast
  then show ?thesis
  proof cases
    case a
    then have "issued p r = take 0 cs \<and> \<not> returned r"
      by (simp add: r_def scheduleEnvelopeRelease_def cancelScheduledValues_def
          issue_def andThen_def issued_def returned_def)
    with a show ?thesis unfolding cs by (intro exI [of _ 0]) simp
  next
    case b
    then have "issued p r = take 1 cs \<and> \<not> returned r"
      by (simp add: r_def scheduleEnvelopeRelease_def cancelScheduledValues_def
          setValueAtTime_def issue_def andThen_def issued_def returned_def cs)
    with b show ?thesis unfolding cs by (intro exI [of _ 1]) simp
  next
    case c
    then have "issued p r = take 2 cs \<and> \<not> returned r"
      by (simp add: r_def scheduleEnvelopeRelease_def cancelScheduledValues_def
          setValueAtTime_def linearRampToValueAtTime_def issue_def andThen_def
          issued_def returned_def cs)
    with c show ?thesis unfolding cs by (intro exI [of _ 2]) simp
  next
    case d
    then have "issued p r = take 3 cs \<and> returned r"
      by (simp add: r_def scheduleEnvelopeRelease_def cancelScheduledValues_def
          setValueAtTime_def linearRampToValueAtTime_def issue_def andThen_def
          issued_def returned_def cs)
    with d show ?thesis unfolding cs by (intro exI [of _ 3]) simp
  qed
qed

text \<open>
  Claim C4. Whatever the handle and the six (respectively four) numbers, the
  instructions \<open>scheduleEnvelopeAttack\<close> puts on the handle are an initial segment of
  cancel at \<open>now\<close>, pin \<open>start\<close> at \<open>now\<close>, ramp to \<open>peak\<close> at \<open>now + attackTime\<close>, ramp to
  \<open>sustain\<close> at \<open>now + attackTime + decayTime\<close>, in this order; the segment is the whole
  sequence exactly when the call returns, which it does exactly when the host rejects
  none of the four. The same holds for \<open>scheduleEnvelopeRelease\<close> and cancel, pin
  \<open>from\<close>, ramp to \<open>to\<close> at \<open>now + releaseTime\<close>.
\<close>

theorem envelope_instruction_order:
  "(\<exists>k \<le> 4.
      issued p (scheduleEnvelopeAttack p start peak sustain attackTime decayTime now)
        = take k (attackSequence start peak sustain attackTime decayTime now) \<and>
      (returned (scheduleEnvelopeAttack p start peak sustain attackTime decayTime now)
         \<longleftrightarrow> k = 4) \<and>
      (returned (scheduleEnvelopeAttack p start peak sustain attackTime decayTime now)
         \<longleftrightarrow> (\<forall>i \<in> set (attackSequence start peak sustain attackTime decayTime now).
                \<not> rejects p i))) \<and>
   (\<exists>k \<le> 3.
      issued p (scheduleEnvelopeRelease p from to releaseTime now)
        = take k (releaseSequence from to releaseTime now) \<and>
      (returned (scheduleEnvelopeRelease p from to releaseTime now) \<longleftrightarrow> k = 3) \<and>
      (returned (scheduleEnvelopeRelease p from to releaseTime now)
         \<longleftrightarrow> (\<forall>i \<in> set (releaseSequence from to releaseTime now). \<not> rejects p i)))"
  using scheduleEnvelopeAttack_run [of p start peak sustain attackTime decayTime now]
    scheduleEnvelopeRelease_run [of p "from" to releaseTime now]
  by blast

theorem envelope_instruction_order_witness:
  "issued \<lparr>timeline = [], rejects = (\<lambda>i. False)\<rparr>
     (scheduleEnvelopeAttack \<lparr>timeline = [], rejects = (\<lambda>i. False)\<rparr>
        (Fin 0) (Fin 1) (Fin (1/2)) (Fin (1/8)) (Fin (1/4)) (Fin 3))
     = [CancelScheduledValues (Fin 3), SetValueAtTime (Fin 0) (Fin 3),
        LinearRampToValueAtTime (Fin 1) (Fin (25/8)),
        LinearRampToValueAtTime (Fin (1/2)) (Fin (27/8))] \<and>
   issued \<lparr>timeline = [], rejects = (\<lambda>i. False)\<rparr>
     (scheduleEnvelopeRelease \<lparr>timeline = [], rejects = (\<lambda>i. False)\<rparr>
        (Fin (1/2)) (Fin 0) (Fin (1/4)) (Fin 3))
     = [CancelScheduledValues (Fin 3), SetValueAtTime (Fin (1/2)) (Fin 3),
        LinearRampToValueAtTime (Fin 0) (Fin (13/4))]"
proof -
  have a: "fl (25 / 8) = Fin (25 / 8)" "fl (27 / 8) = Fin (27 / 8)"
    using fl_dyadic [of 25 "- 3"] fl_dyadic [of 27 "- 3"] by (simp_all add: powr_minus_divide)
  have b: "fl (13 / 4) = Fin (13 / 4)"
    using fl_dyadic [of 13 "- 2"] by (simp add: powr_minus_divide)
  from envelope_instruction_order [of "\<lparr>timeline = [], rejects = (\<lambda>i. False)\<rparr>"
      "Fin 0" "Fin 1" "Fin (1/2)" "Fin (1/8)" "Fin (1/4)" "Fin 3" "Fin (1/2)" "Fin 0" "Fin (1/4)"]
  show ?thesis
    by (auto simp: attackSequence_def releaseSequence_def a b)
qed

section \<open>Properties of the node pool\<close>

lemma reuseScan_None: "reuseScan t now ns = None \<longleftrightarrow> list_all (\<lambda>(n, m). \<not> (type m = t \<and> \<not> isActive m)) ns"
  by (induction ns) (auto split: option.splits if_splits)

lemma reuseScan_key: "reuseScan t now ns = Some (h, ns') \<Longrightarrow> h \<in> fst ` set ns"
  by (induction ns arbitrary: ns') (auto split: if_splits option.splits)

lemma reuseScan_keys: "reuseScan t now ns = Some (h, ns') \<Longrightarrow> map fst ns' = map fst ns"
  by (induction ns arbitrary: ns') (auto split: if_splits option.splits)

lemma hit_release_hit:
  "distinct (map fst ns) \<Longrightarrow> reuseScan t t1 ns = Some (h, ns1) \<Longrightarrow>
   \<exists>m ns3. map_of ns1 h = Some m \<and>
     reuseScan t t3 (AList.update h (m\<lparr>isActive := False, lastUsed := t2\<rparr>) ns1) = Some (h, ns3)"
proof (induction ns arbitrary: ns1)
  case Nil
  then show ?case by simp
next
  case (Cons e ns)
  obtain n m0 where e: "e = (n, m0)" by (cases e)
  show ?case
  proof (cases "type m0 = t \<and> \<not> isActive m0")
    case True
    with Cons.prems e show ?thesis by auto
  next
    case False
    with Cons.prems e obtain rest1 where r: "reuseScan t t1 ns = Some (h, rest1)"
      and ns1: "ns1 = (n, m0) # rest1"
      by (auto split: option.splits)
    from reuseScan_key [OF r] Cons.prems(1) e have hn: "h \<noteq> n" by auto
    from Cons.IH [OF _ r] Cons.prems(1) obtain m ns3 where
      "map_of rest1 h = Some m"
      "reuseScan t t3 (AList.update h (m\<lparr>isActive := False, lastUsed := t2\<rparr>) rest1) = Some (h, ns3)"
      by auto
    with hn False ns1 show ?thesis by auto
  qed
qed

lemma miss_release_hit:
  "reuseScan t t1 ns = None \<Longrightarrow>
   \<exists>m ns3. map_of (AList.update h \<lparr>node = h, type = t, createdAt = c, lastUsed = l, isActive = True\<rparr> ns) h = Some m \<and>
     reuseScan t t3 (AList.update h (m\<lparr>isActive := False, lastUsed := t2\<rparr>)
        (AList.update h \<lparr>node = h, type = t, createdAt = c, lastUsed = l, isActive = True\<rparr> ns)) = Some (h, ns3)"
proof (induction ns)
  case Nil
  then show ?case by simp
next
  case (Cons e ns)
  obtain n m0 where e: "e = (n, m0)" by (cases e)
  from Cons.prems e have idle: "\<not> (type m0 = t \<and> \<not> isActive m0)" and r: "reuseScan t t1 ns = None"
    by (auto split: if_splits option.splits)
  show ?case
  proof (cases "n = h")
    case True
    with e show ?thesis by simp
  next
    case False
    from Cons.IH [OF r] obtain m ns3 where
      "map_of (AList.update h \<lparr>node = h, type = t, createdAt = c, lastUsed = l, isActive = True\<rparr> ns) h = Some m"
      "reuseScan t t3 (AList.update h (m\<lparr>isActive := False, lastUsed := t2\<rparr>)
        (AList.update h \<lparr>node = h, type = t, createdAt = c, lastUsed = l, isActive = True\<rparr> ns)) = Some (h, ns3)"
      by auto
    with False idle e show ?thesis by auto
  qed
qed

lemma update_fresh: "k \<notin> fst ` set al \<Longrightarrow> AList.update k v al = al @ [(k, v)]"
  by (induction al) auto

lemma fresh_not_tracked:
  "poolInv ctx pool \<Longrightarrow> map_of (nodes pool) (nextNode ctx) = None"
proof -
  assume "poolInv ctx pool"
  then have "\<forall>k \<in> set (map fst (nodes pool)). k < nextNode ctx"
    by (simp add: poolInv_def list_all_iff)
  then have "nextNode ctx \<notin> fst ` set (nodes pool)" by auto
  then show ?thesis by (simp add: map_of_eq_None_iff)
qed

text \<open>
  The pool state kept by the operations: it holds for a pool just initialised and
  each operation hands it on.
\<close>

lemma poolInv_keys:
  "poolInv ctx pool \<longleftrightarrow>
     distinct (map fst (nodes pool)) \<and> (\<forall>k \<in> set (map fst (nodes pool)). k < nextNode ctx)"
  by (simp add: poolInv_def list_all_iff)

lemma poolInv_initialize:
  "initializeNodePool cfg None = Some pool \<Longrightarrow> poolInv ctx pool"
  by (auto simp: initializeNodePool_def poolInv_def)

lemma poolInv_getPooledNode:
  assumes "poolInv ctx pool" and "getPooledNode t ctx now (Some pool) = (n, ctx', g')"
  shows "\<exists>pool'. g' = Some pool' \<and> poolInv ctx' pool'"
proof -
  from assms(1) have d: "distinct (map fst (nodes pool))"
    and b: "\<forall>k \<in> set (map fst (nodes pool)). k < nextNode ctx"
    by (simp_all add: poolInv_keys)
  from b have b': "\<forall>k \<in> set (map fst (nodes pool)). k < Suc (nextNode ctx)"
    by (simp add: less_SucI)
  from b have notin: "nextNode ctx \<notin> set (map fst (nodes pool))" by auto
  show ?thesis
  proof (cases "enablePooling (config pool)")
    case False
    with assms(2) d b' show ?thesis
      by (auto simp: getPooledNode_def createNewNode_def poolInv_keys simp del: set_map)
  next
    case True
    show ?thesis
    proof (cases "reuseScan t now (nodes pool)")
      case (Some r)
      obtain h ns1 where r: "r = (h, ns1)" by (cases r)
      from reuseScan_keys [of t now "nodes pool" h ns1] Some r assms True show ?thesis
        by (auto simp: getPooledNode_def poolInv_def)
    next
      case None
      show ?thesis
      proof (cases "int (length (nodes pool)) < maxPoolSize (config pool)")
        case lt: True
        with None True assms(2) notin d b' show ?thesis
          by (auto simp: getPooledNode_def createNewNode_def poolInv_keys update_keys
              simp del: set_map)
      next
        case ge: False
        with None True assms(2) d b' show ?thesis
          by (auto simp: getPooledNode_def createNewNode_def poolInv_keys simp del: set_map)
      qed
    qed
  qed
qed

lemma poolInv_disposeNode:
  "poolInv ctx pool \<Longrightarrow> disposeNode n (Some pool) = Some pool' \<Longrightarrow> poolInv ctx pool'"
  by (auto simp: disposeNode_def poolInv_keys delete_keys distinct_removeAll
      simp del: set_map split: option.splits)

lemma poolInv_releaseNode:
  assumes "poolInv ctx pool" and "releaseNode n now (Some pool) = Some pool'"
  shows "poolInv ctx pool'"
proof (cases "enablePooling (config pool) \<and> map_of (nodes pool) n \<noteq> None")
  case True
  then obtain m where m: "map_of (nodes pool) n = Some m" by auto
  then have "n \<in> set (map fst (nodes pool))"
    by (metis map_of_eq_None_iff option.distinct(1) set_map)
  with assms True m show ?thesis
    by (auto simp: releaseNode_def poolInv_keys update_keys simp del: set_map)
next
  case False
  with assms(2) have "disposeNode n (Some pool) = Some pool'"
    by (auto simp: releaseNode_def split: if_splits option.splits)
  with assms(1) show ?thesis by (rule poolInv_disposeNode)
qed

text \<open>
  Claim C3. Take a pool with pooling enabled (in a state the pool operations keep) that
  has room for one more node or holds an idle node of the requested type. Then the handle
  \<open>getPooledNode\<close> returns is tracked by the pool; releasing it changes no counter; and
  the next \<open>getPooledNode\<close> for the same node type returns the same handle, counts one
  more in \<open>reused\<close> and in \<open>poolHits\<close>, and leaves \<open>created\<close> as it was. This holds for
  every node type, \<open>Gain\<close> among them.
\<close>

theorem acquire_release_acquire:
  assumes inv: "poolInv ctx pool" and en: "enablePooling (config pool)"
    and room: "int (length (nodes pool)) < maxPoolSize (config pool) \<or> \<not> noIdle t pool"
    and first: "getPooledNode t ctx t1 (Some pool) = (h, ctx1, g1)"
    and again: "getPooledNode t ctx1 t3 (releaseNode h t2 g1) = (h', ctx2, g3)"
  shows "isNodeInPool h g1 \<and> h' = h \<and>
         (\<exists>p1 p2 p3. g1 = Some p1 \<and> releaseNode h t2 g1 = Some p2 \<and> g3 = Some p3 \<and>
            stats p2 = stats p1 \<and>
            reused (stats p3) = reused (stats p2) + 1 \<and>
            poolHits (stats p3) = poolHits (stats p2) + 1 \<and>
            created (stats p3) = created (stats p2))"
proof -
  have "\<exists>p1 m ns3. g1 = Some p1 \<and> enablePooling (config p1) \<and> map_of (nodes p1) h = Some m \<and>
          reuseScan t t3 (AList.update h (m\<lparr>isActive := False, lastUsed := t2\<rparr>) (nodes p1))
            = Some (h, ns3)"
  proof (cases "reuseScan t t1 (nodes pool)")
    case (Some r)
    obtain n ns1 where r: "r = (n, ns1)" by (cases r)
    from first en Some r have h: "h = n" and g1: "g1 = Some (pool\<lparr>nodes := ns1,
         stats := (stats pool)\<lparr>poolHits := poolHits (stats pool) + 1,
                               reused := reused (stats pool) + 1\<rparr>\<rparr>)"
      by (auto simp: getPooledNode_def)
    from inv have d: "distinct (map fst (nodes pool))" by (simp add: poolInv_def)
    from hit_release_hit [OF d, of t t1 h ns1 t3 t2] Some r h g1 en show ?thesis by auto
  next
    case None
    then have "noIdle t pool" by (simp add: reuseScan_None noIdle_def)
    with room have True: "int (length (nodes pool)) < maxPoolSize (config pool)" by simp
    with first en None have h: "h = nextNode ctx"
      and g1: "g1 = Some (pool\<lparr>nodes := AList.update h
                 \<lparr>node = h, type = t, createdAt = t1, lastUsed = t1, isActive = True\<rparr> (nodes pool),
               stats := (stats pool)\<lparr>poolMisses := poolMisses (stats pool) + 1,
                                     created := created (stats pool) + 1\<rparr>\<rparr>)"
      by (auto simp: getPooledNode_def createNewNode_def Let_def)
    from miss_release_hit [OF None, of h t1 t1 t3 t2] g1 en show ?thesis by auto
  qed
  then obtain p1 m ns3 where g1: "g1 = Some p1" and en1: "enablePooling (config p1)"
    and m: "map_of (nodes p1) h = Some m"
    and scan: "reuseScan t t3 (AList.update h (m\<lparr>isActive := False, lastUsed := t2\<rparr>) (nodes p1))
            = Some (h, ns3)"
    by blast
  let ?p2 = "p1\<lparr>nodes := AList.update h (m\<lparr>isActive := False, lastUsed := t2\<rparr>) (nodes p1)\<rparr>"
  have rel: "releaseNode h t2 g1 = Some ?p2"
    using g1 en1 m by (simp add: releaseNode_def)
  have tracked: "isNodeInPool h g1" using g1 m by (simp add: isNodeInPool_def)
  from again rel en1 scan have "h' = h \<and>
         (\<exists>p3. g3 = Some p3 \<and>
            reused (stats p3) = reused (stats ?p2) + 1 \<and>
            poolHits (stats p3) = poolHits (stats ?p2) + 1 \<and>
            created (stats p3) = created (stats ?p2))"
    by (auto simp: getPooledNode_def)
  with tracked g1 rel show ?thesis by auto
qed

text \<open>
  On a pool just initialised: the first gain node is created, tracked and counted; after
  its release the second request returns it again and counts a reuse and a hit.
\<close>

theorem acquire_release_acquire_witness:
  "getPooledNode Gain \<lparr>nextNode = 0\<rparr> 10 (initializeNodePool noOverrides None)
     = (0, \<lparr>nextNode = 1\<rparr>,
        Some \<lparr>nodes = [(0, \<lparr>node = 0, type = Gain, createdAt = 10, lastUsed = 10,
                             isActive = True\<rparr>)],
              config = DEFAULT_POOL_CONFIG,
              stats = \<lparr>created = 1, reused = 0, disposed = 0, poolHits = 0,
                       poolMisses = 1\<rparr>\<rparr>) \<and>
   isNodeInPool 0 (snd (snd (getPooledNode Gain \<lparr>nextNode = 0\<rparr> 10
      (initializeNodePool noOverrides None)))) \<and>
   fst (getPooledNode Gain \<lparr>nextNode = 1\<rparr> 30
     (releaseNode 0 20
        (snd (snd (getPooledNode Gain \<lparr>nextNode = 0\<rparr> 10
           (initializeNodePool noOverrides None)))))) = 0 \<and>
   getPoolStats (snd (snd (getPooledNode Gain \<lparr>nextNode = 1\<rparr> 30
     (releaseNode 0 20
        (snd (snd (getPooledNode Gain \<lparr>nextNode = 0\<rparr> 10
           (initializeNodePool noOverrides None))))))))
     = Some \<lparr>created = 1, reused = 1, disposed = 0, poolHits = 1, poolMisses = 1\<rparr>"
proof -
  let ?pool0 = "\<lparr>nodes = [], config = DEFAULT_POOL_CONFIG,
      stats = \<lparr>created = 0, reused = 0, disposed = 0, poolHits = 0, poolMisses = 0\<rparr>\<rparr>"
  let ?s1 = "\<lparr>created = 1, reused = 0, disposed = 0, poolHits = 0, poolMisses = 1\<rparr>"
  let ?g1 = "Some \<lparr>nodes = [(0, \<lparr>node = 0, type = Gain, createdAt = 10, lastUsed = 10,
                                   isActive = True\<rparr>)],
      config = DEFAULT_POOL_CONFIG, stats = ?s1\<rparr>"
  have init: "initializeNodePool noOverrides None = Some ?pool0"
    by (simp add: initializeNodePool_def noOverrides_def mergeConfig_def DEFAULT_POOL_CONFIG_def)
  have inv: "poolInv \<lparr>nextNode = 0\<rparr> ?pool0" by (simp add: poolInv_def)
  have en: "enablePooling (config ?pool0)" by (simp add: DEFAULT_POOL_CONFIG_def)
  have room: "int (length (nodes ?pool0)) < maxPoolSize (config ?pool0) \<or> \<not> noIdle Gain ?pool0"
    by (simp add: DEFAULT_POOL_CONFIG_def)
  have first: "getPooledNode Gain \<lparr>nextNode = 0\<rparr> 10 (Some ?pool0) = (0, \<lparr>nextNode = 1\<rparr>, ?g1)"
    by (simp add: getPooledNode_def createNewNode_def DEFAULT_POOL_CONFIG_def)
  obtain h2 c2 g3 where again:
    "getPooledNode Gain \<lparr>nextNode = 1\<rparr> 30 (releaseNode 0 20 ?g1) = (h2, c2, g3)"
    by (metis prod_cases3)
  from acquire_release_acquire [OF inv en room first again]
  obtain p2 p3 where tr: "isNodeInPool 0 ?g1" and h2: "h2 = 0"
    and p2: "releaseNode 0 20 ?g1 = Some p2" and p3: "g3 = Some p3"
    and st: "stats p2 = ?s1" "reused (stats p3) = reused (stats p2) + 1"
      "poolHits (stats p3) = poolHits (stats p2) + 1" "created (stats p3) = created (stats p2)"
    by auto
  have rest: "disposed (stats p3) = 0 \<and> poolMisses (stats p3) = 1"
    using again p3 by (auto simp: getPooledNode_def releaseNode_def createNewNode_def
        DEFAULT_POOL_CONFIG_def Let_def split: if_splits option.splits)
  from st rest have "stats p3 = \<lparr>created = 1, reused = 1, disposed = 0, poolHits = 1,
      poolMisses = 1\<rparr>"
    by (cases "stats p3") simp
  with init first again tr h2 p3 show ?thesis by (simp add: getPoolStats_def)
qed

text \<open>
  Claim C8, as the code has it. A call of \<open>getPooledNode\<close> that finds no idle node of the
  requested type returns a node the context has just created and counts one more in
  \<open>poolMisses\<close>. If the number of tracked nodes is below \<open>maxPoolSize\<close>, the node is
  appended to the tracked nodes as active and \<open>created\<close> counts one more; otherwise the
  tracked nodes and \<open>created\<close> stay as they were and the node is returned untracked.
\<close>

theorem pool_miss_bookkeeping:
  assumes inv: "poolInv ctx pool" and en: "enablePooling (config pool)" and idle: "noIdle t pool"
  shows "\<exists>pool'.
     getPooledNode t ctx now (Some pool)
       = (nextNode ctx, ctx\<lparr>nextNode := Suc (nextNode ctx)\<rparr>, Some pool') \<and>
     \<not> isNodeInPool (nextNode ctx) (Some pool) \<and>
     poolMisses (stats pool') = poolMisses (stats pool) + 1 \<and>
     reused (stats pool') = reused (stats pool) \<and>
     poolHits (stats pool') = poolHits (stats pool) \<and>
     disposed (stats pool') = disposed (stats pool) \<and>
     config pool' = config pool \<and>
     (if int (length (nodes pool)) < maxPoolSize (config pool)
      then map_of (nodes pool') (nextNode ctx)
             = Some \<lparr>node = nextNode ctx, type = t, createdAt = now, lastUsed = now,
                      isActive = True\<rparr> \<and>
           nodes pool' = nodes pool @ [(nextNode ctx, \<lparr>node = nextNode ctx, type = t, createdAt = now, lastUsed = now,
                      isActive = True\<rparr>)] \<and>
           isNodeInPool (nextNode ctx) (Some pool') \<and>
           created (stats pool') = created (stats pool) + 1
      else nodes pool' = nodes pool \<and>
           \<not> isNodeInPool (nextNode ctx) (Some pool') \<and>
           created (stats pool') = created (stats pool))"
proof -
  from idle have scan: "reuseScan t now (nodes pool) = None"
    by (simp add: reuseScan_None noIdle_def)
  note fresh = fresh_not_tracked [OF inv]
  then have notin: "nextNode ctx \<notin> fst ` set (nodes pool)"
    by (simp add: map_of_eq_None_iff)
  show ?thesis
  proof (cases "int (length (nodes pool)) < maxPoolSize (config pool)")
    case True
    with en scan fresh notin show ?thesis
      by (simp add: getPooledNode_def createNewNode_def isNodeInPool_def update_fresh map_add_def)
  next
    case False
    with en scan fresh show ?thesis
      by (simp add: getPooledNode_def createNewNode_def isNodeInPool_def)
  qed
qed

theorem pool_miss_bookkeeping_witness:
  "fst (getPooledNode Gain \<lparr>nextNode = 0\<rparr> 10 (initializeNodePool noOverrides None)) = 0 \<and>
   isNodeInPool 0 (snd (snd (getPooledNode Gain \<lparr>nextNode = 0\<rparr> 10
      (initializeNodePool noOverrides None))))"
proof -
  let ?pool0 = "\<lparr>nodes = [], config = DEFAULT_POOL_CONFIG,
      stats = \<lparr>created = 0, reused = 0, disposed = 0, poolHits = 0, poolMisses = 0\<rparr>\<rparr>"
  let ?ctx0 = "\<lparr>nextNode = 0\<rparr>"
  have init: "initializeNodePool noOverrides None = Some ?pool0"
    by (simp add: initializeNodePool_def noOverrides_def mergeConfig_def DEFAULT_POOL_CONFIG_def)
  have inv: "poolInv ?ctx0 ?pool0" by (simp add: poolInv_def)
  have en: "enablePooling (config ?pool0)" by (simp add: DEFAULT_POOL_CONFIG_def)
  have idle: "noIdle Gain ?pool0" by (simp add: noIdle_def)
  from pool_miss_bookkeeping [OF inv en idle, of 10] init show ?thesis
    by (auto simp: DEFAULT_POOL_CONFIG_def)
qed

text \<open>
  The claim as it was stated fails where the pool is full. With the default
  configuration, thirty-two gain nodes are acquired and kept: \<open>created\<close> and
  \<open>poolMisses\<close> are both 32. The next acquisition finds no idle node, returns a new
  node, and counts it in \<open>poolMisses\<close> but not in \<open>created\<close>.
\<close>

theorem pool_miss_created_counterexample:
  "getPoolStats (snd (snd (createNodeBatch Gain \<lparr>nextNode = 0\<rparr> 32 7
      (initializeNodePool noOverrides None))))
     = Some \<lparr>created = 32, reused = 0, disposed = 0, poolHits = 0, poolMisses = 32\<rparr> \<and>
   fst (getPooledNode Gain \<lparr>nextNode = 32\<rparr> 8
      (snd (snd (createNodeBatch Gain \<lparr>nextNode = 0\<rparr> 32 7
         (initializeNodePool noOverrides None))))) = 32 \<and>
   getPoolStats (snd (snd (getPooledNode Gain \<lparr>nextNode = 32\<rparr> 8
      (snd (snd (createNodeBatch Gain \<lparr>nextNode = 0\<rparr> 32 7
         (initializeNodePool noOverrides None)))))))
     = Some \<lparr>created = 32, reused = 0, disposed = 0, poolHits = 0, poolMisses = 33\<rparr>"
  by code_simp

section \<open>Properties of the unit conversions and curves\<close>

lemma Math_round_int [simp]: "Math_round (of_int n) = of_int n"
  by (simp add: Math_round_def)














lemma pitch_inv: "valueToPitchBend (pitchBendToValue (of_int b)) = of_int b"
proof -
  have "((of_int b - 8192) / 8192 * 2 / 2 + 1) * 8192 = (of_int b :: real)" by (simp add: field_simps)
  then show ?thesis
    by (simp add: valueToPitchBend_def pitchBendToValue_def Let_def del: of_int_diff)
qed

lemma semi_inv: "semitonesToPitchBend (pitchBendToSemitones (of_int b)) = of_int b"
proof -
  have "((of_int b - 16383/2) / (16383/2) * 2 / 2 + 1) * (16383/2) = (of_int b :: real)" by (simp add: field_simps)
  then show ?thesis
    by (simp add: semitonesToPitchBend_def pitchBendToSemitones_def Let_def SIGNAL_CONSTANTS_CENTER_PITCH_BEND_def)
qed

text \<open>
  Claim C6 fails as stated: \<open>pitchBendToValue\<close> centres the range on 8192, so the
  largest bend value 16383 falls short of two semitones.
\<close>

theorem pitchBendToValue_max_counterexample: "pitchBendToValue 16383 \<noteq> 2"
  by (simp add: pitchBendToValue_def)

text \<open>
  Claim C6, as the code has it. \<open>pitchBendToValue\<close> maps a bend \<open>b\<close> to
  \<open>2 (b - 8192) / 8192\<close>: bend 0 gives \<open>-2\<close>, bend 8192 gives 0, bend 16383 gives
  \<open>2 - 1/4096\<close>. \<open>valueToPitchBend\<close> takes the image of every integer bend back to
  that bend.
\<close>

theorem pitchBend_centre_8192:
  "pitchBendToValue b = 2 * (b - 8192) / 8192 \<and>
   pitchBendToValue 0 = - 2 \<and>
   pitchBendToValue 8192 = 0 \<and>
   pitchBendToValue 16383 = 2 - 1 / 4096 \<and>
   valueToPitchBend (pitchBendToValue (real_of_int n)) = real_of_int n"
  using pitch_inv [of n] by (simp add: pitchBendToValue_def)

text \<open>
  The sibling pair of the signal utilities is the one centred on 8191.5: it reaches
  both ends of the range and is inverted on the integer bends as well.
\<close>

lemma pitchBendToSemitones_centre:
  "pitchBendToSemitones b = 2 * (b - 8191.5) / 8191.5 \<and>
   pitchBendToSemitones 0 = - 2 \<and> pitchBendToSemitones 16383 = 2 \<and>
   semitonesToPitchBend (pitchBendToSemitones (real_of_int n)) = real_of_int n"
  using semi_inv [of n]
  by (simp add: pitchBendToSemitones_def SIGNAL_CONSTANTS_CENTER_PITCH_BEND_def)

lemma unscale:
  assumes wc: "wellConditioned lo hi"
    and d: "fl (hi - lo) = Fin d"
    and y: "\<bar>y\<bar> \<le> 2 * \<bar>hi - lo\<bar>"
  shows "\<exists>q. num_div (num_sub (num_add (Fin lo) (Fin y)) (Fin lo)) (Fin d) = Fin q \<and>
             \<bar>q - y / (hi - lo)\<bar> \<le> 1 / 2 ^ 18 \<and> (y = 0 \<longrightarrow> q = 0)"
proof -
  define D where "D = \<bar>hi - lo\<bar>"
  define T where "T = y / (hi - lo)"
  from wc have dbl: "fl lo = Fin lo" and Dlo: "1 / 2 ^ 500 \<le> D" and Dhi: "D \<le> 2 ^ 500"
    and cond: "\<bar>lo\<bar> \<le> 2 ^ 30 * D"
    by (simp_all add: wellConditioned_def D_def)
  have D0: "0 < D" using Dlo by (smt (verit) divide_pos_pos zero_less_power zero_less_one)
  have ne: "hi - lo \<noteq> 0" using D0 by (simp add: D_def)
  have yT: "y = T * (hi - lo)" using ne by (simp add: T_def)
  have Tb: "\<bar>T\<bar> \<le> 2" using y D0 by (simp add: T_def D_def field_simps)
  have "\<bar>hi - lo\<bar> \<le> 1 * D" by (simp add: D_def)
  from fl_scaled [OF this _ _ Dlo Dhi] d have dD: "\<bar>d - (hi - lo)\<bar> \<le> D / 2 ^ 53" by simp
  have "D / 2 ^ 53 \<le> D / 2" using D0 by (simp add: field_simps)
  with dD have "\<bar>d - (hi - lo)\<bar> \<le> D / 2" by linarith
  moreover have "\<bar>hi - lo\<bar> = D" by (simp add: D_def)
  ultimately have dlow: "D / 2 \<le> \<bar>d\<bar>" by linarith
  with D0 have d0: "d \<noteq> 0" by auto
  have "\<bar>lo + y\<bar> \<le> 2 ^ 31 * D" using cond y by (simp add: D_def)
  from fl_scaled [OF this _ _ Dlo Dhi] obtain v where
    v: "fl (lo + y) = Fin v" "\<bar>v - (lo + y)\<bar> \<le> 2 ^ 31 * D / 2 ^ 53" by auto
  have "(2::real) ^ 31 * D / 2 ^ 53 = D / 2 ^ 22" by simp
  with v(2) have ev: "\<bar>v - (lo + y)\<bar> \<le> D / 2 ^ 22" by simp
  have "D / 2 ^ 22 \<le> D" using D0 by (simp add: field_simps)
  with ev have "\<bar>v - (lo + y)\<bar> \<le> D" by linarith
  moreover have "\<bar>y\<bar> \<le> 2 * D" using y by (simp add: D_def)
  ultimately have "\<bar>v - lo\<bar> \<le> 4 * D" by linarith
  from fl_scaled [OF this _ _ Dlo Dhi] obtain a where
    a: "fl (v - lo) = Fin a" "\<bar>a - (v - lo)\<bar> \<le> 4 * D / 2 ^ 53" by auto
  have "D / 2 ^ 22 + 4 * D / 2 ^ 53 \<le> D / 2 ^ 21" using D0 by (simp add: field_simps)
  with ev a(2) have ea: "\<bar>a - y\<bar> \<le> D / 2 ^ 21" by linarith
  have "a - T * d = (a - y) + T * ((hi - lo) - d)" by (simp add: yT algebra_simps)
  moreover have "\<bar>(hi - lo) - d\<bar> \<le> D / 2 ^ 53" using dD by (simp add: abs_minus_commute)
  then have "\<bar>T * ((hi - lo) - d)\<bar> \<le> 2 * (D / 2 ^ 53)"
    unfolding abs_mult using Tb by (intro mult_mono) simp_all
  moreover have "D / 2 ^ 21 + 2 * (D / 2 ^ 53) \<le> D / 2 ^ 20" using D0 by (simp add: field_simps)
  ultimately have num: "\<bar>a - T * d\<bar> \<le> D / 2 ^ 20" using ea by linarith
  have "a / d - T = (a - T * d) / d" using d0 by (simp add: field_simps)
  then have "\<bar>a / d - T\<bar> = \<bar>a - T * d\<bar> / \<bar>d\<bar>" by simp
  also have "\<dots> \<le> (D / 2 ^ 20) / (D / 2)"
    using num dlow D0 by (intro frac_le) simp_all
  also have "\<dots> = 1 / 2 ^ 19" using D0 by simp
  finally have er: "\<bar>a / d - T\<bar> \<le> 1 / 2 ^ 19" .
  have "(1::real) / 2 ^ 19 \<le> 1" by simp
  with er Tb have "\<bar>a / d\<bar> \<le> 4" by linarith
  from fl_bounded [OF this] obtain q where
    q: "fl (a / d) = Fin q" "\<bar>q - a / d\<bar> \<le> 4 / 2 ^ 53" by auto
  from q(2) er have eq: "\<bar>q - T\<bar> \<le> 1 / 2 ^ 18" by (rule tri) simp
  have run: "num_div (num_sub (num_add (Fin lo) (Fin y)) (Fin lo)) (Fin d) = Fin q"
    using d0 by (simp add: num_sub_def v(1) a(1) q(1))
  have zero: "q = 0" if "y = 0"
  proof -
    from that v(1) dbl have "v = lo" by simp
    with a(1) have "a = 0" by simp
    with q(1) show ?thesis by simp
  qed
  from run eq zero show ?thesis unfolding T_def by blast
qed

lemma width:
  assumes wc: "wellConditioned lo hi"
  shows "\<exists>d. num_sub (Fin hi) (Fin lo) = Fin d \<and> fl (hi - lo) = Fin d"
proof -
  from wc have "1 / 2 ^ 500 \<le> \<bar>hi - lo\<bar>" "\<bar>hi - lo\<bar> \<le> 2 ^ 500"
    by (simp_all add: wellConditioned_def)
  moreover have "\<bar>hi - lo\<bar> \<le> 1 * \<bar>hi - lo\<bar>" by simp
  ultimately obtain d where "fl (hi - lo) = Fin d"
    using fl_scaled [of "hi - lo" 1 "\<bar>hi - lo\<bar>"] by auto
  then show ?thesis by (simp add: num_sub_def)
qed

lemma normalize:
  assumes "0 \<le> x" "x \<le> 127"
  shows "\<exists>n. num_div (Fin x) (Fin 127) = Fin n \<and> \<bar>n - x / 127\<bar> \<le> 1 / 2 ^ 53 \<and> 0 \<le> n \<and>
             (x = 0 \<longrightarrow> n = 0)"
proof -
  have "\<bar>x / 127\<bar> \<le> 1" using assms by simp
  from fl_bounded [OF this] obtain n where
    n: "fl (x / 127) = Fin n" "\<bar>n - x / 127\<bar> \<le> 1 / 2 ^ 53" by auto
  from fl_Fin_bound(1) [OF n(1)] have "n = nearestDouble (x / 127)" .
  then have "0 \<le> n" "x = 0 \<longrightarrow> n = 0" using assms(1) by (simp_all add: nd_nonneg)
  with n show ?thesis by simp
qed

lemma scale:
  assumes wc: "wellConditioned lo hi" and d: "fl (hi - lo) = Fin d"
    and g: "\<bar>g - t\<bar> \<le> e" "\<bar>t\<bar> \<le> 15" "e \<le> 1"
  shows "\<exists>p. num_mul (Fin d) (Fin g) = Fin p \<and>
             \<bar>p - (hi - lo) * t\<bar> \<le> \<bar>hi - lo\<bar> * (64 / 2 ^ 53 + 2 * e) \<and>
             (g = 0 \<longrightarrow> p = 0)"
proof -
  define D where "D = \<bar>hi - lo\<bar>"
  from wc have Dlo: "1 / 2 ^ 500 \<le> D" and Dhi: "D \<le> 2 ^ 500"
    by (simp_all add: wellConditioned_def D_def)
  have D0: "0 < D" using Dlo by (smt (verit) divide_pos_pos zero_less_power zero_less_one)
  have e0: "0 \<le> e" using g(1) by linarith
  have "\<bar>hi - lo\<bar> \<le> 1 * D" by (simp add: D_def)
  from fl_scaled [OF this _ _ Dlo Dhi] d have dD: "\<bar>d - (hi - lo)\<bar> \<le> D / 2 ^ 53" by simp
  have "D / 2 ^ 53 \<le> D" using D0 by (simp add: field_simps)
  moreover have "\<bar>hi - lo\<bar> = D" by (simp add: D_def)
  ultimately have db: "\<bar>d\<bar> \<le> 2 * D" using dD by linarith
  have gb: "\<bar>g\<bar> \<le> 16" using g by linarith
  have "\<bar>d * g\<bar> \<le> (2 * D) * 16" unfolding abs_mult using db gb by (intro mult_mono) simp_all
  then have "\<bar>d * g\<bar> \<le> 32 * D" by simp
  from fl_scaled [OF this _ _ Dlo Dhi] obtain p where
    p: "fl (d * g) = Fin p" "\<bar>p - d * g\<bar> \<le> 32 * D / 2 ^ 53" by auto
  have "d * g - (hi - lo) * t = d * (g - t) + t * (d - (hi - lo))" by (simp add: algebra_simps)
  moreover have "\<bar>d * (g - t)\<bar> \<le> (2 * D) * e"
    unfolding abs_mult using db g(1) by (intro mult_mono) simp_all
  moreover have "\<bar>t * (d - (hi - lo))\<bar> \<le> 15 * (D / 2 ^ 53)"
    unfolding abs_mult using g(2) dD by (intro mult_mono) simp_all
  moreover have "32 * D / 2 ^ 53 + (2 * D) * e + 15 * (D / 2 ^ 53) \<le> D * (64 / 2 ^ 53 + 2 * e)"
    using D0 by (simp add: algebra_simps)
  ultimately have "\<bar>p - (hi - lo) * t\<bar> \<le> D * (64 / 2 ^ 53 + 2 * e)" using p(2) by linarith
  moreover have "g = 0 \<longrightarrow> p = 0" using p(1) by auto
  ultimately show ?thesis using p(1) unfolding D_def by auto
qed

lemma times127:
  assumes "\<bar>k - x / 127\<bar> \<le> e" "0 \<le> x" "x \<le> 127" "e \<le> 1 / 2 ^ 9"
  shows "\<exists>r. num_mul (Fin k) (Fin 127) = Fin r \<and> \<bar>r - x\<bar> \<le> 127 * e + 256 / 2 ^ 53"
proof -
  have "k * 127 - x = 127 * (k - x / 127)" by simp
  then have "\<bar>k * 127 - x\<bar> = 127 * \<bar>k - x / 127\<bar>" by (simp only: abs_mult)
  with assms(1) have kx: "\<bar>k * 127 - x\<bar> \<le> 127 * e" by simp
  have "127 * e \<le> 127 * (1 / 2 ^ 9)" using assms(4) by (intro mult_left_mono) simp_all
  also have "\<dots> \<le> 1" by simp
  finally have "\<bar>k * 127\<bar> \<le> 256" using kx assms(2,3) by linarith
  from fl_bounded [OF this] obtain r where
    r: "fl (k * 127) = Fin r" "\<bar>r - k * 127\<bar> \<le> 256 / 2 ^ 53" by auto
  from r(2) kx have "\<bar>r - x\<bar> \<le> 127 * e + 256 / 2 ^ 53" by linarith
  with r(1) show ?thesis by simp
qed

lemma finish:
  assumes "\<bar>k - of_int c / 127\<bar> \<le> 1 / 2 ^ 9" "0 \<le> c" "c \<le> 127"
  shows "Math_round_number (num_mul (Fin k) (Fin 127)) = Fin (of_int c)"
proof -
  have "0 \<le> real_of_int c" "real_of_int c \<le> 127" using assms(2,3) by simp_all
  from times127 [OF assms(1) this] obtain r where
    r: "num_mul (Fin k) (Fin 127) = Fin r" "\<bar>r - of_int c\<bar> \<le> 127 * (1 / 2 ^ 9) + 256 / 2 ^ 53"
    by auto
  have "(127::real) * (1 / 2 ^ 9) + 256 / 2 ^ 53 < 1 / 2" by simp
  with r(2) have "\<bar>r - of_int c\<bar> < 1 / 2" by linarith
  then show ?thesis unfolding r(1) by (rule Math_round_near)
qed

lemma scaled_quotient:
  fixes y D t e :: real
  assumes "\<bar>y - D * t\<bar> \<le> \<bar>D\<bar> * e" "D \<noteq> 0"
  shows "\<bar>y / D - t\<bar> \<le> e"
proof -
  have "y / D - t = (y - D * t) / D" using assms(2) by (simp add: field_simps)
  then have "\<bar>y / D - t\<bar> = \<bar>y - D * t\<bar> / \<bar>D\<bar>" by simp
  also have "\<dots> \<le> \<bar>D\<bar> * e / \<bar>D\<bar>" using assms(1) by (intro divide_right_mono) simp_all
  also have "\<dots> = e" using assms(2) by simp
  finally show ?thesis .
qed

lemma roundtrip_linear:
  assumes wc: "wellConditioned lo hi" and x: "0 \<le> x" "x \<le> 127"
  shows "\<exists>r. \<bar>r - x\<bar> \<le> 1 / 2 ^ 9 \<and>
             valueToControl E (controlToValue E (Fin x) (Fin lo, Fin hi) Linear)
               (Fin lo, Fin hi) Linear = Math_round_number (Fin r)"
proof -
  define t where "t = x / 127"
  have tb: "\<bar>t\<bar> \<le> 1" using x by (simp add: t_def)
  from wc have ne: "hi - lo \<noteq> 0" by (auto simp: wellConditioned_def)
  from width [OF wc] obtain d where
    d: "num_sub (Fin hi) (Fin lo) = Fin d" "fl (hi - lo) = Fin d" by blast
  from normalize [OF x] obtain n where
    n: "num_div (Fin x) (Fin 127) = Fin n" "\<bar>n - t\<bar> \<le> 1 / 2 ^ 53" unfolding t_def by blast
  from scale [OF wc d(2) n(2)] tb obtain y where
    y: "num_mul (Fin d) (Fin n) = Fin y"
       "\<bar>y - (hi - lo) * t\<bar> \<le> \<bar>hi - lo\<bar> * (64 / 2 ^ 53 + 2 * (1 / 2 ^ 53))" by auto
  from scaled_quotient [OF y(2) ne] have yt: "\<bar>y / (hi - lo) - t\<bar> \<le> 66 / 2 ^ 53" by simp
  have "(66::real) / 2 ^ 53 \<le> 1" by simp
  with yt tb have "\<bar>y / (hi - lo)\<bar> \<le> 2" by linarith
  then have yb: "\<bar>y\<bar> \<le> 2 * \<bar>hi - lo\<bar>" using ne by (simp add: field_simps)
  from unscale [OF wc d(2) yb] obtain q where
    q: "num_div (num_sub (num_add (Fin lo) (Fin y)) (Fin lo)) (Fin d) = Fin q"
       "\<bar>q - y / (hi - lo)\<bar> \<le> 1 / 2 ^ 18" by blast
  from q(2) yt have qt: "\<bar>q - x / 127\<bar> \<le> 1 / 2 ^ 17" unfolding t_def by (rule tri) simp
  from times127 [OF qt x] obtain r where
    r: "num_mul (Fin q) (Fin 127) = Fin r" "\<bar>r - x\<bar> \<le> 127 * (1 / 2 ^ 17) + 256 / 2 ^ 53"
    by auto
  have "(127::real) * (1 / 2 ^ 17) + 256 / 2 ^ 53 \<le> 1 / 2 ^ 9" by simp
  with r(2) have "\<bar>r - x\<bar> \<le> 1 / 2 ^ 9" by linarith
  moreover have "valueToControl E (controlToValue E (Fin x) (Fin lo, Fin hi) Linear)
               (Fin lo, Fin hi) Linear = Math_round_number (Fin r)"
    unfolding controlToValue_def valueToControl_def Let_def prod.case curve.case
    by (simp only: n(1) d(1) y(1) q(1) r(1))
  ultimately show ?thesis by blast
qed

lemma roundtrip_exponential:
  assumes acc: "accurate E" and wc: "wellConditioned lo hi" and c: "0 \<le> c" "c \<le> 127"
  shows "valueToControl E (controlToValue E (Fin (of_int c)) (Fin lo, Fin hi) Exponential)
           (Fin lo, Fin hi) Exponential = Fin (of_int c)"
proof -
  define s where "s = real_of_int c / 127"
  define t where "t = s\<^sup>2"
  have x: "0 \<le> real_of_int c" "real_of_int c \<le> 127" using c by simp_all
  have sb: "0 \<le> s" "s \<le> 1" using x by (simp_all add: s_def)
  have tb: "0 \<le> t" "t \<le> 1" using sb by (simp_all add: t_def power_le_one)
  from wc have ne: "hi - lo \<noteq> 0" by (auto simp: wellConditioned_def)
  from width [OF wc] obtain d where
    d: "num_sub (Fin hi) (Fin lo) = Fin d" "fl (hi - lo) = Fin d" by blast
  from normalize [OF x] obtain n where
    n: "num_div (Fin (of_int c)) (Fin 127) = Fin n" "\<bar>n - s\<bar> \<le> 1 / 2 ^ 53" "0 \<le> n"
      "c = 0 \<longrightarrow> n = 0" unfolding s_def by auto
  have "\<exists>g. Math_pow E (Fin n) (Fin 2) = Fin g \<and> \<bar>g - t\<bar> \<le> 16 / 2 ^ 53 \<and> (c = 0 \<longrightarrow> g = 0)"
  proof (cases "n = 0")
    case True
    with n(2) have "\<bar>s\<bar> \<le> 1 / 2 ^ 53" by simp
    moreover have "(1::real) / 2 ^ 53 < 1 / 127" by simp
    ultimately have "real_of_int c < 1" using sb by (simp add: s_def)
    with c have "c = 0" by linarith
    then have "t = 0" by (simp add: t_def s_def)
    with True show ?thesis by simp
  next
    case False
    with n(3) have n0: "0 < n" by simp
    with n(4) have c0: "c \<noteq> 0" by auto
    have dv: "\<bar>pow_deviation E n 2\<bar> \<le> 1 / 2 ^ 52" using acc by (simp add: accurate_def)
    have "(1::real) / 2 ^ 53 \<le> 1 / 4" by simp
    with n(2) sb have nb: "n \<le> 5 / 4" by linarith
    have "n\<^sup>2 \<le> (5 / 4)\<^sup>2" using n0 nb by (intro power_mono) simp_all
    then have "\<bar>n\<^sup>2\<bar> \<le> 2" by (simp add: power2_eq_square)
    from dev_close [OF dv this] obtain g where
      g: "fl (n\<^sup>2 * (1 + pow_deviation E n 2)) = Fin g" "\<bar>g - n\<^sup>2\<bar> \<le> 2 / 2 ^ 51" by auto
    have "n\<^sup>2 - t = (n - s) * (n + s)" by (simp add: t_def power2_eq_square algebra_simps)
    moreover have "\<bar>(n - s) * (n + s)\<bar> \<le> (1 / 2 ^ 53) * 3"
      unfolding abs_mult using n(2,3) nb sb by (intro mult_mono) simp_all
    ultimately have "\<bar>n\<^sup>2 - t\<bar> \<le> 3 / 2 ^ 53" by simp
    with g(2) have "\<bar>g - t\<bar> \<le> 16 / 2 ^ 53" by (rule tri) simp
    moreover have "Math_pow E (Fin n) (Fin 2) = Fin g" using n0 g(1) by simp
    ultimately show ?thesis using c0 by simp
  qed
  then obtain g where g: "Math_pow E (Fin n) (Fin 2) = Fin g" "\<bar>g - t\<bar> \<le> 16 / 2 ^ 53"
    "c = 0 \<longrightarrow> g = 0" by blast
  from scale [OF wc d(2) g(2)] tb obtain y where
    y: "num_mul (Fin d) (Fin g) = Fin y"
       "\<bar>y - (hi - lo) * t\<bar> \<le> \<bar>hi - lo\<bar> * (64 / 2 ^ 53 + 2 * (16 / 2 ^ 53))"
       "g = 0 \<longrightarrow> y = 0" by auto
  from scaled_quotient [OF y(2) ne] have yt: "\<bar>y / (hi - lo) - t\<bar> \<le> 96 / 2 ^ 53" by simp
  have "(96::real) / 2 ^ 53 \<le> 1" by simp
  with yt tb have "\<bar>y / (hi - lo)\<bar> \<le> 2" by linarith
  then have yb: "\<bar>y\<bar> \<le> 2 * \<bar>hi - lo\<bar>" using ne by (simp add: field_simps)
  from unscale [OF wc d(2) yb] obtain q where
    q: "num_div (num_sub (num_add (Fin lo) (Fin y)) (Fin lo)) (Fin d) = Fin q"
       "\<bar>q - y / (hi - lo)\<bar> \<le> 1 / 2 ^ 18" "y = 0 \<longrightarrow> q = 0" by blast
  from q(2) yt have qt: "\<bar>q - t\<bar> \<le> 1 / 2 ^ 17" by (rule tri) simp
  have "\<exists>k. Math_sqrt E (Fin q) = Fin k \<and> \<bar>k - s\<bar> \<le> 1 / 2 ^ 9"
  proof (cases "c = 0")
    case True
    with g(3) y(3) q(3) have "q = 0" by simp
    with True show ?thesis by (simp add: s_def)
  next
    case False
    with c have "1 \<le> real_of_int c" by linarith
    then have s1: "1 / 127 \<le> s" by (simp add: s_def)
    then have s0: "0 < s" by linarith
    have "(1 / 127)\<^sup>2 \<le> s\<^sup>2" using s1 by (intro power_mono) simp_all
    then have t1: "1 / 16129 \<le> t" by (simp add: t_def power2_eq_square)
    have "(1::real) / 2 ^ 17 < 1 / 16129" by simp
    with qt t1 have q0: "0 \<le> q" by linarith
    have "\<bar>sqrt q - s\<bar> \<le> \<bar>q - s\<^sup>2\<bar> / s" using q0 s0 by (rule sqrt_perturb)
    also have "\<dots> \<le> (1 / 2 ^ 17) / (1 / 127)"
      using qt s1 s0 by (intro frac_le) (simp_all add: t_def)
    finally have rs: "\<bar>sqrt q - s\<bar> \<le> 127 / 2 ^ 17" by simp
    have "(127::real) / 2 ^ 17 \<le> 1" by simp
    with rs sb have "\<bar>sqrt q\<bar> \<le> 2" by linarith
    moreover have "\<bar>sqrt_deviation E q\<bar> \<le> 1 / 2 ^ 52" using acc by (simp add: accurate_def)
    ultimately obtain k where
      k: "fl (sqrt q * (1 + sqrt_deviation E q)) = Fin k" "\<bar>k - sqrt q\<bar> \<le> 2 / 2 ^ 51"
      using dev_close [of "sqrt_deviation E q" "sqrt q" 2] by auto
    from k(2) rs have "\<bar>k - s\<bar> \<le> 1 / 2 ^ 9" by (rule tri) simp
    moreover have "Math_sqrt E (Fin q) = Fin k" using q0 k(1) by simp
    ultimately show ?thesis by blast
  qed
  then obtain k where k: "Math_sqrt E (Fin q) = Fin k" "\<bar>k - real_of_int c / 127\<bar> \<le> 1 / 2 ^ 9"
    unfolding s_def by blast
  from finish [OF k(2) c] have "Math_round_number (num_mul (Fin k) (Fin 127)) = Fin (of_int c)" .
  then show ?thesis
    unfolding controlToValue_def valueToControl_def Let_def prod.case curve.case
    by (simp only: n(1) d(1) g(1) y(1) q(1) k(1))
qed

lemma roundtrip_logarithmic:
  assumes acc: "accurate E" and wc: "wellConditioned lo hi" and c: "0 \<le> c" "c \<le> 127"
  shows "valueToControl E (controlToValue E (Fin (of_int c)) (Fin lo, Fin hi) Logarithmic)
           (Fin lo, Fin hi) Logarithmic = Fin (of_int c)"
proof -
  define s where "s = real_of_int c / 127"
  define W where "W = 1 + s * 9"
  define l where "l = ln W / ln 10"
  have x: "0 \<le> real_of_int c" "real_of_int c \<le> 127" using c by simp_all
  have sb: "0 \<le> s" "s \<le> 1" using x by (simp_all add: s_def)
  have Wb: "1 \<le> W" "W \<le> 10" using sb by (simp_all add: W_def)
  have W0: "0 < W" using Wb by linarith
  have lnW: "0 \<le> ln W" "ln W \<le> 9"
    using Wb ln_le_minus_one [OF W0] by simp_all
  have l10: "0 < ln (10::real)" using ln10_bounds by linarith
  have "ln W \<le> ln 10" using Wb W0 by simp
  then have lb: "0 \<le> l" "l \<le> 1" using lnW l10 by (simp_all add: l_def)
  have Wl: "10 powr l = W" using W0 l10 by (simp add: powr_def l_def)
  from wc have ne: "hi - lo \<noteq> 0" by (auto simp: wellConditioned_def)
  from width [OF wc] obtain d where
    d: "num_sub (Fin hi) (Fin lo) = Fin d" "fl (hi - lo) = Fin d" by blast
  from normalize [OF x] obtain n where
    n: "num_div (Fin (of_int c)) (Fin 127) = Fin n" "\<bar>n - s\<bar> \<le> 1 / 2 ^ 53"
    unfolding s_def by auto
  have t1: "(1::real) / 2 ^ 53 \<le> 1 / 9" by simp
  with n(2) sb have "\<bar>n * 9\<bar> \<le> 16" by linarith
  from fl_bounded [OF this] obtain m where
    m: "fl (n * 9) = Fin m" "\<bar>m - n * 9\<bar> \<le> 16 / 2 ^ 53" by auto
  have "\<bar>n * 9 - s * 9\<bar> = 9 * \<bar>n - s\<bar>" using abs_scale [of 9 n s] by (simp add: mult.commute)
  with n(2) have "\<bar>n * 9 - s * 9\<bar> \<le> 9 * (1 / 2 ^ 53)" by simp
  with m(2) have ms: "\<bar>m - s * 9\<bar> \<le> 25 / 2 ^ 53" by (rule tri) simp
  have t25: "(25::real) / 2 ^ 53 \<le> 1" by simp
  with ms sb have "\<bar>1 + m\<bar> \<le> 16" by linarith
  from fl_bounded [OF this] obtain w where
    w: "fl (1 + m) = Fin w" "\<bar>w - (1 + m)\<bar> \<le> 16 / 2 ^ 53" by auto
  have sm: "num_mul (Fin n) (Fin 9) = Fin m" using m(1) by simp
  have sw: "num_add (Fin 1) (Fin m) = Fin w" using w(1) by simp
  from w(2) ms have wW: "\<bar>w - W\<bar> \<le> 41 / 2 ^ 53" unfolding W_def by linarith
  have "(41::real) / 2 ^ 53 \<le> 1 / 2" by simp
  with wW Wb have half: "\<bar>w - W\<bar> \<le> W / 2" by linarith
  from ln_perturb(1) [OF W0 half] have w0: "0 < w" .
  from ln_perturb(2) [OF W0 half] have "\<bar>ln w - ln W\<bar> \<le> 2 * \<bar>w - W\<bar> / W" .
  also have "2 * \<bar>w - W\<bar> / W \<le> 2 * (41 / 2 ^ 53) / 1"
    using wW Wb by (intro frac_le mult_left_mono) simp_all
  finally have lw: "\<bar>ln w - ln W\<bar> \<le> 82 / 2 ^ 53" by simp
  have "(82::real) / 2 ^ 53 \<le> 1" by simp
  with lw lnW have "\<bar>ln w\<bar> \<le> 16" by linarith
  moreover have "\<bar>log_deviation E w\<bar> \<le> 1 / 2 ^ 52" using acc by (simp add: accurate_def)
  ultimately obtain L where
    L: "fl (ln w * (1 + log_deviation E w)) = Fin L" "\<bar>L - ln w\<bar> \<le> 16 / 2 ^ 51"
    using dev_close [of "log_deviation E w" "ln w" 16] by auto
  have sL: "Math_log E (Fin w) = Fin L" using w0 L(1) by simp
  from L(2) lw have LW: "\<bar>L - ln W\<bar> \<le> 256 / 2 ^ 53" by (rule tri) simp
  have "\<bar>ln W\<bar> \<le> 15" using lnW by simp
  from scale [OF wc d(2) LW this] obtain p where
    p: "num_mul (Fin d) (Fin L) = Fin p"
       "\<bar>p - (hi - lo) * ln W\<bar> \<le> \<bar>hi - lo\<bar> * (64 / 2 ^ 53 + 2 * (256 / 2 ^ 53))" by auto
  have "\<bar>ln (10::real)\<bar> \<le> 16" using ln10_bounds by simp
  moreover have "\<bar>log_deviation E 10\<bar> \<le> 1 / 2 ^ 52" using acc by (simp add: accurate_def)
  ultimately obtain t where
    t: "fl (ln 10 * (1 + log_deviation E 10)) = Fin t" "\<bar>t - ln 10\<bar> \<le> 16 / 2 ^ 51"
    using dev_close [of "log_deviation E 10" "ln 10" 16] by auto
  have sT: "Math_log E (Fin 10) = Fin t" using t(1) by simp
  have "(16::real) / 2 ^ 51 \<le> 1" by simp
  with t(2) ln10_bounds have tb: "1 \<le> t" by linarith
  then have t0: "t \<noteq> 0" by linarith
  define D where "D = \<bar>hi - lo\<bar>"
  from wc have Dlo: "1 / 2 ^ 500 \<le> D" and Dhi: "D \<le> 2 ^ 500"
    by (simp_all add: wellConditioned_def D_def)
  have D0: "0 < D" using ne by (simp add: D_def)
  have ll: "l * ln 10 = ln W" using l10 by (simp add: l_def)
  have "(hi - lo) * l * t = (hi - lo) * (l * ln 10) + (hi - lo) * l * (t - ln 10)"
    by (simp add: algebra_simps)
  then have "(hi - lo) * l * t = (hi - lo) * ln W + (hi - lo) * l * (t - ln 10)"
    by (simp only: ll)
  then have "p - (hi - lo) * l * t = (p - (hi - lo) * ln W) - (hi - lo) * l * (t - ln 10)"
    by simp
  moreover have "\<bar>(hi - lo) * l * (t - ln 10)\<bar> \<le> D * 1 * (16 / 2 ^ 51)"
    unfolding abs_mult D_def using lb t(2) by (intro mult_mono) simp_all
  moreover have "D * (64 / 2 ^ 53 + 2 * (256 / 2 ^ 53)) + D * 1 * (16 / 2 ^ 51)
      = D * (640 / 2 ^ 53)" by (simp add: algebra_simps)
  ultimately have pt: "\<bar>p - (hi - lo) * l * t\<bar> \<le> D * (640 / 2 ^ 53)"
    using p(2) unfolding D_def by linarith
  have "p / t - (hi - lo) * l = (p - (hi - lo) * l * t) / t" using t0 by (simp add: field_simps)
  then have "\<bar>p / t - (hi - lo) * l\<bar> = \<bar>p - (hi - lo) * l * t\<bar> / \<bar>t\<bar>" by simp
  also have "\<dots> \<le> D * (640 / 2 ^ 53) / 1"
    using pt tb D0 by (intro frac_le) simp_all
  finally have pq: "\<bar>p / t - (hi - lo) * l\<bar> \<le> D * (640 / 2 ^ 53)" by simp
  have "\<bar>(hi - lo) * l\<bar> \<le> D * 1" unfolding abs_mult D_def using lb by (intro mult_mono) simp_all
  moreover have "D * (640 / 2 ^ 53) \<le> D * 1" using D0 by (intro mult_left_mono) simp_all
  ultimately have "\<bar>p / t\<bar> \<le> 2 * D" using pq by linarith
  from fl_scaled [OF this _ _ Dlo Dhi] obtain y where
    y: "fl (p / t) = Fin y" "\<bar>y - p / t\<bar> \<le> 2 * D / 2 ^ 53" by auto
  have sy: "num_div (Fin p) (Fin t) = Fin y" using t0 y(1) by simp
  have "2 * D / 2 ^ 53 + D * (640 / 2 ^ 53) = D * (642 / 2 ^ 53)" by (simp add: algebra_simps)
  with y(2) pq have "\<bar>y - (hi - lo) * l\<bar> \<le> D * (642 / 2 ^ 53)" by linarith
  then have "\<bar>y - (hi - lo) * l\<bar> \<le> \<bar>hi - lo\<bar> * (642 / 2 ^ 53)" by (simp add: D_def)
  from scaled_quotient [OF this ne] have yl: "\<bar>y / (hi - lo) - l\<bar> \<le> 642 / 2 ^ 53" .
  have "(642::real) / 2 ^ 53 \<le> 1" by simp
  with yl lb have "\<bar>y / (hi - lo)\<bar> \<le> 2" by linarith
  then have yb: "\<bar>y\<bar> \<le> 2 * \<bar>hi - lo\<bar>" using ne by (simp add: field_simps)
  from unscale [OF wc d(2) yb] obtain q where
    q: "num_div (num_sub (num_add (Fin lo) (Fin y)) (Fin lo)) (Fin d) = Fin q"
       "\<bar>q - y / (hi - lo)\<bar> \<le> 1 / 2 ^ 18" by blast
  from q(2) yl have ql: "\<bar>q - l\<bar> \<le> 1 / 2 ^ 17" by (rule tri) simp
  have "(1::real) / 2 ^ 17 \<le> 1 / 9" by simp
  with ql have "\<bar>q - l\<bar> \<le> 1 / 9" by linarith
  then have "\<bar>10 powr q - 10 powr l\<bar> \<le> 10 powr l * (18 * \<bar>q - l\<bar>)" by (rule pow10_perturb)
  also have "\<dots> \<le> 10 * (18 * (1 / 2 ^ 17))"
    unfolding Wl using Wb ql by (intro mult_mono) simp_all
  finally have qW: "\<bar>10 powr q - W\<bar> \<le> 180 / 2 ^ 17" by (simp add: Wl)
  have "(180::real) / 2 ^ 17 \<le> 1" by simp
  with qW Wb have pb: "\<bar>10 powr q\<bar> \<le> 16" by linarith
  have "\<exists>P. Math_pow E (Fin 10) (Fin q) = Fin P \<and> \<bar>P - 10 powr q\<bar> \<le> 16 / 2 ^ 51"
  proof (cases "q = 0")
    case True
    then show ?thesis by simp
  next
    case False
    have dv: "\<bar>pow_deviation E 10 q\<bar> \<le> 1 / 2 ^ 52" using acc by (simp add: accurate_def)
    from dev_close [OF dv pb] False show ?thesis by simp
  qed
  then obtain P where P: "Math_pow E (Fin 10) (Fin q) = Fin P" "\<bar>P - 10 powr q\<bar> \<le> 16 / 2 ^ 51"
    by blast
  from P(2) qW have PW: "\<bar>P - W\<bar> \<le> 181 / 2 ^ 17" by (rule tri) simp
  have "(181::real) / 2 ^ 17 \<le> 1" by simp
  with PW Wb have "\<bar>P - 1\<bar> \<le> 16" by linarith
  from fl_bounded [OF this] obtain h where
    h: "fl (P - 1) = Fin h" "\<bar>h - (P - 1)\<bar> \<le> 16 / 2 ^ 53" by auto
  have sh: "num_sub (Fin P) (Fin 1) = Fin h" using h(1) by (simp add: num_sub_def)
  have "(181::real) / 2 ^ 17 + 16 / 2 ^ 53 \<le> 182 / 2 ^ 17" by simp
  with h(2) PW have hW: "\<bar>h - s * 9\<bar> \<le> 182 / 2 ^ 17" unfolding W_def by linarith
  have "\<bar>h / 9 - s\<bar> = \<bar>h - s * 9\<bar> / 9" by (simp add: field_simps)
  with hW have hs: "\<bar>h / 9 - s\<bar> \<le> 182 / 2 ^ 17 / 9" by (simp add: divide_right_mono)
  have "(182::real) / 2 ^ 17 / 9 \<le> 1" by simp
  with hs sb have "\<bar>h / 9\<bar> \<le> 2" by linarith
  from fl_bounded [OF this] obtain k where
    k: "fl (h / 9) = Fin k" "\<bar>k - h / 9\<bar> \<le> 2 / 2 ^ 53" by auto
  have sk: "num_div (Fin h) (Fin 9) = Fin k" using k(1) by simp
  from k(2) hs have "\<bar>k - real_of_int c / 127\<bar> \<le> 1 / 2 ^ 9" unfolding s_def by (rule tri) simp
  from finish [OF this c] have "Math_round_number (num_mul (Fin k) (Fin 127)) = Fin (of_int c)" .
  then show ?thesis
    unfolding controlToValue_def valueToControl_def Let_def prod.case curve.case
    by (simp only: n(1) d(1) sm sw sL sT p(1) sy q(1) P(1) sh sk)
qed

lemma wellConditioned_unit: "wellConditioned 0 1"
  by (simp add: wellConditioned_def)

lemma wellConditioned_example: "wellConditioned 20 20000"
  by (simp add: wellConditioned_def fl_numeral)

text \<open>
  Claim C7 fails as stated. \<open>valueToControl\<close> rounds to a whole control value, so a
  control value that is not an integer does not come back: 0.25 on the linear curve into
  \<open>[0, 1]\<close> comes back as 0. And a whole control value does not come back either where
  the range is narrow for its place on the number line: in
  \<open>[2\<^sup>5\<^sup>3, 2\<^sup>5\<^sup>3 + 2]\<close> the doubles are two apart, and the control value 1 comes back
  as 0.
\<close>

theorem control_roundtrip_counterexample:
  "valueToControl correctlyRounded
     (controlToValue correctlyRounded (Fin (1 / 4)) (Fin 0, Fin 1) Linear) (Fin 0, Fin 1) Linear
     = Fin 0 \<and>
   valueToControl correctlyRounded
     (controlToValue correctlyRounded (Fin 1) (Fin (2 ^ 53), Fin (2 ^ 53 + 2)) Linear)
     (Fin (2 ^ 53), Fin (2 ^ 53 + 2)) Linear
     = Fin 0"
proof -
  from roundtrip_linear [OF wellConditioned_unit, of "1 / 4" correctlyRounded] obtain r where
    r: "\<bar>r - 1 / 4\<bar> \<le> 1 / 2 ^ 9"
       "valueToControl correctlyRounded
          (controlToValue correctlyRounded (Fin (1 / 4)) (Fin 0, Fin 1) Linear) (Fin 0, Fin 1)
          Linear = Math_round_number (Fin r)" by auto
  have "(1::real) / 2 ^ 9 < 1 / 4" by simp
  with r(1) have "\<bar>r\<bar> < 1 / 2" by linarith
  then have "\<bar>r - of_int 0\<bar> < 1 / 2" by simp
  then have "Math_round_number (Fin r) = Fin (of_int 0)" by (rule Math_round_near)
  with r(2) have first: "valueToControl correctlyRounded
     (controlToValue correctlyRounded (Fin (1 / 4)) (Fin 0, Fin 1) Linear) (Fin 0, Fin 1) Linear
     = Fin 0" by simp
  from normalize [of 1] obtain n where
    n: "num_div (Fin 1) (Fin 127) = Fin n" "\<bar>n - 1 / 127\<bar> \<le> 1 / 2 ^ 53" "0 \<le> n" by auto
  have d: "num_sub (Fin (2 ^ 53 + 2)) (Fin (2 ^ 53)) = Fin 2"
    by (simp add: num_sub_def fl_numeral)
  have "(1::real) / 2 ^ 53 \<le> 1 / 127" by simp
  with n(2,3) have "\<bar>2 * n\<bar> \<le> 1" by linarith
  from fl_bounded [OF this] obtain y where
    y: "fl (2 * n) = Fin y" "\<bar>y - 2 * n\<bar> \<le> 1 / 2 ^ 53" by auto
  from fl_Fin_bound(1) [OF y(1)] n(3) have y0: "0 \<le> y" by (simp add: nd_nonneg)
  have "(1::real) / 2 ^ 53 \<le> 1 / 127" by simp
  with y(2) n(2) have y1: "y < 1" by linarith
  have sy: "num_mul (Fin 2) (Fin n) = Fin y" using y(1) by simp
  have v: "num_add (Fin (2 ^ 53)) (Fin y) = Fin (2 ^ 53)"
    using fl_above_2_53 [OF y0 y1] by simp
  have a: "num_sub (Fin (2 ^ 53)) (Fin (2 ^ 53)) = Fin 0" by (simp add: num_sub_def)
  have q: "num_div (Fin 0) (Fin 2) = Fin 0" by simp
  have k: "Math_round_number (num_mul (Fin 0) (Fin 127)) = Fin 0" by simp
  have second: "valueToControl correctlyRounded
     (controlToValue correctlyRounded (Fin 1) (Fin (2 ^ 53), Fin (2 ^ 53 + 2)) Linear)
     (Fin (2 ^ 53), Fin (2 ^ 53 + 2)) Linear = Fin 0"
    unfolding controlToValue_def valueToControl_def Let_def prod.case curve.case
    by (simp only: n(1) d sy v a q k)
  from first second show ?thesis by simp
qed

text \<open>
  Claim C7, as the code has it. For every accurate engine, every whole control value
  \<open>c\<close> from 0 to 127, each of the three curves and every well-conditioned target range,
  \<open>controlToValue\<close> followed by \<open>valueToControl\<close> yields \<open>c\<close> again, exactly. On the
  linear curve a control value \<open>x\<close> in \<open>[0, 127]\<close> that need not be whole comes back as
  \<open>Math.round\<close> of a number within \<open>2\<^sup>-\<^sup>9\<close> of \<open>x\<close>: a whole number, up to a half and
  \<open>2\<^sup>-\<^sup>9\<close> away from \<open>x\<close>.
\<close>

theorem control_roundtrip:
  assumes "accurate E" and "wellConditioned lo hi" and "0 \<le> c" and "c \<le> 127"
  shows "valueToControl E (controlToValue E (Fin (of_int c)) (Fin lo, Fin hi) k) (Fin lo, Fin hi) k
           = Fin (of_int c) \<and>
         (0 \<le> x \<and> x \<le> 127 \<longrightarrow>
            (\<exists>r. \<bar>r - x\<bar> \<le> 1 / 2 ^ 9 \<and>
                 valueToControl E (controlToValue E (Fin x) (Fin lo, Fin hi) Linear)
                   (Fin lo, Fin hi) Linear = Math_round_number (Fin r)))"
proof -
  have "valueToControl E (controlToValue E (Fin (of_int c)) (Fin lo, Fin hi) k) (Fin lo, Fin hi) k
           = Fin (of_int c)"
  proof (cases k)
    case Linear
    have "0 \<le> real_of_int c" "real_of_int c \<le> 127" using assms(3,4) by simp_all
    from roundtrip_linear [OF assms(2) this, of E] obtain r where
      r: "\<bar>r - of_int c\<bar> \<le> 1 / 2 ^ 9"
         "valueToControl E (controlToValue E (Fin (of_int c)) (Fin lo, Fin hi) Linear)
            (Fin lo, Fin hi) Linear = Math_round_number (Fin r)" by auto
    have "(1::real) / 2 ^ 9 < 1 / 2" by simp
    with r(1) have "\<bar>r - of_int c\<bar> < 1 / 2" by linarith
    then have "Math_round_number (Fin r) = Fin (of_int c)" by (rule Math_round_near)
    with r(2) Linear show ?thesis by simp
  next
    case Exponential
    with roundtrip_exponential [OF assms] show ?thesis by simp
  next
    case Logarithmic
    with roundtrip_logarithmic [OF assms] show ?thesis by simp
  qed
  with roundtrip_linear [OF assms(2), of x E] show ?thesis by blast
qed

theorem control_roundtrip_witness:
  "valueToControl correctlyRounded
     (controlToValue correctlyRounded (Fin 64) (Fin 20, Fin 20000) Exponential)
     (Fin 20, Fin 20000) Exponential = Fin 64 \<and>
   (\<exists>r. \<bar>r - 13 / 2\<bar> \<le> 1 / 2 ^ 9 \<and>
        valueToControl correctlyRounded
          (controlToValue correctlyRounded (Fin (13 / 2)) (Fin 20, Fin 20000) Linear)
          (Fin 20, Fin 20000) Linear = Math_round_number (Fin r))"
  using control_roundtrip [OF accurate_correctlyRounded wellConditioned_example,
      of 64 Exponential "13 / 2"]
  by simp


section \<open>Properties of notes and frequencies\<close>

lemma Math_pow2_close:
  assumes acc: "accurate E" and t: "- 7 \<le> t" "t \<le> 6"
  shows "\<exists>p. Math_pow E (Fin 2) (Fin t) = Fin p \<and> \<bar>p - 2 powr t\<bar> \<le> 64 / 2 ^ 51"
proof (cases "t = 0")
  case True
  then show ?thesis by simp
next
  case False
  have d: "\<bar>pow_deviation E 2 t\<bar> \<le> 1 / 2 ^ 52" using acc by (simp add: accurate_def)
  have b: "\<bar>2 powr t\<bar> \<le> 64" using pow2_between [of "- 7" t 6] t by simp
  from dev_close [OF d b] False show ?thesis by simp
qed

lemma midiNoteToFrequency_close:
  assumes acc: "accurate E" and n: "0 \<le> n" "n \<le> 127"
  shows "\<exists>f. midiNoteToFrequency E (Fin (of_int n)) = Fin f \<and>
             \<bar>f - 440 * 2 powr (of_int (n - 69) / 12)\<bar> \<le> 2 ^ 19 / 2 ^ 53"
proof -
  define x where "x = real_of_int (n - 69) / 12"
  have xb: "- 6 \<le> x" "x \<le> 5" using n by (simp_all add: x_def)
  have s1: "num_sub (Fin (of_int n)) (Fin 69) = Fin (of_int (n - 69))"
    using fl_int [of "n - 69"] n by (simp add: num_sub_def)
  have "\<bar>x\<bar> \<le> 8" using xb by simp
  from fl_close [OF this] obtain t where t: "fl x = Fin t" "\<bar>t - x\<bar> \<le> 8 / 2 ^ 53"
    by auto
  have s2: "num_div (Fin (of_int (n - 69))) (Fin 12) = Fin t"
    using t(1) by (simp add: x_def)
  have small: "(8::real) / 2 ^ 53 \<le> 1" by simp
  have tb: "- 7 \<le> t" "t \<le> 6" using t(2) xb small by linarith+
  from Math_pow2_close [OF acc tb] obtain p where
    p: "Math_pow E (Fin 2) (Fin t) = Fin p" "\<bar>p - 2 powr t\<bar> \<le> 64 / 2 ^ 51" by blast
  have P: "(2::real) powr x \<le> 32" "0 < (2::real) powr x"
    using pow2_between [of "- 6" x 5] xb by simp_all
  have "\<bar>t - x\<bar> \<le> 1" using t(2) small by linarith
  then have "\<bar>2 powr t - 2 powr x\<bar> \<le> 2 powr x * (2 * \<bar>t - x\<bar>)" by (rule pow2_perturb)
  also have "\<dots> \<le> 32 * (2 * (8 / 2 ^ 53))"
    using P t(2) by (intro mult_mono) simp_all
  finally have "\<bar>2 powr t - 2 powr x\<bar> \<le> 512 / 2 ^ 53" by simp
  with p(2) have pP: "\<bar>p - 2 powr x\<bar> \<le> 768 / 2 ^ 53" by (rule tri) simp
  have "(768::real) / 2 ^ 53 \<le> 1" by simp
  with pP P have pb: "\<bar>p\<bar> \<le> 33" by linarith
  then have "\<bar>440 * p\<bar> \<le> 16384" by simp
  from fl_close [OF this] obtain f where
    f: "fl (440 * p) = Fin f" "\<bar>f - 440 * p\<bar> \<le> 16384 / 2 ^ 53" by auto
  have "\<bar>440 * p - 440 * 2 powr x\<bar> = 440 * \<bar>p - 2 powr x\<bar>"
    using abs_scale [of 440 p "2 powr x"] by simp
  with pP have "\<bar>440 * p - 440 * 2 powr x\<bar> \<le> 440 * (768 / 2 ^ 53)" by simp
  with f(2) have "\<bar>f - 440 * 2 powr x\<bar> \<le> 2 ^ 19 / 2 ^ 53" by (rule tri) simp
  moreover have "midiNoteToFrequency E (Fin (of_int n)) = Fin f"
    unfolding midiNoteToFrequency_def MIDI_A4_FREQUENCY_def MIDI_A4_MIDI_NOTE_def
    by (simp only: s1 s2 p(1) num_mul.simps f(1))
  ultimately show ?thesis unfolding x_def by blast
qed

lemma frequencyToMidiNote_near:
  assumes acc: "accurate E" and n: "0 \<le> n" "n \<le> 127"
    and f: "\<bar>f - 440 * 2 powr (of_int (n - 69) / 12)\<bar>
              \<le> 440 * 2 powr (of_int (n - 69) / 12) / 100"
  shows "frequencyToMidiNote E (Fin f) = Fin (of_int n)"
proof -
  define x where "x = real_of_int (n - 69) / 12"
  define P where "P = (2::real) powr x"
  have xb: "- 6 \<le> x" "x \<le> 5" using n by (simp_all add: x_def)
  have Pb: "1 / 64 \<le> P" "P \<le> 32"
    using pow2_between [of "- 6" x 5] xb by (simp_all add: P_def powr_minus_divide)
  have P0: "0 < P" using Pb by linarith
  from f have fP: "\<bar>f - 440 * P\<bar> \<le> 440 * P / 100" by (simp add: x_def P_def)
  have "\<bar>f / 440 - P\<bar> = \<bar>f - 440 * P\<bar> / 440" by (simp add: field_simps)
  with fP have gP: "\<bar>f / 440 - P\<bar> \<le> P / 100" by simp
  with Pb have "\<bar>f / 440\<bar> \<le> 64" by linarith
  from fl_close [OF this] obtain q where
    q: "fl (f / 440) = Fin q" "\<bar>q - f / 440\<bar> \<le> 64 / 2 ^ 53" by auto
  have s5: "num_div (Fin f) (Fin 440) = Fin q" using q(1) by simp
  from q(2) gP have qP: "\<bar>q - P\<bar> \<le> P / 100 + 64 / 2 ^ 53" by linarith
  have "(64::real) / 2 ^ 53 \<le> 1 / 64 / 4" by simp
  with qP Pb have half: "\<bar>q - P\<bar> \<le> P / 2" by linarith
  from ln_perturb(1) [OF P0 half] have q0: "0 < q" .
  have "\<bar>log 2 q - log 2 P\<bar> \<le> 4 * \<bar>q - P\<bar> / P" using P0 half by (rule log2_perturb)
  also have "\<dots> \<le> 4 * (P / 100 + 64 / 2 ^ 53) / P"
    using qP P0 by (intro divide_right_mono mult_left_mono) simp_all
  also have "\<dots> = 4 / 100 + 256 / 2 ^ 53 / P" using P0 by (simp add: field_simps)
  also have "256 / 2 ^ 53 / P \<le> 256 / 2 ^ 53 / (1 / 64)"
    using Pb P0 by (intro divide_left_mono) simp_all
  finally have "\<bar>log 2 q - log 2 P\<bar> \<le> 4 / 100 + 2 ^ 14 / 2 ^ 53" by simp
  moreover have lP: "log 2 P = x" by (simp add: P_def)
  ultimately have lq: "\<bar>log 2 q - x\<bar> \<le> 4 / 100 + 2 ^ 14 / 2 ^ 53" by simp
  have "(4::real) / 100 + 2 ^ 14 / 2 ^ 53 \<le> 1" by simp
  with lq xb have "\<bar>log 2 q\<bar> \<le> 8" by linarith
  moreover have "\<bar>log2_deviation E q\<bar> \<le> 1 / 2 ^ 52" using acc by (simp add: accurate_def)
  ultimately obtain l where
    l: "fl (log 2 q * (1 + log2_deviation E q)) = Fin l" "\<bar>l - log 2 q\<bar> \<le> 8 / 2 ^ 51"
    using dev_close [of "log2_deviation E q" "log 2 q" 8] by auto
  have s6: "Math_log2 E (Fin q) = Fin l" using q0 l(1) by simp
  from l(2) lq have lx: "\<bar>l - x\<bar> \<le> 4 / 100 + 2 ^ 15 / 2 ^ 53" by (rule tri) simp
  have "(4::real) / 100 + 2 ^ 15 / 2 ^ 53 \<le> 1" by simp
  with lx xb have "\<bar>12 * l\<bar> \<le> 128" by linarith
  from fl_close [OF this] obtain m where
    m: "fl (12 * l) = Fin m" "\<bar>m - 12 * l\<bar> \<le> 128 / 2 ^ 53" by auto
  have s7: "num_mul (Fin 12) (Fin l) = Fin m" using m(1) by simp
  have "\<bar>12 * l - 12 * x\<bar> = 12 * \<bar>l - x\<bar>"
    using abs_scale [of 12 l x] by simp
  with lx have "\<bar>12 * l - 12 * x\<bar> \<le> 12 * (4 / 100 + 2 ^ 15 / 2 ^ 53)" by simp
  with m(2) have mx: "\<bar>m - 12 * x\<bar> \<le> 48 / 100 + 2 ^ 19 / 2 ^ 53" by (rule tri) simp
  have tw: "12 * x = real_of_int n - 69" by (simp add: x_def)
  have "(48::real) / 100 + 2 ^ 19 / 2 ^ 53 \<le> 1" by simp
  moreover have "0 \<le> real_of_int n" "real_of_int n \<le> 127" using n by simp_all
  ultimately have "\<bar>m + 69\<bar> \<le> 256" using mx tw by linarith
  from fl_close [OF this] obtain r where
    r: "fl (m + 69) = Fin r" "\<bar>r - (m + 69)\<bar> \<le> 256 / 2 ^ 53" by auto
  have s8: "num_add (Fin m) (Fin 69) = Fin r" using r(1) by simp
  have "(48::real) / 100 + 2 ^ 19 / 2 ^ 53 + 256 / 2 ^ 53 < 1 / 2" by simp
  with r(2) mx tw have "\<bar>r - real_of_int n\<bar> < 1 / 2" by linarith
  then have s9: "Math_round_number (Fin r) = Fin (of_int n)" by (rule Math_round_near)
  show ?thesis
    unfolding frequencyToMidiNote_def MIDI_A4_FREQUENCY_def MIDI_A4_MIDI_NOTE_def
    by (simp only: s5 s6 s7 s8 s9)
qed

text \<open>
  Claim C2. For every accurate engine and every integer MIDI note \<open>n\<close> from 0 to 127,
  \<open>frequencyToMidiNote (midiNoteToFrequency n) = n\<close>. The frequency computed differs
  from \<open>440 \<sqdot> 2 powr ((n - 69) / 12)\<close> by the rounding of the operations, \<open>2\<^sup>-\<^sup>3\<^sup>4\<close> at
  most, and every frequency within one percent of that value is taken to \<open>n\<close>: it is the
  rounding to the nearest integer that gives the note back.
\<close>

theorem midi_note_roundtrip:
  assumes "accurate E" and "0 \<le> n" and "n \<le> 127"
  shows "frequencyToMidiNote E (midiNoteToFrequency E (Fin (of_int n))) = Fin (of_int n) \<and>
         (\<exists>f. midiNoteToFrequency E (Fin (of_int n)) = Fin f \<and>
              \<bar>f - 440 * 2 powr (of_int (n - 69) / 12)\<bar> \<le> 1 / 2 ^ 34) \<and>
         (\<bar>g - 440 * 2 powr (of_int (n - 69) / 12)\<bar>
              \<le> 440 * 2 powr (of_int (n - 69) / 12) / 100 \<longrightarrow>
            frequencyToMidiNote E (Fin g) = Fin (of_int n))"
proof -
  define F where "F = 440 * (2::real) powr (of_int (n - 69) / 12)"
  from midiNoteToFrequency_close [OF assms] obtain f where
    f: "midiNoteToFrequency E (Fin (of_int n)) = Fin f" "\<bar>f - F\<bar> \<le> 2 ^ 19 / 2 ^ 53"
    unfolding F_def by blast
  have x: "- 6 \<le> real_of_int (n - 69) / 12" using assms(2) by simp
  have "(2::real) powr (- 6) \<le> 2 powr (real_of_int (n - 69) / 12)"
    using x by (intro powr_mono) simp_all
  then have "440 / 64 \<le> F" by (simp add: F_def powr_minus_divide)
  moreover have "(2::real) ^ 19 / 2 ^ 53 \<le> 440 / 64 / 100" by simp
  ultimately have "\<bar>f - F\<bar> \<le> F / 100" using f(2) by linarith
  then have "frequencyToMidiNote E (Fin f) = Fin (of_int n)"
    unfolding F_def using frequencyToMidiNote_near [OF assms] by simp
  moreover have "\<bar>f - F\<bar> \<le> 1 / 2 ^ 34" using f(2) by simp
  ultimately show ?thesis
    using f(1) frequencyToMidiNote_near [OF assms, of g] unfolding F_def by auto
qed

theorem midi_note_roundtrip_witness:
  "frequencyToMidiNote correctlyRounded (midiNoteToFrequency correctlyRounded (Fin 60)) = Fin 60 \<and>
   frequencyToMidiNote correctlyRounded (Fin (440 * 2 powr (- 3 / 4))) = Fin 60"
  using midi_note_roundtrip [OF accurate_correctlyRounded, of 60 "440 * 2 powr (- 3 / 4)"]
  by simp

lemma Math_pow2_ge:
  assumes acc: "accurate E" and a: "a \<le> z" "- 1000 \<le> a" "a \<le> 0"
  shows "geNum (2 powr a / 4) (Math_pow E (Fin 2) (Fin z))"
proof (cases "z = 0")
  case True
  have "(2::real) powr a \<le> 2 powr 0" using a(3) by (intro powr_mono) simp_all
  then show ?thesis using True by (simp add: geNum_def)
next
  case False
  define d where "d = pow_deviation E 2 z"
  have d: "\<bar>d\<bar> \<le> 1 / 2 ^ 52" using acc by (simp add: accurate_def d_def)
  have "(1::real) / 2 ^ 52 \<le> 1 / 2" by simp
  with d have d2: "1 / 2 \<le> 1 + d" by linarith
  have az: "(2::real) powr a \<le> 2 powr z" using a(1) by simp
  have "(2::real) powr (- 1000) \<le> 2 powr a" using a(2) by (intro powr_mono) simp_all
  then have lo: "1 / 2 ^ 1000 \<le> (2::real) powr a" by (simp add: powr_minus_divide)
  have "2 powr a * (1 / 2) \<le> 2 powr z * (1 + d)"
    using az d2 by (intro mult_mono) simp_all
  then have le: "2 powr a / 2 \<le> 2 powr z * (1 + d)" by simp
  have "(1::real) / 2 ^ 1022 \<le> 1 / 2 ^ 1000 / 2" by simp
  also have "\<dots> \<le> 2 powr a / 2" using lo by (rule divide_right_mono) simp
  finally have "1 / 2 ^ 1022 \<le> 2 powr a / 2" .
  with le have "geNum (2 powr a / 2 / 2) (fl (2 powr z * (1 + d)))" by (rule fl_ge_half)
  then show ?thesis using False by (simp add: d_def)
qed

lemma Math_pow2_nonneg:
  assumes acc: "accurate E"
  shows "geNum 0 (Math_pow E (Fin 2) (Fin z))"
proof (cases "z = 0")
  case True
  then show ?thesis by (simp add: geNum_def)
next
  case False
  define d where "d = pow_deviation E 2 z"
  have d: "\<bar>d\<bar> \<le> 1 / 2 ^ 52" using acc by (simp add: accurate_def d_def)
  have "(1::real) / 2 ^ 52 \<le> 1" by simp
  with d have "0 \<le> 1 + d" by linarith
  then have "0 \<le> 2 powr z * (1 + d)" by simp
  then have "geNum 0 (fl (2 powr z * (1 + d)))" by (rule fl_nonneg)
  then show ?thesis using False by (simp add: d_def)
qed

lemma indexOf_ge: "- 1 \<le> indexOf xs x"
  by (induction xs) (auto simp: Let_def)

lemma parseInt_cases: "parseInt s = NaN \<or> geNum 0 (parseInt s)"
  using fl_nonneg [of "real (decimalValue (takeWhile isDigit s))"]
  by (simp add: parseInt_def Let_def)

lemma noteToMidiNote_cases: "noteToMidiNote note = NaN \<or> geNum 1 (noteToMidiNote note)"
proof -
  define octave where "octave = parseInt (filter isDigit note)"
  define i where "i = noteNameToMidiNote (filter (\<lambda>c. \<not> isDigit c) note)"
  have eq: "noteToMidiNote note
      = num_add (Fin (of_int i)) (num_mul (num_add octave (Fin 1)) (Fin 12))"
    by (simp add: noteToMidiNote_def Let_def octave_def i_def)
  have "- 1 \<le> i"
    unfolding i_def noteNameToMidiNote_def by (rule indexOf_ge)
  then have i: "- 1 \<le> real_of_int i" by linarith
  from parseInt_cases [of "filter isDigit note"] show ?thesis
  proof
    assume "parseInt (filter isDigit note) = NaN"
    then show ?thesis by (simp add: eq octave_def)
  next
    assume "geNum 0 (parseInt (filter isDigit note))"
    then have o: "geNum 0 octave" by (simp add: octave_def)
    have g1: "geNum (1 / 2) (num_add octave (Fin 1))"
    proof (cases octave)
      case (Fin y)
      with o have "1 \<le> y + 1" by (simp add: geNum_def)
      then have "geNum (1 / 2) (fl (y + 1))" by (rule fl_ge_half) simp
      with Fin show ?thesis by simp
    qed (use o in \<open>auto simp: geNum_def\<close>)
    have g2: "geNum 3 (num_mul (num_add octave (Fin 1)) (Fin 12))"
    proof (cases "num_add octave (Fin 1)")
      case (Fin y)
      with g1 have "6 \<le> y * 12" by (simp add: geNum_def)
      then have "geNum (6 / 2) (fl (y * 12))" by (rule fl_ge_half) simp
      with Fin show ?thesis by simp
    qed (use g1 in \<open>auto simp: geNum_def\<close>)
    show ?thesis
    proof (cases "num_mul (num_add octave (Fin 1)) (Fin 12)")
      case (Fin y)
      with g2 i have "2 \<le> real_of_int i + y" by (simp add: geNum_def)
      then have "geNum (2 / 2) (fl (real_of_int i + y))" by (rule fl_ge_half) simp
      with Fin show ?thesis by (simp add: eq)
    qed (use g2 in \<open>auto simp: geNum_def eq\<close>)
  qed
qed

lemma midiNoteToFrequency_ge:
  assumes acc: "accurate E" and m: "geNum 1 m"
  shows "geNum (1 / 2 ^ 20) (midiNoteToFrequency E m)"
proof -
  have g1: "geNum (- 136) (num_sub m (Fin 69))"
  proof (cases m)
    case (Fin y)
    with m have "- 68 \<le> y + - 69" by (simp add: geNum_def)
    then have "geNum (2 * - 68) (fl (y + - 69))" by (rule fl_ge_twice) simp_all
    with Fin show ?thesis by (simp add: num_sub_def)
  qed (use m in \<open>auto simp: geNum_def num_sub_def\<close>)
  have g2: "geNum (- 24) (num_div (num_sub m (Fin 69)) (Fin 12))"
  proof (cases "num_sub m (Fin 69)")
    case (Fin d)
    with g1 have "- 12 \<le> d / 12" by (simp add: geNum_def)
    then have "geNum (2 * - 12) (fl (d / 12))" by (rule fl_ge_twice) simp_all
    with Fin show ?thesis by simp
  qed (use g1 in \<open>auto simp: geNum_def\<close>)
  have g3: "geNum (1 / 2 ^ 26)
      (Math_pow E (Fin 2) (num_div (num_sub m (Fin 69)) (Fin 12)))"
  proof (cases "num_div (num_sub m (Fin 69)) (Fin 12)")
    case (Fin z)
    with g2 have "- 24 \<le> z" by (simp add: geNum_def)
    from Math_pow2_ge [OF acc this] have "geNum (2 powr (- 24) / 4) (Math_pow E (Fin 2) (Fin z))"
      by simp
    moreover have "(2::real) powr (- 24) / 4 = 1 / 2 ^ 26" by (simp add: powr_minus_divide)
    ultimately show ?thesis using Fin by simp
  qed (use g2 in \<open>auto simp: geNum_def\<close>)
  show ?thesis
  proof (cases "Math_pow E (Fin 2) (num_div (num_sub m (Fin 69)) (Fin 12))")
    case (Fin p)
    with g3 have "440 * (1 / 2 ^ 26) \<le> 440 * p" by (simp add: geNum_def)
    then have "geNum (440 * (1 / 2 ^ 26) / 2) (fl (440 * p))" by (rule fl_ge_half) simp
    then have "geNum (1 / 2 ^ 20) (fl (440 * p))" by (cases "fl (440 * p)") (simp_all add: geNum_def)
    with Fin show ?thesis
      by (simp add: midiNoteToFrequency_def MIDI_A4_FREQUENCY_def MIDI_A4_MIDI_NOTE_def)
  qed (use g3 in \<open>auto simp: geNum_def midiNoteToFrequency_def MIDI_A4_FREQUENCY_def
                 MIDI_A4_MIDI_NOTE_def\<close>)
qed

lemma midiNoteToFrequency_NaN: "midiNoteToFrequency E NaN = NaN"
  by (simp add: midiNoteToFrequency_def num_sub_def)

lemma noteToFrequency_cases:
  "accurate E \<Longrightarrow> noteToFrequency E note = NaN \<or> geNum (1 / 2 ^ 20) (noteToFrequency E note)"
  using noteToMidiNote_cases [of "note"] midiNoteToFrequency_ge [of E "noteToMidiNote note"]
  by (auto simp: noteToFrequency_def midiNoteToFrequency_NaN)

lemma clamp_NaN: "clamp NaN lo hi = NaN"
  by (cases hi; cases lo) (simp_all add: clamp_def)

lemma clamp_Fin:
  assumes "v \<noteq> NaN" "lo \<le> hi"
  shows "\<exists>c. clamp v (Fin lo) (Fin hi) = Fin c \<and> lo \<le> c \<and> c \<le> hi"
  using assms by (cases v) (auto simp: clamp_def)

lemma clamp_Fin_Fin: "clamp (Fin v) (Fin lo) (Fin hi) = Fin (max lo (min hi v))"
  by (simp add: clamp_def)

lemma clamp_idem:
  "lo \<le> hi \<Longrightarrow> clamp (clamp v (Fin lo) (Fin hi)) (Fin lo) (Fin hi) = clamp v (Fin lo) (Fin hi)"
  by (cases v) (auto simp: clamp_def)

lemma baseFreq_pos:
  assumes acc: "accurate E" and b: "baseFreq E note' mt = Fin b"
  shows "1 / 2 ^ 26 \<le> b" "b \<le> 2 ^ 1025"
proof -
  have "1 / 2 ^ 26 \<le> b \<and> b \<le> 2 ^ 1025"
  proof (cases "mt = NaN")
    case True
    have "num_mul (noteToFrequency E note') NaN = NaN"
      by (cases "noteToFrequency E note'") simp_all
    with True b show ?thesis by (simp add: baseFreq_def clamp_NaN)
  next
    case False
    then obtain c where c: "clamp mt (Fin (- 12)) (Fin 12) = Fin c" "- 12 \<le> c" "c \<le> 12"
      using clamp_Fin [of mt "- 12" 12] by auto
    then have "- 1 \<le> c / 12" by simp
    then have g0: "geNum (2 * - 1) (fl (c / 12))" by (rule fl_ge_twice) simp_all
    have g: "geNum (1 / 16) (Math_pow E (Fin 2) (num_div (Fin c) (Fin 12)))"
    proof (cases "fl (c / 12)")
      case (Fin z)
      with g0 have "- 2 \<le> z" by (simp add: geNum_def)
      from Math_pow2_ge [OF acc this]
      have "geNum (2 powr (- 2) / 4) (Math_pow E (Fin 2) (Fin z))" by simp
      moreover have "(2::real) powr (- 2) / 4 = 1 / 16" by (simp add: powr_minus_divide)
      ultimately show ?thesis using Fin by simp
    qed (use g0 in \<open>auto simp: geNum_def\<close>)
    from noteToFrequency_cases [OF acc, of "note'"] show ?thesis
    proof
      assume "noteToFrequency E note' = NaN"
      with b show ?thesis by (simp add: baseFreq_def)
    next
      assume nf: "geNum (1 / 2 ^ 20) (noteToFrequency E note')"
      show ?thesis
      proof (cases "noteToFrequency E note'")
        case a: (Fin a)
        with nf have a0: "1 / 2 ^ 20 \<le> a" by (simp add: geNum_def)
        show ?thesis
        proof (cases "Math_pow E (Fin 2) (num_div (Fin c) (Fin 12))")
          case p: (Fin p)
          with g have p0: "1 / 16 \<le> p" by (simp add: geNum_def)
          from b a p c(1) have fb: "fl (a * p) = Fin b" by (simp add: baseFreq_def)
          have "1 / 2 ^ 20 * (1 / 16) \<le> a * p" using a0 p0 by (intro mult_mono) simp_all
          then have "geNum (1 / 2 ^ 20 * (1 / 16) / 2) (fl (a * p))" by (rule fl_ge_half) simp
          with fb have "1 / 2 ^ 26 \<le> b" by (simp add: geNum_def)
          moreover from fl_Fin_bound(3) [OF fb] have "b \<le> 2 ^ 1025" by linarith
          ultimately show ?thesis by simp
        next
          case PosInf
          with b a c(1) a0 show ?thesis by (simp add: baseFreq_def split: if_splits)
        qed (use g in \<open>auto simp: geNum_def\<close>)
      next
        case PosInf
        show ?thesis
        proof (cases "Math_pow E (Fin 2) (num_div (Fin c) (Fin 12))")
          case p: (Fin p)
          with g have "0 < p" by (simp add: geNum_def)
          with b PosInf p c(1) show ?thesis by (simp add: baseFreq_def)
        next
          case pi: PosInf
          with b PosInf c(1) show ?thesis by (simp add: baseFreq_def)
        qed (use g in \<open>auto simp: geNum_def\<close>)
      qed (use nf in \<open>auto simp: geNum_def\<close>)
    qed
  qed
  then show "1 / 2 ^ 26 \<le> b" "b \<le> 2 ^ 1025" by simp_all
qed

lemma num_add_Fin_not_NaN: "y \<noteq> NaN \<Longrightarrow> num_add (Fin a) y \<noteq> NaN"
  by (cases y) simp_all

lemma num_div_Fin_not_NaN: "x \<noteq> NaN \<Longrightarrow> c \<noteq> 0 \<Longrightarrow> num_div x (Fin c) \<noteq> NaN"
  by (cases x) simp_all

lemma Math_pow2_geNum:
  assumes "accurate E" "x \<noteq> NaN"
  shows "geNum 0 (Math_pow E (Fin 2) x)"
  using assms Math_pow2_nonneg [of E] by (cases x) (simp_all add: geNum_def)

lemma mul_pos_nonneg:
  assumes "0 < b" "geNum 0 y"
  shows "geNum 0 (num_mul (Fin b) y)"
proof (cases y)
  case (Fin w)
  with assms have "0 \<le> b * w" by (simp add: geNum_def)
  then have "geNum 0 (fl (b * w))" by (rule fl_nonneg)
  with Fin show ?thesis by simp
qed (use assms in \<open>auto simp: geNum_def\<close>)

lemma clamp_audible:
  assumes "geNum 0 x"
  shows "\<exists>f. clamp x (Fin 20) (Fin 22050) = Fin f \<and> 20 \<le> f \<and> f \<le> 22050"
  using assms by (cases x) (auto simp: clamp_def geNum_def)

lemma bendSemis_close:
  assumes w: "0 \<le> w" "w \<le> 100"
  shows "\<exists>s3. num_mul (num_div (num_sub (Fin w) (Fin 50)) (Fin 50)) (Fin 2) = Fin s3 \<and>
              \<bar>s3 - (w - 50) / 50 * 2\<bar> \<le> 12 / 2 ^ 53"
proof -
  have "\<bar>w - 50\<bar> \<le> 64" using w by linarith
  from fl_bounded [OF this] obtain s1 where
    s1: "fl (w - 50) = Fin s1" "\<bar>s1 - (w - 50)\<bar> \<le> 64 / 2 ^ 53" by auto
  have "(64::real) / 2 ^ 53 \<le> 1" by simp
  with s1(2) w have "\<bar>s1\<bar> \<le> 51" by linarith
  then have "\<bar>s1 / 50\<bar> \<le> 2" by simp
  from fl_bounded [OF this] obtain s2 where
    s2: "fl (s1 / 50) = Fin s2" "\<bar>s2 - s1 / 50\<bar> \<le> 2 / 2 ^ 53" by auto
  have "\<bar>s1 / 50 - (w - 50) / 50\<bar> = \<bar>s1 - (w - 50)\<bar> / 50" by (simp add: field_simps)
  with s1(2) have "\<bar>s1 / 50 - (w - 50) / 50\<bar> \<le> 64 / 2 ^ 53 / 50" by (simp add: divide_right_mono)
  with s2(2) have e2: "\<bar>s2 - (w - 50) / 50\<bar> \<le> 4 / 2 ^ 53" by (rule tri) simp
  have "\<bar>(w - 50) / 50\<bar> \<le> 1" using w by simp
  moreover have "(4::real) / 2 ^ 53 \<le> 1" by simp
  ultimately have "\<bar>s2\<bar> \<le> 2" using e2 by linarith
  then have "\<bar>s2 * 2\<bar> \<le> 4" by simp
  from fl_bounded [OF this] obtain s3 where
    s3: "fl (s2 * 2) = Fin s3" "\<bar>s3 - s2 * 2\<bar> \<le> 4 / 2 ^ 53" by auto
  have "\<bar>s2 * 2 - (w - 50) / 50 * 2\<bar> = 2 * \<bar>s2 - (w - 50) / 50\<bar>"
    using abs_scale [of 2 s2 "(w - 50) / 50"] by (simp add: mult.commute)
  with e2 have "\<bar>s2 * 2 - (w - 50) / 50 * 2\<bar> \<le> 2 * (4 / 2 ^ 53)" by simp
  with s3(2) have "\<bar>s3 - (w - 50) / 50 * 2\<bar> \<le> 12 / 2 ^ 53" by (rule tri) simp
  moreover have "num_mul (num_div (num_sub (Fin w) (Fin 50)) (Fin 50)) (Fin 2) = Fin s3"
    by (simp add: num_sub_def s1(1) s2(1) s3(1))
  ultimately show ?thesis by blast
qed

lemma calculateFrequency_audible:
  assumes acc: "accurate E" and bf: "baseFreq E note' (Fin mt) = Fin b"
  shows "\<exists>f. calculateFrequency E note' (Fin mt) (Fin ds) (Fin pw) (Fin dc) = Fin f \<and>
             20 \<le> f \<and> f \<le> 22050"
proof -
  from baseFreq_pos(1) [OF acc bf] have b: "0 < b"
    by (rule less_le_trans [rotated]) simp
  define c where "c = max (- 12) (min 12 ds)"
  define w where "w = max 0 (min 100 pw)"
  have cw: "- 12 \<le> c" "c \<le> 12" "0 \<le> w" "w \<le> 100" by (simp_all add: c_def w_def)
  from bendSemis_close [OF cw(3,4)] obtain s3 where
    s3: "num_mul (num_div (num_sub (Fin w) (Fin 50)) (Fin 50)) (Fin 2) = Fin s3"
      "\<bar>s3 - (w - 50) / 50 * 2\<bar> \<le> 12 / 2 ^ 53" by blast
  have "\<bar>(w - 50) / 50 * 2\<bar> \<le> 2" using cw(3,4) by simp
  moreover have "(12::real) / 2 ^ 53 \<le> 1" by simp
  ultimately have "\<bar>c + s3\<bar> \<le> 16" using s3(2) cw(1,2) by linarith
  from fl_bounded [OF this] obtain s4 where s4: "fl (c + s3) = Fin s4" by auto
  define e where "e = num_div (num_add (Fin s4) (num_div (Fin dc) (Fin 100))) (Fin 12)"
  have "num_div (Fin dc) (Fin 100) \<noteq> NaN" by simp
  then have "num_add (Fin s4) (num_div (Fin dc) (Fin 100)) \<noteq> NaN"
    by (rule num_add_Fin_not_NaN)
  then have e: "e \<noteq> NaN" unfolding e_def by (rule num_div_Fin_not_NaN) simp
  from Math_pow2_geNum [OF acc e] have "geNum 0 (Math_pow E (Fin 2) e)" .
  with b have "geNum 0 (num_mul (Fin b) (Math_pow E (Fin 2) e))" by (rule mul_pos_nonneg)
  from clamp_audible [OF this] obtain f where
    f: "clamp (num_mul (Fin b) (Math_pow E (Fin 2) e)) (Fin 20) (Fin 22050) = Fin f"
       "20 \<le> f" "f \<le> 22050" by blast
  have "calculateFrequency E note' (Fin mt) (Fin ds) (Fin pw) (Fin dc)
          = clamp (num_mul (Fin b) (Math_pow E (Fin 2) e)) (Fin 20) (Fin 22050)"
    by (simp add: calculateFrequency_def Let_def bf clamp_Fin_Fin s3(1) s4 e_def
        flip: c_def w_def)
  with f show ?thesis by simp
qed

lemma calculateFrequency_clamps:
  "calculateFrequency E note' mt ds pw dc
     = calculateFrequency E note' (clamp mt (Fin (- 12)) (Fin 12))
         (clamp ds (Fin (- 12)) (Fin 12)) (clamp pw (Fin 0) (Fin 100)) dc"
  by (simp add: calculateFrequency_def baseFreq_def Let_def clamp_idem)

lemma clamp_contracts:
  fixes F I :: real
  assumes "20 \<le> I" "I \<le> 22050"
  shows "\<bar>max 20 (min 22050 F) - I\<bar> \<le> \<bar>F - I\<bar>"
  using assms by (simp add: max_def min_def)

lemma calculateFrequency_value:
  assumes acc: "accurate E" and bf: "baseFreq E note' (Fin mt) = Fin b"
    and s: "s = (max (- 12) (min 12 ds) + (max 0 (min 100 pw) - 50) / 50 * 2 + dc / 100) / 12"
    and ideal: "20 \<le> b * 2 powr s" "b * 2 powr s \<le> 22050"
  shows "\<exists>f. calculateFrequency E note' (Fin mt) (Fin ds) (Fin pw) (Fin dc) = Fin f \<and>
             \<bar>f - b * 2 powr s\<bar> \<le> b * 2 powr s / 2 ^ 36"
proof -
  note bb = baseFreq_pos [OF acc bf]
  have b0: "0 < b" using bb(1) by (rule less_le_trans [rotated]) simp
  define P where "P = (2::real) powr s"
  define I where "I = b * P"
  have P0: "0 < P" by (simp add: P_def)
  have I: "20 \<le> I" "I \<le> 22050" using ideal by (simp_all add: I_def P_def)
  have "b * P \<le> 2 ^ 1025 * P" using bb(2) P0 by (intro mult_right_mono) simp_all
  with I(1) have "20 \<le> 2 ^ 1025 * P" by (simp add: I_def)
  then have a1: "20 / 2 ^ 1025 \<le> P" by (simp add: field_simps)
  have "(2::real) powr (- 1021) \<le> 20 / 2 ^ 1025" by (simp add: powr_minus_divide)
  from this a1 have "(2::real) powr (- 1021) \<le> P" by (rule order_trans)
  then have slo: "- 1021 \<le> s" unfolding P_def by simp
  have "1 / 2 ^ 26 * P \<le> b * P" using bb(1) P0 by (intro mult_right_mono) simp_all
  with I(2) have "1 / 2 ^ 26 * P \<le> 22050" by (simp add: I_def)
  then have a2: "P \<le> 22050 * 2 ^ 26" by (simp add: field_simps)
  have "(22050::real) * 2 ^ 26 \<le> 2 powr 41" by simp
  with a2 have "P \<le> 2 powr 41" by (rule order_trans)
  then have shi: "s \<le> 41" unfolding P_def by (subst (asm) powr_le_cancel_iff) simp_all
  define c where "c = max (- 12) (min 12 ds)"
  define w where "w = max 0 (min 100 pw)"
  define bend where "bend = (w - 50) / 50 * 2"
  have cw: "- 12 \<le> c" "c \<le> 12" "0 \<le> w" "w \<le> 100" by (simp_all add: c_def w_def)
  have bend: "\<bar>bend\<bar> \<le> 2" using cw(3,4) by (simp add: bend_def)
  have S: "12 * s = c + bend + dc / 100" by (simp add: s c_def w_def bend_def)
  with slo shi cw(1,2) bend have dcb: "\<bar>dc / 100\<bar> \<le> 16384" by linarith
  from bendSemis_close [OF cw(3,4)] obtain s3 where
    s3: "num_mul (num_div (num_sub (Fin w) (Fin 50)) (Fin 50)) (Fin 2) = Fin s3"
      "\<bar>s3 - bend\<bar> \<le> 12 / 2 ^ 53" unfolding bend_def by blast
  have t12: "(12::real) / 2 ^ 53 \<le> 1" by simp
  with s3(2) bend cw(1,2) have "\<bar>c + s3\<bar> \<le> 16" by linarith
  from fl_bounded [OF this] obtain s4 where
    s4: "fl (c + s3) = Fin s4" "\<bar>s4 - (c + s3)\<bar> \<le> 16 / 2 ^ 53" by auto
  from s4(2) s3(2) have e4: "\<bar>s4 - (c + bend)\<bar> \<le> 28 / 2 ^ 53" by linarith
  from fl_bounded [OF dcb] obtain d1 where
    d1: "fl (dc / 100) = Fin d1" "\<bar>d1 - dc / 100\<bar> \<le> 16384 / 2 ^ 53" by auto
  have t28: "(28::real) / 2 ^ 53 \<le> 1" "(16384::real) / 2 ^ 53 \<le> 1" by simp_all
  with e4 d1(2) dcb cw(1,2) bend have "\<bar>s4 + d1\<bar> \<le> 32768" by linarith
  from fl_bounded [OF this] obtain s5 where
    s5: "fl (s4 + d1) = Fin s5" "\<bar>s5 - (s4 + d1)\<bar> \<le> 32768 / 2 ^ 53" by auto
  have "(32768::real) / 2 ^ 53 + 28 / 2 ^ 53 + 16384 / 2 ^ 53 \<le> 65536 / 2 ^ 53" by simp
  with s5(2) e4 d1(2) S have e5: "\<bar>s5 - 12 * s\<bar> \<le> 65536 / 2 ^ 53" by linarith
  have "\<bar>s5 / 12 - s\<bar> = \<bar>s5 - 12 * s\<bar> / 12" by (simp add: field_simps)
  with e5 have e5': "\<bar>s5 / 12 - s\<bar> \<le> 65536 / 2 ^ 53 / 12" by (simp add: divide_right_mono)
  have "(65536::real) / 2 ^ 53 / 12 \<le> 1" by simp
  with e5' slo shi have "\<bar>s5 / 12\<bar> \<le> 4096" by linarith
  from fl_bounded [OF this] obtain z where
    z: "fl (s5 / 12) = Fin z" "\<bar>z - s5 / 12\<bar> \<le> 4096 / 2 ^ 53" by auto
  from z(2) e5' have ez: "\<bar>z - s\<bar> \<le> 16384 / 2 ^ 53" by (rule tri) simp
  with t28(2) slo shi have zb: "- 1022 \<le> z" "z \<le> 42" by linarith+
  have expo: "num_div (num_add (num_add (Fin c) (Fin s3)) (num_div (Fin dc) (Fin 100))) (Fin 12)
      = Fin z"
    by (simp add: s4(1) d1(1) s5(1) z(1))
  have "\<bar>z - s\<bar> \<le> 1" using ez t28(2) by linarith
  then have "\<bar>2 powr z - 2 powr s\<bar> \<le> 2 powr s * (2 * \<bar>z - s\<bar>)" by (rule pow2_perturb)
  also have "\<dots> \<le> P * (2 * (16384 / 2 ^ 53))"
    unfolding P_def using ez by (intro mult_left_mono) simp_all
  finally have zP: "\<bar>2 powr z - P\<bar> \<le> P * (2 ^ 15 / 2 ^ 53)" by (simp add: P_def)
  have "P * (2 ^ 15 / 2 ^ 53) \<le> P * 1" using P0 by (intro mult_left_mono) simp_all
  with zP have z2P: "2 powr z \<le> 2 * P" by linarith
  have "\<exists>p. Math_pow E (Fin 2) (Fin z) = Fin p \<and> \<bar>p - 2 powr z\<bar> \<le> 2 powr z / 2 ^ 51"
  proof (cases "z = 0")
    case True
    then show ?thesis by simp
  next
    case False
    have d: "\<bar>pow_deviation E 2 z\<bar> \<le> 1 / 2 ^ 52" using acc by (simp add: accurate_def)
    have "(2::real) powr (- 1022) \<le> 2 powr z" using zb(1) by (intro powr_mono) simp_all
    then have lo: "1 / 2 ^ 1022 \<le> (2::real) powr z" by (simp add: powr_minus_divide)
    have "(2::real) powr z \<le> 2 powr 42" using zb(2) by (intro powr_mono) simp_all
    also have "\<dots> \<le> 2 ^ 1022" by simp
    finally have hi: "(2::real) powr z \<le> 2 ^ 1022" .
    have "\<bar>(2::real) powr z\<bar> \<le> 2 powr z" by simp
    from dev_close [OF d this lo hi] False show ?thesis by simp
  qed
  then obtain p where p: "Math_pow E (Fin 2) (Fin z) = Fin p"
    "\<bar>p - 2 powr z\<bar> \<le> 2 powr z / 2 ^ 51" by blast
  have "2 powr z / 2 ^ 51 \<le> 2 * P / 2 ^ 51" using z2P by (intro divide_right_mono) simp_all
  also have "\<dots> = P * (8 / 2 ^ 53)" by simp
  finally have "\<bar>p - 2 powr z\<bar> \<le> P * (8 / 2 ^ 53)" using p(2) by linarith
  from this zP have pP: "\<bar>p - P\<bar> \<le> P * (2 ^ 16 / 2 ^ 53)"
  proof (rule tri)
    have "P * (8 / 2 ^ 53) + P * (2 ^ 15 / 2 ^ 53) = P * ((8 + 2 ^ 15) / 2 ^ 53)"
      by (simp add: algebra_simps)
    also have "\<dots> \<le> P * (2 ^ 16 / 2 ^ 53)" using P0 by (intro mult_left_mono) simp_all
    finally show "P * (8 / 2 ^ 53) + P * (2 ^ 15 / 2 ^ 53) \<le> P * (2 ^ 16 / 2 ^ 53)" .
  qed
  have "\<bar>b * p - b * P\<bar> = b * \<bar>p - P\<bar>" using abs_scale [of b p P] b0 by simp
  also have "\<dots> \<le> b * (P * (2 ^ 16 / 2 ^ 53))" using pP b0 by (intro mult_left_mono) simp_all
  also have "\<dots> = I * (2 ^ 16 / 2 ^ 53)" by (simp add: I_def)
  finally have bp: "\<bar>b * p - I\<bar> \<le> I * (2 ^ 16 / 2 ^ 53)" by (simp add: I_def)
  have "I * (2 ^ 16 / 2 ^ 53) \<le> I * 1" using I(1) by (intro mult_left_mono) simp_all
  with bp I(1) have "\<bar>b * p\<bar> \<le> 2 * I" by linarith
  moreover have "1 \<le> 2 * I" using I(1) by linarith
  moreover have "2 * I \<le> 2 ^ 1000"
  proof -
    have "2 * I \<le> 44100" using I(2) by simp
    also have "\<dots> \<le> (2::real) ^ 1000" by simp
    finally show ?thesis .
  qed
  ultimately obtain F where F: "fl (b * p) = Fin F" "\<bar>F - b * p\<bar> \<le> 2 * I / 2 ^ 53"
    using fl_bounded [of "b * p" "2 * I"] by auto
  from F(2) bp have FI: "\<bar>F - I\<bar> \<le> I / 2 ^ 36"
  proof (rule tri)
    have "2 * I / 2 ^ 53 + I * (2 ^ 16 / 2 ^ 53) = I * ((2 + 2 ^ 16) / 2 ^ 53)"
      by (simp add: algebra_simps)
    also have "\<dots> \<le> I * (1 / 2 ^ 36)" using I(1) by (intro mult_left_mono) simp_all
    finally show "2 * I / 2 ^ 53 + I * (2 ^ 16 / 2 ^ 53) \<le> I / 2 ^ 36" by simp
  qed
  have "\<bar>max 20 (min 22050 F) - I\<bar> \<le> \<bar>F - I\<bar>" using I by (rule clamp_contracts)
  with FI have res: "\<bar>max 20 (min 22050 F) - I\<bar> \<le> I / 2 ^ 36" by linarith
  have "calculateFrequency E note' (Fin mt) (Fin ds) (Fin pw) (Fin dc)
          = Fin (max 20 (min 22050 F))"
    unfolding calculateFrequency_def Let_def bf clamp_Fin_Fin
    by (simp only: s3(1) expo p(1) num_mul.simps F(1) clamp_Fin_Fin flip: c_def w_def)
  with res show ?thesis by (simp add: I_def P_def)
qed

lemma pow2_underflow:
  assumes "z \<le> - 1075" 
  shows "Math_pow correctlyRounded (Fin 2) (Fin z) = Fin 0"
proof -
  have z0: "z \<noteq> 0" using assms by simp
  have "(2::real) powr z \<le> 2 powr (- 1075)" using assms by (intro powr_mono) simp_all
  then have "\<bar>(2::real) powr z\<bar> \<le> 2 powr (- 1075)" by simp
  then have "nearestDouble (2 powr z) = 0" by (rule nd_tiny)
  moreover have "(2::real) powr z \<le> 2 powr 0" using assms by (intro powr_mono) simp_all
  then have "(2::real) powr z \<le> 1" by simp
  moreover have "(1::real) \<le> 2 ^ 1023" by simp
  ultimately have "\<bar>(2::real) powr z\<bar> \<le> 2 ^ 1023" by simp
  then have "fl (2 powr z) = Fin (nearestDouble (2 powr z))" by (rule fl_Fin)
  with \<open>nearestDouble (2 powr z) = 0\<close> show ?thesis using z0 by (simp add: correctlyRounded_def)
qed

lemma noteToMidiNote_A1019: "noteToMidiNote ''A1019'' = Fin 12249"
  by (simp add: noteToMidiNote_def noteNameToMidiNote_def noteNames_def toUpperCase_def
      isDigit_def parseInt_def decimalValue_def digitValue_def Let_def fl_numeral)

lemma noteToMidiNote_A4: "noteToMidiNote ''A4'' = Fin 69"
  by (simp add: noteToMidiNote_def noteNameToMidiNote_def noteNames_def toUpperCase_def
      isDigit_def parseInt_def decimalValue_def digitValue_def Let_def fl_numeral)

lemma pow2_1015: "Math_pow correctlyRounded (Fin 2) (Fin 1015) = Fin (2 ^ 1015)"
proof -
  have "fl (of_int 1 * 2 powr (of_int 1015)) = Fin (of_int 1 * 2 powr (of_int 1015))"
    by (rule fl_dyadic_lt) (simp_all add: DBL_OVERFLOW_def)
  then show ?thesis by (simp add: correctlyRounded_def)
qed

lemma noteToFrequency_A1019: "noteToFrequency correctlyRounded ''A1019'' = Fin (440 * 2 ^ 1015)"
proof -
  have "fl (of_int 440 * 2 powr (of_int 1015)) = Fin (of_int 440 * 2 powr (of_int 1015))"
    by (rule fl_dyadic_lt) (simp_all add: DBL_OVERFLOW_def)
  then have m: "num_mul (Fin 440) (Fin (2 ^ 1015)) = Fin (440 * 2 ^ 1015)" by simp
  have d: "num_div (num_sub (Fin 12249) (Fin 69)) (Fin 12) = Fin 1015"
    by (simp add: num_sub_def fl_numeral)
  show ?thesis
    unfolding noteToFrequency_def noteToMidiNote_A1019 midiNoteToFrequency_def
      MIDI_A4_FREQUENCY_def MIDI_A4_MIDI_NOTE_def
    by (simp only: d pow2_1015 m)
qed

lemma pow2_zero: "Math_pow E (Fin 2) (Fin 0) = Fin 1"
  by simp

lemma pow2_one: "Math_pow correctlyRounded (Fin 2) (Fin 1) = Fin 2"
  by (simp add: correctlyRounded_def fl_numeral)

lemma noteToFrequency_A4: "noteToFrequency E ''A4'' = Fin 440"
proof -
  have d: "num_div (num_sub (Fin 69) (Fin 69)) (Fin 12) = Fin 0"
    by (simp add: num_sub_def)
  have m: "num_mul (Fin 440) (Fin 1) = Fin 440" by (simp add: fl_numeral)
  show ?thesis
    unfolding noteToFrequency_def noteToMidiNote_A4 midiNoteToFrequency_def
      MIDI_A4_FREQUENCY_def MIDI_A4_MIDI_NOTE_def
    by (simp only: d pow2_zero m)
qed

lemma baseFreq_A4: "baseFreq E ''A4'' (Fin 0) = Fin 440"
proof -
  have d: "num_div (Fin 0) (Fin 12) = Fin 0" by simp
  have m: "num_mul (Fin 440) (Fin 1) = Fin 440" by (simp add: fl_numeral)
  have c: "clamp (Fin 0) (Fin (- 12)) (Fin 12) = Fin 0" by (simp add: clamp_def)
  show ?thesis
    unfolding baseFreq_def Let_def noteToFrequency_A4 c
    by (simp only: d pow2_zero m)
qed

lemma baseFreq_A1019: "baseFreq correctlyRounded ''A1019'' (Fin 12) = PosInf"
proof -
  have c: "clamp (Fin 12) (Fin (- 12)) (Fin 12) = Fin 12" by (simp add: clamp_def)
  have d: "num_div (Fin 12) (Fin 12) = Fin 1" by (simp add: fl_one)
  have m: "num_mul (Fin (440 * 2 ^ 1015)) (Fin 2) = PosInf"
    by (simp add: fl_def DBL_OVERFLOW_def)
  show ?thesis
    unfolding baseFreq_def Let_def noteToFrequency_A1019 c
    by (simp only: d pow2_one m)
qed

text \<open>
  Claim C10 fails as stated: a finite base frequency is not enough. The note \<open>A1019\<close>
  has the finite base frequency \<open>440 \<sqdot> 2\<^sup>1\<^sup>0\<^sup>1\<^sup>5\<close>; a master tune of 12 semitones
  doubles it beyond the largest double, to infinity; a fine detune of \<open>-10\<^sup>9\<close> cents makes
  the second factor underflow to zero; and infinity times zero is NaN, which the final
  clamp hands on.
\<close>

theorem calculateFrequency_NaN_counterexample:
  "noteToFrequency correctlyRounded ''A1019'' = Fin (440 * 2 ^ 1015) \<and>
   calculateFrequency correctlyRounded ''A1019'' (Fin 12) (Fin 0) (Fin 50) (Fin (- 1000000000))
     = NaN"
proof -
  have c1: "clamp (Fin 0) (Fin (- 12)) (Fin 12) = Fin 0" by (simp add: clamp_def)
  have c2: "clamp (Fin 50) (Fin 0) (Fin 100) = Fin 50" by (simp add: clamp_def)
  have bend: "num_mul (num_div (num_sub (Fin 50) (Fin 50)) (Fin 50)) (Fin 2) = Fin 0"
    by (simp add: num_sub_def)
  have cents: "num_div (Fin (- 1000000000)) (Fin 100) = Fin (- 10000000)"
    by (simp add: fl_neg_numeral)
  have sum: "num_add (num_add (Fin 0) (Fin 0)) (Fin (- 10000000)) = Fin (- 10000000)"
    by (simp add: fl_neg_numeral)
  have "\<bar>- 10000000 / 12 :: real\<bar> \<le> 2 ^ 20" by simp
  from fl_bounded [OF this] obtain z where
    z: "fl (- 10000000 / 12) = Fin z" "\<bar>z - (- 10000000 / 12)\<bar> \<le> 2 ^ 20 / 2 ^ 53" by auto
  have "(2::real) ^ 20 / 2 ^ 53 \<le> 1" by simp
  with z(2) have "z \<le> - 1075" by linarith
  then have p: "Math_pow correctlyRounded (Fin 2) (Fin z) = Fin 0" by (rule pow2_underflow)
  have q: "num_div (Fin (- 10000000)) (Fin 12) = Fin z" using z(1) by simp
  have "calculateFrequency correctlyRounded ''A1019'' (Fin 12) (Fin 0) (Fin 50)
          (Fin (- 1000000000)) = clamp (num_mul PosInf (Fin 0)) (Fin 20) (Fin 22050)"
    unfolding calculateFrequency_def Let_def baseFreq_A1019 c1 c2
    by (simp only: bend cents sum q p)
  then have "calculateFrequency correctlyRounded ''A1019'' (Fin 12) (Fin 0) (Fin 50)
          (Fin (- 1000000000)) = NaN"
    by (simp add: clamp_def)
  with noteToFrequency_A1019 show ?thesis by simp
qed

text \<open>
  Claim C10, as the code has it. Let the engine be accurate and the master-tuned base
  frequency \<open>b = noteToFrequency note \<sqdot> 2 powr (clamp masterTune / 12)\<close> a finite number.
  Then for all real \<open>detuneSemis\<close>, \<open>pitchWheel\<close> and \<open>detuneCents\<close> the result is a
  frequency from 20 to 22050 Hz. It is \<open>b \<sqdot> 2 powr (s / 12)\<close>, where \<open>s\<close> is the semitone
  detune clamped to \<open>[-12, 12]\<close>, plus the bend \<open>(w - 50) / 50 \<sqdot> 2\<close> of the pitch wheel
  \<open>w\<close> clamped to \<open>[0, 100]\<close>, plus the fine detune in cents over 100, not clamped:
  wherever that value lies in \<open>[20, 22050]\<close>, the result differs from it by a relative
  rounding error of \<open>2\<^sup>-\<^sup>3\<^sup>6\<close> at most. The master tune enters through its clamp to
  \<open>[-12, 12]\<close>, and clamping the arguments beforehand changes nothing.
\<close>

theorem calculateFrequency_range:
  assumes "accurate E" and "baseFreq E note (Fin mt) = Fin b"
  shows "(\<exists>f. calculateFrequency E note (Fin mt) (Fin ds) (Fin pw) (Fin dc) = Fin f \<and>
              20 \<le> f \<and> f \<le> 22050 \<and>
              (20 \<le> b * 2 powr ((max (- 12) (min 12 ds) + (max 0 (min 100 pw) - 50) / 50 * 2
                                   + dc / 100) / 12) \<and>
               b * 2 powr ((max (- 12) (min 12 ds) + (max 0 (min 100 pw) - 50) / 50 * 2
                                   + dc / 100) / 12) \<le> 22050 \<longrightarrow>
               \<bar>f - b * 2 powr ((max (- 12) (min 12 ds) + (max 0 (min 100 pw) - 50) / 50 * 2
                                   + dc / 100) / 12)\<bar>
                 \<le> b * 2 powr ((max (- 12) (min 12 ds) + (max 0 (min 100 pw) - 50) / 50 * 2
                                   + dc / 100) / 12) / 2 ^ 36)) \<and>
         calculateFrequency E note tune semis wheel cents
           = calculateFrequency E note (clamp tune (Fin (- 12)) (Fin 12))
               (clamp semis (Fin (- 12)) (Fin 12))
               (clamp wheel (Fin 0) (Fin 100)) cents"
proof -
  define s where
    "s = (max (- 12) (min 12 ds) + (max 0 (min 100 pw) - 50) / 50 * 2 + dc / 100) / 12"
  from calculateFrequency_audible [OF assms, of ds pw dc] obtain f where
    f: "calculateFrequency E note (Fin mt) (Fin ds) (Fin pw) (Fin dc) = Fin f"
       "20 \<le> f" "f \<le> 22050" by blast
  have "20 \<le> b * 2 powr s \<and> b * 2 powr s \<le> 22050 \<longrightarrow>
          \<bar>f - b * 2 powr s\<bar> \<le> b * 2 powr s / 2 ^ 36"
    using calculateFrequency_value [OF assms s_def] f(1) by auto
  with f have "\<exists>f. calculateFrequency E note (Fin mt) (Fin ds) (Fin pw) (Fin dc) = Fin f \<and>
              20 \<le> f \<and> f \<le> 22050 \<and>
              (20 \<le> b * 2 powr s \<and> b * 2 powr s \<le> 22050 \<longrightarrow>
                 \<bar>f - b * 2 powr s\<bar> \<le> b * 2 powr s / 2 ^ 36)"
    by blast
  then show ?thesis
    unfolding s_def using calculateFrequency_clamps [of E "note" tune semis wheel cents]
    by blast
qed

theorem calculateFrequency_range_witness:
  "baseFreq correctlyRounded ''A4'' (Fin 0) = Fin 440 \<and>
   (\<exists>f. calculateFrequency correctlyRounded ''A4'' (Fin 0) (Fin 12) (Fin 50) (Fin 0) = Fin f \<and>
        20 \<le> f \<and> f \<le> 22050 \<and> \<bar>f - 880\<bar> \<le> 880 / 2 ^ 36)"
  using calculateFrequency_range [OF accurate_correctlyRounded baseFreq_A4,
      where ds = 12 and pw = 50 and dc = 0]
    baseFreq_A4 [of correctlyRounded]
  by simp

section \<open>Properties of query strings\<close>

lemma hexValue_hexDigits: "d < 16 \<Longrightarrow> hexValue (hexDigits ! d) = Some d"
proof -
  assume "d < 16"
  then have "d \<in> {0,1,2,3,4,5,6,7,8,9,10,11,12,13,14,15}"
    by (simp add: eval_nat_numeral less_Suc_eq)
  then show ?thesis by (auto simp: hexValue_def hexDigits_def)
qed

lemma hexDigits_plain:
  "d < 16 \<Longrightarrow> hexDigits ! d \<notin> {CHR ''+'', CHR ''&'', CHR ''='', CHR ''?''}"
proof -
  assume "d < 16"
  then have "d \<in> {0,1,2,3,4,5,6,7,8,9,10,11,12,13,14,15}"
    by (simp add: eval_nat_numeral less_Suc_eq)
  then show ?thesis by (auto simp: hexDigits_def)
qed

lemma unreserved_plain:
  "c \<in> set unreservedChars \<Longrightarrow> c \<notin> {CHR ''+'', CHR ''&'', CHR ''='', CHR ''?'', CHR ''%''}"
  by (auto simp: unreservedChars_def)

lemma percentDecode_plain: "a \<noteq> CHR ''%'' \<Longrightarrow> percentDecode (a # s) = a # percentDecode s"
  by (cases s rule: percentDecode.cases) simp_all

lemma percentDecode_hex:
  "hexValue b = Some h \<Longrightarrow> hexValue c = Some l \<Longrightarrow>
   percentDecode (CHR ''%'' # b # c # s) = char_of (16 * h + l) # percentDecode s"
  by simp

lemma byte_split: "char_of (16 * (of_char c div 16) + of_char c mod (16::nat)) = (c::char)"
  by simp

lemma decode_encode_byte:
  "percentDecode (plusToSpace (urlencodeByte c @ s)) = c # percentDecode (plusToSpace s)"
proof (cases "c \<in> set unreservedChars")
  case True
  with unreserved_plain [OF True] show ?thesis
    by (simp add: urlencodeByte_def plusToSpace_def percentDecode_plain)
next
  case False
  show ?thesis
  proof (cases "c = CHR '' ''")
    case True
    with False show ?thesis
      by (simp add: urlencodeByte_def plusToSpace_def percentDecode_plain)
  next
    case sp: False
    have "(of_char c :: nat) < 256" by simp
    then have d: "(of_char c :: nat) div 16 < 16" "(of_char c :: nat) mod 16 < 16"
      by (simp_all add: less_mult_imp_div_less)
    let ?h = "hexDigits ! (of_char c div 16)" and ?l = "hexDigits ! (of_char c mod 16)"
    from hexDigits_plain [OF d(1)] hexDigits_plain [OF d(2)]
    have "plusToSpace (urlencodeByte c @ s) = CHR ''%'' # ?h # ?l # plusToSpace s"
      using False sp by (simp add: urlencodeByte_def plusToSpace_def)
    with percentDecode_hex [OF hexValue_hexDigits [OF d(1)] hexValue_hexDigits [OF d(2)]]
    show ?thesis by (simp only: byte_split)
  qed
qed


lemma decode_encode: "percentDecode (plusToSpace (urlencode s)) = s"
proof (induction s)
  case Nil
  show ?case by (simp add: urlencode_def plusToSpace_def)
next
  case (Cons c s)
  have "urlencode (c # s) = urlencodeByte c @ urlencode s" by (simp add: urlencode_def)
  with decode_encode_byte [of c "urlencode s"] Cons show ?case by simp
qed

lemma urlencodeByte_plain:
  "set (urlencodeByte c) \<inter> {CHR ''&'', CHR ''='', CHR ''?''} = {}"
proof (cases "c \<in> set unreservedChars")
  case True
  with unreserved_plain [OF True] show ?thesis by (simp add: urlencodeByte_def)
next
  case False
  have "(of_char c :: nat) < 256" by simp
  then have d: "(of_char c :: nat) div 16 < 16" "(of_char c :: nat) mod 16 < 16"
    by (simp_all add: less_mult_imp_div_less)
  from hexDigits_plain [OF d(1)] hexDigits_plain [OF d(2)] False show ?thesis
    by (auto simp: urlencodeByte_def)
qed

lemma urlencode_plain: "set (urlencode s) \<inter> {CHR ''&'', CHR ''='', CHR ''?''} = {}"
proof (induction s)
  case Nil
  show ?case by (simp add: urlencode_def)
next
  case (Cons c s)
  have "urlencode (c # s) = urlencodeByte c @ urlencode s" by (simp add: urlencode_def)
  with urlencodeByte_plain [of c] Cons show ?case by (simp add: Int_Un_distrib2)
qed

lemma urlencode_no_amp [simp]: "CHR ''&'' \<notin> set (urlencode s)"
  and urlencode_no_eq [simp]: "CHR ''='' \<notin> set (urlencode s)"
  and urlencode_no_qm [simp]: "CHR ''?'' \<notin> set (urlencode s)"
  using urlencode_plain [of s] by auto

lemma splitOn_nonempty: "splitOn sep s \<noteq> []"
  by (induction s) (auto split: list.splits)

lemma splitOn_single: "sep \<notin> set a \<Longrightarrow> splitOn sep a = [a]"
  by (induction a) auto

lemma splitOn_append: "sep \<notin> set a \<Longrightarrow> splitOn sep (a @ sep # rest) = a # splitOn sep rest"
  by (induction a) (auto split: list.splits)

lemma segment_no_amp [simp]: "CHR ''&'' \<notin> set (segment p)"
  by (simp add: segment_def)

lemma segment_nonempty [simp]: "segment p \<noteq> []"
  by (simp add: segment_def)

lemma takeWhile_until: "x \<notin> set a \<Longrightarrow> takeWhile (\<lambda>c. c \<noteq> x) (a @ x # b) = a"
  by (induction a) auto

lemma dropWhile_until: "x \<notin> set a \<Longrightarrow> dropWhile (\<lambda>c. c \<noteq> x) (a @ x # b) = x # b"
  by (induction a) auto

lemma parsePair_segment: "parsePair (segment p) = p"
  by (simp add: parsePair_def segment_def decode_encode takeWhile_until dropWhile_until)

lemma toString_segments:
  "URLSearchParams_toString (p # ps) =
     (if ps = [] then segment p else segment p @ CHR ''&'' # URLSearchParams_toString ps)"
  by (cases p; cases ps) (simp_all add: segment_def)

lemma split_toString:
  "ps \<noteq> [] \<Longrightarrow> splitOn CHR ''&'' (URLSearchParams_toString ps) = map segment ps"
proof (induction ps)
  case Nil
  then show ?case by simp
next
  case (Cons p ps)
  show ?case
  proof (cases "ps = []")
    case True
    then show ?thesis by (simp add: toString_segments splitOn_single)
  next
    case False
    with Cons.IH show ?thesis by (simp add: toString_segments splitOn_append)
  qed
qed

lemma toString_head: "ps \<noteq> [] \<Longrightarrow> \<exists>c r. URLSearchParams_toString ps = c # r \<and> c \<noteq> CHR ''?''"
proof (cases ps)
  case Nil
  assume "ps \<noteq> []" with Nil show ?thesis by simp
next
  case (Cons p ps')
  obtain c r where cr: "segment p = c # r" by (cases "segment p") simp_all
  have "c \<in> set (segment p)" by (simp add: cr)
  then have "c \<noteq> CHR ''?''" by (auto simp: segment_def)
  with cr Cons show ?thesis by (simp add: toString_segments)
qed

lemma toString_empty_iff: "URLSearchParams_toString ps = [] \<longleftrightarrow> ps = []"
  using toString_head [of ps] by (cases ps) auto

lemma parse_toString: "URLSearchParams_new (URLSearchParams_toString ps) = ps"
proof (cases "ps = []")
  case True
  then show ?thesis by (simp add: URLSearchParams_new_def)
next
  case False
  from toString_head [OF False] obtain c r where
    h: "URLSearchParams_toString ps = c # r" "c \<noteq> CHR ''?''" by blast
  have "filter (\<lambda>seg. seg \<noteq> []) (map segment ps) = map segment ps"
    by (induction ps) simp_all
  moreover have "map parsePair (map segment ps) = ps"
    by (induction ps) (simp_all add: parsePair_segment)
  ultimately show ?thesis
    using split_toString [OF False] h
    by (simp add: URLSearchParams_new_def del: URLSearchParams_toString.simps)
qed


section \<open>Properties of the state codec\<close>

lemma savedParams_list: "savedParams toString state =
     [(''osc1_waveform'', waveform (oscillator1 state)),
      (''osc1_freq'', toString (frequency (oscillator1 state))),
      (''osc1_range'', oscRange (oscillator1 state)),
      (''osc1_enabled'', boolToString (oscEnabled (oscillator1 state))),
      (''osc2_waveform'', waveform (oscillator2 state)),
      (''osc2_freq'', toString (frequency (oscillator2 state))),
      (''osc2_range'', oscRange (oscillator2 state)),
      (''osc2_enabled'', boolToString (oscEnabled (oscillator2 state))),
      (''osc3_waveform'', waveform (oscillator3 state)),
      (''osc3_freq'', toString (frequency (oscillator3 state))),
      (''osc3_range'', oscRange (oscillator3 state)),
      (''osc3_enabled'', boolToString (oscEnabled (oscillator3 state))),
      (''mix_osc1_enabled'', boolToString (enabled (osc1 (mixer state)))),
      (''mix_osc1_vol'', toString (volume (osc1 (mixer state)))),
      (''mix_osc2_enabled'', boolToString (enabled (osc2 (mixer state)))),
      (''mix_osc2_vol'', toString (volume (osc2 (mixer state)))),
      (''mix_osc3_enabled'', boolToString (enabled (osc3 (mixer state)))),
      (''mix_osc3_vol'', toString (volume (osc3 (mixer state)))),
      (''mix_noise_enabled'', boolToString (enabled (noise (mixer state)))),
      (''mix_noise_vol'', toString (volume (noise (mixer state)))),
      (''mix_noise_type'', noiseType (noise (mixer state))),
      (''mix_ext_enabled'', boolToString (enabled (external (mixer state)))),
      (''mix_ext_vol'', toString (volume (external (mixer state)))),
      (''filter_cutoff'', toString (filterCutoff state)),
      (''filter_emphasis'', toString (filterEmphasis state)),
      (''filter_contour'', toString (filterContourAmount state)),
      (''filter_attack'', toString (filterAttack state)),
      (''filter_decay'', toString (filterDecay state)),
      (''filter_sustain'', toString (filterSustain state)),
      (''filter_mod_on'', boolToString (filterModulationOn state)),
      (''loudness_attack'', toString (loudnessAttack state)),
      (''loudness_decay'', toString (loudnessDecay state)),
      (''loudness_sustain'', toString (loudnessSustain state)),
      (''lfo_waveform'', lfoWaveform state),
      (''lfo_rate'', toString (lfoRate state)),
      (''mod_mix'', toString (modMix state)),
      (''osc_mod_on'', boolToString (oscillatorModulationOn state)),
      (''glide_on'', boolToString (glideOn state)),
      (''glide_time'', toString (glideTime state)),
      (''main_volume'', toString (mainVolume state)),
      (''main_active'', boolToString (isMainActive state)),
      (''keyboard_control1'', boolToString (keyboardControl1 state)),
      (''keyboard_control2'', boolToString (keyboardControl2 state)),
      (''osc3_control'', boolToString (osc3Control state)),
      (''osc3_filter_eg'', boolToString (osc3FilterEgSwitch state)),
      (''noise_lfo_switch'', boolToString (noiseLfoSwitch state)),
      (''decay_switch'', boolToString (decaySwitchOn state)),
      (''master_tune'', toString (masterTune state)),
      (''pitch_wheel'', toString (pitchWheel state)),
      (''mod_wheel'', toString (modWheel state)),
      (''tuner_on'', boolToString (tunerOn state)),
      (''aux_enabled'', boolToString (enabled (auxOutput state))),
      (''aux_volume'', toString (volume (auxOutput state)))]"
  by (simp add: savedParams_def URLSearchParams_set_def)

lemma get_saved:
  "URLSearchParams_get (savedParams toString state) ''osc1_waveform'' = Some (waveform (oscillator1 state))"
  "URLSearchParams_get (savedParams toString state) ''osc1_freq'' = Some (toString (frequency (oscillator1 state)))"
  "URLSearchParams_get (savedParams toString state) ''osc1_range'' = Some (oscRange (oscillator1 state))"
  "URLSearchParams_get (savedParams toString state) ''osc1_enabled'' = Some (boolToString (oscEnabled (oscillator1 state)))"
  "URLSearchParams_get (savedParams toString state) ''osc2_waveform'' = Some (waveform (oscillator2 state))"
  "URLSearchParams_get (savedParams toString state) ''osc2_freq'' = Some (toString (frequency (oscillator2 state)))"
  "URLSearchParams_get (savedParams toString state) ''osc2_range'' = Some (oscRange (oscillator2 state))"
  "URLSearchParams_get (savedParams toString state) ''osc2_enabled'' = Some (boolToString (oscEnabled (oscillator2 state)))"
  "URLSearchParams_get (savedParams toString state) ''osc3_waveform'' = Some (waveform (oscillator3 state))"
  "URLSearchParams_get (savedParams toString state) ''osc3_freq'' = Some (toString (frequency (oscillator3 state)))"
  "URLSearchParams_get (savedParams toString state) ''osc3_range'' = Some (oscRange (oscillator3 state))"
  "URLSearchParams_get (savedParams toString state) ''osc3_enabled'' = Some (boolToString (oscEnabled (oscillator3 state)))"
  "URLSearchParams_get (savedParams toString state) ''mix_osc1_enabled'' = Some (boolToString (enabled (osc1 (mixer state))))"
  "URLSearchParams_get (savedParams toString state) ''mix_osc1_vol'' = Some (toString (volume (osc1 (mixer state))))"
  "URLSearchParams_get (savedParams toString state) ''mix_osc2_enabled'' = Some (boolToString (enabled (osc2 (mixer state))))"
  "URLSearchParams_get (savedParams toString state) ''mix_osc2_vol'' = Some (toString (volume (osc2 (mixer state))))"
  "URLSearchParams_get (savedParams toString state) ''mix_osc3_enabled'' = Some (boolToString (enabled (osc3 (mixer state))))"
  "URLSearchParams_get (savedParams toString state) ''mix_osc3_vol'' = Some (toString (volume (osc3 (mixer state))))"
  "URLSearchParams_get (savedParams toString state) ''mix_noise_enabled'' = Some (boolToString (enabled (noise (mixer state))))"
  "URLSearchParams_get (savedParams toString state) ''mix_noise_vol'' = Some (toString (volume (noise (mixer state))))"
  "URLSearchParams_get (savedParams toString state) ''mix_noise_type'' = Some (noiseType (noise (mixer state)))"
  "URLSearchParams_get (savedParams toString state) ''mix_ext_enabled'' = Some (boolToString (enabled (external (mixer state))))"
  "URLSearchParams_get (savedParams toString state) ''mix_ext_vol'' = Some (toString (volume (external (mixer state))))"
  "URLSearchParams_get (savedParams toString state) ''filter_cutoff'' = Some (toString (filterCutoff state))"
  "URLSearchParams_get (savedParams toString state) ''filter_emphasis'' = Some (toString (filterEmphasis state))"
  "URLSearchParams_get (savedParams toString state) ''filter_contour'' = Some (toString (filterContourAmount state))"
  "URLSearchParams_get (savedParams toString state) ''filter_attack'' = Some (toString (filterAttack state))"
  "URLSearchParams_get (savedParams toString state) ''filter_decay'' = Some (toString (filterDecay state))"
  "URLSearchParams_get (savedParams toString state) ''filter_sustain'' = Some (toString (filterSustain state))"
  "URLSearchParams_get (savedParams toString state) ''filter_mod_on'' = Some (boolToString (filterModulationOn state))"
  "URLSearchParams_get (savedParams toString state) ''loudness_attack'' = Some (toString (loudnessAttack state))"
  "URLSearchParams_get (savedParams toString state) ''loudness_decay'' = Some (toString (loudnessDecay state))"
  "URLSearchParams_get (savedParams toString state) ''loudness_sustain'' = Some (toString (loudnessSustain state))"
  "URLSearchParams_get (savedParams toString state) ''lfo_waveform'' = Some (lfoWaveform state)"
  "URLSearchParams_get (savedParams toString state) ''lfo_rate'' = Some (toString (lfoRate state))"
  "URLSearchParams_get (savedParams toString state) ''mod_mix'' = Some (toString (modMix state))"
  "URLSearchParams_get (savedParams toString state) ''osc_mod_on'' = Some (boolToString (oscillatorModulationOn state))"
  "URLSearchParams_get (savedParams toString state) ''glide_on'' = Some (boolToString (glideOn state))"
  "URLSearchParams_get (savedParams toString state) ''glide_time'' = Some (toString (glideTime state))"
  "URLSearchParams_get (savedParams toString state) ''main_volume'' = Some (toString (mainVolume state))"
  "URLSearchParams_get (savedParams toString state) ''main_active'' = Some (boolToString (isMainActive state))"
  "URLSearchParams_get (savedParams toString state) ''keyboard_control1'' = Some (boolToString (keyboardControl1 state))"
  "URLSearchParams_get (savedParams toString state) ''keyboard_control2'' = Some (boolToString (keyboardControl2 state))"
  "URLSearchParams_get (savedParams toString state) ''osc3_control'' = Some (boolToString (osc3Control state))"
  "URLSearchParams_get (savedParams toString state) ''osc3_filter_eg'' = Some (boolToString (osc3FilterEgSwitch state))"
  "URLSearchParams_get (savedParams toString state) ''noise_lfo_switch'' = Some (boolToString (noiseLfoSwitch state))"
  "URLSearchParams_get (savedParams toString state) ''decay_switch'' = Some (boolToString (decaySwitchOn state))"
  "URLSearchParams_get (savedParams toString state) ''master_tune'' = Some (toString (masterTune state))"
  "URLSearchParams_get (savedParams toString state) ''pitch_wheel'' = Some (toString (pitchWheel state))"
  "URLSearchParams_get (savedParams toString state) ''mod_wheel'' = Some (toString (modWheel state))"
  "URLSearchParams_get (savedParams toString state) ''tuner_on'' = Some (boolToString (tunerOn state))"
  "URLSearchParams_get (savedParams toString state) ''aux_enabled'' = Some (boolToString (enabled (auxOutput state)))"
  "URLSearchParams_get (savedParams toString state) ''aux_volume'' = Some (toString (volume (auxOutput state)))"
  by (simp_all add: savedParams_list URLSearchParams_get_def)


lemma has_get: "URLSearchParams_has params k = (URLSearchParams_get params k \<noteq> None)"
  by (simp add: URLSearchParams_has_def URLSearchParams_get_def)

lemma parseFloat_empty: "parseFloat [] = NaN"
  by (simp add: parseFloat_def)

lemma bool_back: "(boolToString b = ''true'') = b"
  by (simp add: boolToString_def)

lemma readsBack_nonempty: "readsBack toString x \<Longrightarrow> toString x \<noteq> []"
  using parseFloat_empty by (auto simp: readsBack_def)

lemma readsBack_orElse:
  "readsBack toString x \<Longrightarrow> parseFloat (orElse (Some (toString x)) d) = x"
  using readsBack_nonempty [of toString x] by (simp add: orElse_def readsBack_def)

lemma readsBack_parseOrDefault:
  "readsBack toString x \<Longrightarrow> parseOrDefault (Some (toString x)) d = x"
  by (simp add: parseOrDefault_def orEmpty_def isNaN_def readsBack_def)

lemma readsBack_parseAndClamp:
  "readsBack toString x \<Longrightarrow> parseAndClamp (Some (toString x)) lo hi d = clampParameter x lo hi"
  by (simp add: parseAndClamp_def orEmpty_def isNaN_def readsBack_def)

lemma orElse_nonempty: "t \<noteq> [] \<Longrightarrow> orElse (Some t) d = t"
  by (simp add: orElse_def)

lemma numeric_all:
  assumes "\<forall>x \<in> set (numericFields state). readsBack toString x"
  shows "readsBack toString (frequency (oscillator1 state))"
    "readsBack toString (frequency (oscillator2 state))"
    "readsBack toString (frequency (oscillator3 state))"
    "readsBack toString (volume (osc1 (mixer state)))"
    "readsBack toString (volume (osc2 (mixer state)))"
    "readsBack toString (volume (osc3 (mixer state)))"
    "readsBack toString (volume (noise (mixer state)))"
    "readsBack toString (volume (external (mixer state)))"
    "readsBack toString (filterCutoff state)"
    "readsBack toString (filterEmphasis state)"
    "readsBack toString (filterContourAmount state)"
    "readsBack toString (filterAttack state)"
    "readsBack toString (filterDecay state)"
    "readsBack toString (filterSustain state)"
    "readsBack toString (loudnessAttack state)"
    "readsBack toString (loudnessDecay state)"
    "readsBack toString (loudnessSustain state)"
    "readsBack toString (lfoRate state)"
    "readsBack toString (modMix state)"
    "readsBack toString (glideTime state)"
    "readsBack toString (mainVolume state)"
    "readsBack toString (masterTune state)"
    "readsBack toString (pitchWheel state)"
    "readsBack toString (modWheel state)"
    "readsBack toString (volume (auxOutput state))"
  using assms by (simp_all add: numericFields_def)

text \<open>
  Claim C5. Let every number the encoder writes be one that \<open>toString\<close> and
  \<open>parseFloat\<close> read back (it is not NaN and \<open>parseFloat (toString x) = x\<close>), let the
  filter cutoff lie in \<open>[-4, 4]\<close> and the noise type not be the empty string (as
  neither \<open>white\<close> nor \<open>pink\<close> is). Then decoding the query string that encoding
  produced gives the overlay in which every field the encoder writes is present with
  the value of the state: booleans and strings as they were, numbers as \<open>parseFloat\<close>
  reads them back.
\<close>

theorem codec_roundtrip:
  assumes numbers: "\<forall>x \<in> set (numericFields state). x \<noteq> NaN \<and> parseFloat (toString x) = x"
    and cutoff: "clampParameter (filterCutoff state) (Fin (- 4)) (Fin 4) = filterCutoff state"
    and noise: "noiseType (noise (mixer state)) \<noteq> []"
  shows "loadStateFromURL (saveStateToURL toString state) = Some (fullOverlay state)"
proof -
  let ?ps = "savedParams toString state"
  from numbers have rb: "\<forall>x \<in> set (numericFields state). readsBack toString x"
    by (simp add: readsBack_def)
  note n = numeric_all [OF rb]
  have parsed: "URLSearchParams_new (saveStateToURL toString state) = ?ps"
    by (simp add: saveStateToURL_def parse_toString)
  have ne: "URLSearchParams_toString ?ps \<noteq> []"
    by (simp add: toString_empty_iff savedParams_list)
  have o1: "loadOscillator1 ?ps st = st\<lparr>oscillator1_opt := Some (asLoaded (oscillator1 state))\<rparr>" for st
    by (simp add: loadOscillator1_def get_saved n readsBack_orElse bool_back asLoaded_def)
  have o2: "loadOscillator2 ?ps st = st\<lparr>oscillator2_opt := Some (asLoaded (oscillator2 state))\<rparr>" for st
    by (simp add: loadOscillator2_def get_saved n readsBack_orElse bool_back asLoaded_def)
  have o3: "loadOscillator3 ?ps st = st\<lparr>oscillator3_opt := Some (asLoaded (oscillator3 state))\<rparr>" for st
    by (simp add: loadOscillator3_def get_saved n readsBack_orElse bool_back asLoaded_def)
  have mx: "loadMixer ?ps st = st\<lparr>mixer_opt := Some (mixer state)\<rparr>" for st
    by (simp add: loadMixer_def has_get get_saved n readsBack_orElse bool_back
        orElse_nonempty [OF noise])
  have fl: "loadFilter ?ps st = st\<lparr>filterCutoff_opt := Some (filterCutoff state),
      filterEmphasis_opt := Some (filterEmphasis state),
      filterContourAmount_opt := Some (filterContourAmount state),
      filterAttack_opt := Some (filterAttack state),
      filterDecay_opt := Some (filterDecay state),
      filterSustain_opt := Some (filterSustain state),
      filterModulationOn_opt := Some (filterModulationOn state)\<rparr>" for st
    by (simp add: loadFilter_def has_get get_saved n readsBack_parseOrDefault
        readsBack_parseAndClamp cutoff bool_back)
  have ld: "loadLoudness ?ps st = st\<lparr>loudnessAttack_opt := Some (loudnessAttack state),
      loudnessDecay_opt := Some (loudnessDecay state),
      loudnessSustain_opt := Some (loudnessSustain state)\<rparr>" for st
    by (simp add: loadLoudness_def has_get get_saved n readsBack_parseOrDefault)
  have md: "loadModulation ?ps st = st\<lparr>lfoWaveform_opt := Some (lfoWaveform state),
      lfoRate_opt := Some (lfoRate state), modMix_opt := Some (modMix state),
      oscillatorModulationOn_opt := Some (oscillatorModulationOn state)\<rparr>" for st
    by (simp add: loadModulation_def get_saved n readsBack_parseOrDefault bool_back)
  have gl: "loadGlide ?ps st = st\<lparr>glideOn_opt := Some (glideOn state),
      glideTime_opt := Some (glideTime state)\<rparr>" for st
    by (simp add: loadGlide_def has_get get_saved n readsBack_parseOrDefault bool_back)
  have mv: "loadMainVolume ?ps st = st\<lparr>mainVolume_opt := Some (mainVolume state),
      isMainActive_opt := Some (isMainActive state)\<rparr>" for st
    by (simp add: loadMainVolume_def has_get get_saved n readsBack_parseOrDefault bool_back)
  have kc: "loadKeyboardControl ?ps st = st\<lparr>keyboardControl1_opt := Some (keyboardControl1 state),
      keyboardControl2_opt := Some (keyboardControl2 state)\<rparr>" for st
    by (simp add: loadKeyboardControl_def has_get get_saved bool_back)
  have oc: "loadOsc3Control ?ps st = st\<lparr>osc3Control_opt := Some (osc3Control state),
      osc3FilterEgSwitch_opt := Some (osc3FilterEgSwitch state)\<rparr>" for st
    by (simp add: loadOsc3Control_def has_get get_saved bool_back)
  have nl: "loadNoiseLfoSwitch ?ps st = st\<lparr>noiseLfoSwitch_opt := Some (noiseLfoSwitch state),
      decaySwitchOn_opt := Some (decaySwitchOn state)\<rparr>" for st
    by (simp add: loadNoiseLfoSwitch_def has_get get_saved bool_back)
  have mt: "loadMasterTune ?ps st = st\<lparr>masterTune_opt := Some (masterTune state),
      pitchWheel_opt := Some (pitchWheel state), modWheel_opt := Some (modWheel state)\<rparr>" for st
    by (simp add: loadMasterTune_def has_get get_saved n readsBack_parseOrDefault)
  have tu: "loadTuner ?ps st = st\<lparr>tunerOn_opt := Some (tunerOn state)\<rparr>" for st
    by (simp add: loadTuner_def has_get get_saved bool_back)
  have ax: "loadAuxOutput ?ps st = st\<lparr>auxOutput_opt := Some (auxOutput state)\<rparr>" for st
    by (simp add: loadAuxOutput_def has_get get_saved n readsBack_parseOrDefault bool_back)
  show ?thesis
    unfolding loadStateFromURL_def parsed Let_def
    by (simp only: ne if_False o1 o2 o3 mx fl ld md gl mv kc oc nl mt tu ax comp_apply)
       (simp add: emptyPartialState_def fullOverlay_def)
qed

lemma example_numbers:
  "parseFloat (toStringInteger (Fin 440)) = Fin 440"
  "parseFloat (toStringInteger (Fin (- 7))) = Fin (- 7)"
  "parseFloat (toStringInteger (Fin 0)) = Fin 0"
  "parseFloat (toStringInteger (Fin 50)) = Fin 50"
  "parseFloat (toStringInteger (Fin 8)) = Fin 8"
  "parseFloat (toStringInteger (Fin 6)) = Fin 6"
  "parseFloat (toStringInteger (Fin 2)) = Fin 2"
  "parseFloat (toStringInteger (Fin 5)) = Fin 5"
  "parseFloat (toStringInteger (Fin 1)) = Fin 1"
  "parseFloat (toStringInteger (Fin 3)) = Fin 3"
  "parseFloat (toStringInteger (Fin 4)) = Fin 4"
  "parseFloat (toStringInteger (Fin (- 2))) = Fin (- 2)"
  "parseFloat (toStringInteger (Fin 9)) = Fin 9"
  by (simp_all add: toStringInteger_def decimalDigits.simps
      parseFloat_def isWhiteSpace_def isDigit_def decimalValue_def digitValue_def
      exponentPart_def scaleByPowerOfTen_def fl_numeral fl_neg_numeral fl_one Let_def)

lemma block_updates:
  "loadOscillator1 params state =
     oscillator1_opt_update (\<lambda>old. case URLSearchParams_get params ''osc1_waveform'' of None \<Rightarrow> old | Some w \<Rightarrow> Some \<lparr>loadedWaveform = w, loadedFrequency = parseFloat (orElse (URLSearchParams_get params ''osc1_freq'') ''440''), loadedRange = URLSearchParams_get params ''osc1_range'', loadedEnabled = (URLSearchParams_get params ''osc1_enabled'' = Some ''true'')\<rparr>) state"
  "loadOscillator2 params state =
     oscillator2_opt_update (\<lambda>old. case URLSearchParams_get params ''osc2_waveform'' of None \<Rightarrow> old | Some w \<Rightarrow> Some \<lparr>loadedWaveform = w, loadedFrequency = parseFloat (orElse (URLSearchParams_get params ''osc2_freq'') ''0''), loadedRange = URLSearchParams_get params ''osc2_range'', loadedEnabled = (URLSearchParams_get params ''osc2_enabled'' = Some ''true'')\<rparr>) state"
  "loadOscillator3 params state =
     oscillator3_opt_update (\<lambda>old. case URLSearchParams_get params ''osc3_waveform'' of None \<Rightarrow> old | Some w \<Rightarrow> Some \<lparr>loadedWaveform = w, loadedFrequency = parseFloat (orElse (URLSearchParams_get params ''osc3_freq'') ''0''), loadedRange = URLSearchParams_get params ''osc3_range'', loadedEnabled = (URLSearchParams_get params ''osc3_enabled'' = Some ''true'')\<rparr>) state"
  "loadMixer params state =
     mixer_opt_update (\<lambda>old. if URLSearchParams_has params ''mix_osc1_enabled'' then Some (\<lparr>osc1 = \<lparr>enabled = (URLSearchParams_get params ''mix_osc1_enabled'' = Some ''true''), volume = parseFloat (orElse (URLSearchParams_get params ''mix_osc1_vol'') ''0'')\<rparr>, osc2 = \<lparr>enabled = (URLSearchParams_get params ''mix_osc2_enabled'' = Some ''true''), volume = parseFloat (orElse (URLSearchParams_get params ''mix_osc2_vol'') ''0'')\<rparr>, osc3 = \<lparr>enabled = (URLSearchParams_get params ''mix_osc3_enabled'' = Some ''true''), volume = parseFloat (orElse (URLSearchParams_get params ''mix_osc3_vol'') ''0'')\<rparr>, noise = \<lparr>enabled = (URLSearchParams_get params ''mix_noise_enabled'' = Some ''true''), volume = parseFloat (orElse (URLSearchParams_get params ''mix_noise_vol'') ''0''), noiseType = orElse (URLSearchParams_get params ''mix_noise_type'') ''white''\<rparr>, external = \<lparr>enabled = (URLSearchParams_get params ''mix_ext_enabled'' = Some ''true''), volume = parseFloat (orElse (URLSearchParams_get params ''mix_ext_vol'') ''0'')\<rparr>\<rparr>) else old)
       (state)"
  "loadFilter params state =
     filterCutoff_opt_update (\<lambda>old. if URLSearchParams_has params ''filter_cutoff'' then Some (parseAndClamp (URLSearchParams_get params ''filter_cutoff'') (Fin (- 4)) (Fin 4) (Fin 0)) else old)
       (filterEmphasis_opt_update (\<lambda>old. if URLSearchParams_has params ''filter_cutoff'' then Some (parseOrDefault (URLSearchParams_get params ''filter_emphasis'') (Fin 5)) else old)
       (filterContourAmount_opt_update (\<lambda>old. if URLSearchParams_has params ''filter_cutoff'' then Some (parseOrDefault (URLSearchParams_get params ''filter_contour'') (Fin 5)) else old)
       (filterAttack_opt_update (\<lambda>old. if URLSearchParams_has params ''filter_cutoff'' then Some (parseOrDefault (URLSearchParams_get params ''filter_attack'') (Fin (1 / 2))) else old)
       (filterDecay_opt_update (\<lambda>old. if URLSearchParams_has params ''filter_cutoff'' then Some (parseOrDefault (URLSearchParams_get params ''filter_decay'') (Fin 0)) else old)
       (filterSustain_opt_update (\<lambda>old. if URLSearchParams_has params ''filter_cutoff'' then Some (parseOrDefault (URLSearchParams_get params ''filter_sustain'') (Fin 0)) else old)
       (filterModulationOn_opt_update (\<lambda>old. if URLSearchParams_has params ''filter_cutoff'' then Some ((URLSearchParams_get params ''filter_mod_on'' = Some ''true'')) else old)
       (state)))))))"
  "loadLoudness params state =
     loudnessAttack_opt_update (\<lambda>old. if URLSearchParams_has params ''loudness_attack'' then Some (parseOrDefault (URLSearchParams_get params ''loudness_attack'') (Fin (1 / 2))) else old)
       (loudnessDecay_opt_update (\<lambda>old. if URLSearchParams_has params ''loudness_attack'' then Some (parseOrDefault (URLSearchParams_get params ''loudness_decay'') (Fin 0)) else old)
       (loudnessSustain_opt_update (\<lambda>old. if URLSearchParams_has params ''loudness_attack'' then Some (parseOrDefault (URLSearchParams_get params ''loudness_sustain'') (Fin 5)) else old)
       (state)))"
  "loadModulation params state =
     lfoWaveform_opt_update (\<lambda>old. if URLSearchParams_has params ''lfo_waveform'' then Some (case URLSearchParams_get params ''lfo_waveform'' of None \<Rightarrow> [] | Some w \<Rightarrow> w) else old)
       (lfoRate_opt_update (\<lambda>old. if URLSearchParams_has params ''lfo_waveform'' then Some (parseOrDefault (URLSearchParams_get params ''lfo_rate'') (Fin 5)) else old)
       (modMix_opt_update (\<lambda>old. if URLSearchParams_has params ''lfo_waveform'' then Some (parseOrDefault (URLSearchParams_get params ''mod_mix'') (Fin 0)) else old)
       (oscillatorModulationOn_opt_update (\<lambda>old. if URLSearchParams_has params ''lfo_waveform'' then Some ((URLSearchParams_get params ''osc_mod_on'' = Some ''true'')) else old)
       (state))))"
  "loadGlide params state =
     glideOn_opt_update (\<lambda>old. if URLSearchParams_has params ''glide_on'' then Some ((URLSearchParams_get params ''glide_on'' = Some ''true'')) else old)
       (glideTime_opt_update (\<lambda>old. if URLSearchParams_has params ''glide_on'' then Some (parseOrDefault (URLSearchParams_get params ''glide_time'') (Fin (1 / 10))) else old)
       (state))"
  "loadMainVolume params state =
     mainVolume_opt_update (\<lambda>old. if URLSearchParams_has params ''main_volume'' then Some (parseOrDefault (URLSearchParams_get params ''main_volume'') (Fin (5 / 2))) else old)
       (isMainActive_opt_update (\<lambda>old. if URLSearchParams_has params ''main_volume'' then Some ((URLSearchParams_get params ''main_active'' = Some ''true'')) else old)
       (state))"
  "loadKeyboardControl params state =
     keyboardControl1_opt_update (\<lambda>old. if URLSearchParams_has params ''keyboard_control1'' then Some ((URLSearchParams_get params ''keyboard_control1'' = Some ''true'')) else old)
       (keyboardControl2_opt_update (\<lambda>old. if URLSearchParams_has params ''keyboard_control1'' then Some ((URLSearchParams_get params ''keyboard_control2'' = Some ''true'')) else old)
       (state))"
  "loadOsc3Control params state =
     osc3Control_opt_update (\<lambda>old. if URLSearchParams_has params ''osc3_control'' then Some ((URLSearchParams_get params ''osc3_control'' = Some ''true'')) else old)
       (osc3FilterEgSwitch_opt_update (\<lambda>old. if URLSearchParams_has params ''osc3_control'' then Some ((URLSearchParams_get params ''osc3_filter_eg'' = Some ''true'')) else old)
       (state))"
  "loadNoiseLfoSwitch params state =
     noiseLfoSwitch_opt_update (\<lambda>old. if URLSearchParams_has params ''noise_lfo_switch'' then Some ((URLSearchParams_get params ''noise_lfo_switch'' = Some ''true'')) else old)
       (decaySwitchOn_opt_update (\<lambda>old. if URLSearchParams_has params ''noise_lfo_switch'' then Some ((URLSearchParams_get params ''decay_switch'' = Some ''true'')) else old)
       (state))"
  "loadMasterTune params state =
     masterTune_opt_update (\<lambda>old. if URLSearchParams_has params ''master_tune'' then Some (parseOrDefault (URLSearchParams_get params ''master_tune'') (Fin 0)) else old)
       (pitchWheel_opt_update (\<lambda>old. if URLSearchParams_has params ''master_tune'' then Some (parseOrDefault (URLSearchParams_get params ''pitch_wheel'') (Fin 50)) else old)
       (modWheel_opt_update (\<lambda>old. if URLSearchParams_has params ''master_tune'' then Some (parseOrDefault (URLSearchParams_get params ''mod_wheel'') (Fin 50)) else old)
       (state)))"
  "loadTuner params state =
     tunerOn_opt_update (\<lambda>old. if URLSearchParams_has params ''tuner_on'' then Some ((URLSearchParams_get params ''tuner_on'' = Some ''true'')) else old)
       (state)"
  "loadAuxOutput params state =
     auxOutput_opt_update (\<lambda>old. if URLSearchParams_has params ''aux_enabled'' then Some (\<lparr>enabled = (URLSearchParams_get params ''aux_enabled'' = Some ''true''), volume = parseOrDefault (URLSearchParams_get params ''aux_volume'') (Fin 0)\<rparr>) else old)
       (state)"
  by (simp_all add: loadOscillator1_def loadOscillator2_def loadOscillator3_def loadMixer_def loadFilter_def loadLoudness_def loadModulation_def loadGlide_def loadMainVolume_def loadKeyboardControl_def loadOsc3Control_def loadNoiseLfoSwitch_def loadMasterTune_def loadTuner_def loadAuxOutput_def has_get split: option.split)

lemma parse_example:
  "URLSearchParams_new ''osc1_waveform=sawtooth&osc1_freq=440&osc1_range=8&osc1_enabled=true''
     = [(''osc1_waveform'', ''sawtooth''), (''osc1_freq'', ''440''), (''osc1_range'', ''8''),
        (''osc1_enabled'', ''true'')]"
  by (simp add: URLSearchParams_new_def parsePair_def plusToSpace_def)

lemma load_example:
  "loadStateFromURL ''osc1_waveform=sawtooth&osc1_freq=440&osc1_range=8&osc1_enabled=true''
     = Some (emptyPartialState\<lparr>oscillator1_opt :=
         Some \<lparr>loadedWaveform = ''sawtooth'', loadedFrequency = Fin 440,
               loadedRange = Some ''8'', loadedEnabled = True\<rparr>\<rparr>)"
proof -
  have p: "parseFloat ''440'' = Fin 440"
    by (simp add: parseFloat_def isWhiteSpace_def isDigit_def decimalValue_def digitValue_def
      exponentPart_def scaleByPowerOfTen_def fl_numeral fl_neg_numeral fl_one Let_def)
  have ne: "URLSearchParams_toString [(''osc1_waveform'', ''sawtooth''), (''osc1_freq'', ''440''),
      (''osc1_range'', ''8''), (''osc1_enabled'', ''true'')] \<noteq> []"
    by (simp add: toString_empty_iff)
  show ?thesis
    unfolding loadStateFromURL_def parse_example Let_def
    by (simp only: ne if_False comp_apply block_updates)
       (simp add: URLSearchParams_get_def URLSearchParams_has_def orElse_def p emptyPartialState_def)
qed

lemma load_empty: "loadStateFromURL [] = None"
  by (simp add: loadStateFromURL_def URLSearchParams_new_def)

lemma loaded_fields:
  assumes "loadStateFromURL search = Some d"
  shows "isDisabled_opt d = None" "activeKeys_opt d = None"
    "(oscillator1_opt d \<noteq> None) = URLSearchParams_has (URLSearchParams_new search) ''osc1_waveform''"
    "(oscillator2_opt d \<noteq> None) = URLSearchParams_has (URLSearchParams_new search) ''osc2_waveform''"
    "(oscillator3_opt d \<noteq> None) = URLSearchParams_has (URLSearchParams_new search) ''osc3_waveform''"
    "(mixer_opt d \<noteq> None) = URLSearchParams_has (URLSearchParams_new search) ''mix_osc1_enabled''"
    "(filterCutoff_opt d \<noteq> None) = URLSearchParams_has (URLSearchParams_new search) ''filter_cutoff''"
    "(filterEmphasis_opt d \<noteq> None) = URLSearchParams_has (URLSearchParams_new search) ''filter_cutoff''"
    "(filterContourAmount_opt d \<noteq> None) = URLSearchParams_has (URLSearchParams_new search) ''filter_cutoff''"
    "(filterAttack_opt d \<noteq> None) = URLSearchParams_has (URLSearchParams_new search) ''filter_cutoff''"
    "(filterDecay_opt d \<noteq> None) = URLSearchParams_has (URLSearchParams_new search) ''filter_cutoff''"
    "(filterSustain_opt d \<noteq> None) = URLSearchParams_has (URLSearchParams_new search) ''filter_cutoff''"
    "(filterModulationOn_opt d \<noteq> None) = URLSearchParams_has (URLSearchParams_new search) ''filter_cutoff''"
    "(loudnessAttack_opt d \<noteq> None) = URLSearchParams_has (URLSearchParams_new search) ''loudness_attack''"
    "(loudnessDecay_opt d \<noteq> None) = URLSearchParams_has (URLSearchParams_new search) ''loudness_attack''"
    "(loudnessSustain_opt d \<noteq> None) = URLSearchParams_has (URLSearchParams_new search) ''loudness_attack''"
    "(lfoWaveform_opt d \<noteq> None) = URLSearchParams_has (URLSearchParams_new search) ''lfo_waveform''"
    "(lfoRate_opt d \<noteq> None) = URLSearchParams_has (URLSearchParams_new search) ''lfo_waveform''"
    "(modMix_opt d \<noteq> None) = URLSearchParams_has (URLSearchParams_new search) ''lfo_waveform''"
    "(oscillatorModulationOn_opt d \<noteq> None) = URLSearchParams_has (URLSearchParams_new search) ''lfo_waveform''"
    "(glideOn_opt d \<noteq> None) = URLSearchParams_has (URLSearchParams_new search) ''glide_on''"
    "(glideTime_opt d \<noteq> None) = URLSearchParams_has (URLSearchParams_new search) ''glide_on''"
    "(mainVolume_opt d \<noteq> None) = URLSearchParams_has (URLSearchParams_new search) ''main_volume''"
    "(isMainActive_opt d \<noteq> None) = URLSearchParams_has (URLSearchParams_new search) ''main_volume''"
    "(keyboardControl1_opt d \<noteq> None) = URLSearchParams_has (URLSearchParams_new search) ''keyboard_control1''"
    "(keyboardControl2_opt d \<noteq> None) = URLSearchParams_has (URLSearchParams_new search) ''keyboard_control1''"
    "(osc3Control_opt d \<noteq> None) = URLSearchParams_has (URLSearchParams_new search) ''osc3_control''"
    "(osc3FilterEgSwitch_opt d \<noteq> None) = URLSearchParams_has (URLSearchParams_new search) ''osc3_control''"
    "(noiseLfoSwitch_opt d \<noteq> None) = URLSearchParams_has (URLSearchParams_new search) ''noise_lfo_switch''"
    "(decaySwitchOn_opt d \<noteq> None) = URLSearchParams_has (URLSearchParams_new search) ''noise_lfo_switch''"
    "(masterTune_opt d \<noteq> None) = URLSearchParams_has (URLSearchParams_new search) ''master_tune''"
    "(pitchWheel_opt d \<noteq> None) = URLSearchParams_has (URLSearchParams_new search) ''master_tune''"
    "(modWheel_opt d \<noteq> None) = URLSearchParams_has (URLSearchParams_new search) ''master_tune''"
    "(tunerOn_opt d \<noteq> None) = URLSearchParams_has (URLSearchParams_new search) ''tuner_on''"
    "(auxOutput_opt d \<noteq> None) = URLSearchParams_has (URLSearchParams_new search) ''aux_enabled''"
proof -
  from assms have d: "d = (loadAuxOutput (URLSearchParams_new search) \<circ> loadTuner (URLSearchParams_new search) \<circ> loadMasterTune (URLSearchParams_new search) \<circ> loadNoiseLfoSwitch (URLSearchParams_new search) \<circ> loadOsc3Control (URLSearchParams_new search) \<circ> loadKeyboardControl (URLSearchParams_new search) \<circ> loadMainVolume (URLSearchParams_new search) \<circ> loadGlide (URLSearchParams_new search) \<circ> loadModulation (URLSearchParams_new search) \<circ> loadLoudness (URLSearchParams_new search) \<circ> loadFilter (URLSearchParams_new search) \<circ> loadMixer (URLSearchParams_new search) \<circ> loadOscillator3 (URLSearchParams_new search) \<circ> loadOscillator2 (URLSearchParams_new search) \<circ> loadOscillator1 (URLSearchParams_new search)) emptyPartialState"
    by (simp add: loadStateFromURL_def Let_def split: if_splits)
  show "isDisabled_opt d = None" "activeKeys_opt d = None"
    "(oscillator1_opt d \<noteq> None) = URLSearchParams_has (URLSearchParams_new search) ''osc1_waveform''"
    "(oscillator2_opt d \<noteq> None) = URLSearchParams_has (URLSearchParams_new search) ''osc2_waveform''"
    "(oscillator3_opt d \<noteq> None) = URLSearchParams_has (URLSearchParams_new search) ''osc3_waveform''"
    "(mixer_opt d \<noteq> None) = URLSearchParams_has (URLSearchParams_new search) ''mix_osc1_enabled''"
    "(filterCutoff_opt d \<noteq> None) = URLSearchParams_has (URLSearchParams_new search) ''filter_cutoff''"
    "(filterEmphasis_opt d \<noteq> None) = URLSearchParams_has (URLSearchParams_new search) ''filter_cutoff''"
    "(filterContourAmount_opt d \<noteq> None) = URLSearchParams_has (URLSearchParams_new search) ''filter_cutoff''"
    "(filterAttack_opt d \<noteq> None) = URLSearchParams_has (URLSearchParams_new search) ''filter_cutoff''"
    "(filterDecay_opt d \<noteq> None) = URLSearchParams_has (URLSearchParams_new search) ''filter_cutoff''"
    "(filterSustain_opt d \<noteq> None) = URLSearchParams_has (URLSearchParams_new search) ''filter_cutoff''"
    "(filterModulationOn_opt d \<noteq> None) = URLSearchParams_has (URLSearchParams_new search) ''filter_cutoff''"
    "(loudnessAttack_opt d \<noteq> None) = URLSearchParams_has (URLSearchParams_new search) ''loudness_attack''"
    "(loudnessDecay_opt d \<noteq> None) = URLSearchParams_has (URLSearchParams_new search) ''loudness_attack''"
    "(loudnessSustain_opt d \<noteq> None) = URLSearchParams_has (URLSearchParams_new search) ''loudness_attack''"
    "(lfoWaveform_opt d \<noteq> None) = URLSearchParams_has (URLSearchParams_new search) ''lfo_waveform''"
    "(lfoRate_opt d \<noteq> None) = URLSearchParams_has (URLSearchParams_new search) ''lfo_waveform''"
    "(modMix_opt d \<noteq> None) = URLSearchParams_has (URLSearchParams_new search) ''lfo_waveform''"
    "(oscillatorModulationOn_opt d \<noteq> None) = URLSearchParams_has (URLSearchParams_new search) ''lfo_waveform''"
    "(glideOn_opt d \<noteq> None) = URLSearchParams_has (URLSearchParams_new search) ''glide_on''"
    "(glideTime_opt d \<noteq> None) = URLSearchParams_has (URLSearchParams_new search) ''glide_on''"
    "(mainVolume_opt d \<noteq> None) = URLSearchParams_has (URLSearchParams_new search) ''main_volume''"
    "(isMainActive_opt d \<noteq> None) = URLSearchParams_has (URLSearchParams_new search) ''main_volume''"
    "(keyboardControl1_opt d \<noteq> None) = URLSearchParams_has (URLSearchParams_new search) ''keyboard_control1''"
    "(keyboardControl2_opt d \<noteq> None) = URLSearchParams_has (URLSearchParams_new search) ''keyboard_control1''"
    "(osc3Control_opt d \<noteq> None) = URLSearchParams_has (URLSearchParams_new search) ''osc3_control''"
    "(osc3FilterEgSwitch_opt d \<noteq> None) = URLSearchParams_has (URLSearchParams_new search) ''osc3_control''"
    "(noiseLfoSwitch_opt d \<noteq> None) = URLSearchParams_has (URLSearchParams_new search) ''noise_lfo_switch''"
    "(decaySwitchOn_opt d \<noteq> None) = URLSearchParams_has (URLSearchParams_new search) ''noise_lfo_switch''"
    "(masterTune_opt d \<noteq> None) = URLSearchParams_has (URLSearchParams_new search) ''master_tune''"
    "(pitchWheel_opt d \<noteq> None) = URLSearchParams_has (URLSearchParams_new search) ''master_tune''"
    "(modWheel_opt d \<noteq> None) = URLSearchParams_has (URLSearchParams_new search) ''master_tune''"
    "(tunerOn_opt d \<noteq> None) = URLSearchParams_has (URLSearchParams_new search) ''tuner_on''"
    "(auxOutput_opt d \<noteq> None) = URLSearchParams_has (URLSearchParams_new search) ''aux_enabled''"
    unfolding d comp_apply block_updates
    by (simp_all add: emptyPartialState_def has_get split: option.split)
qed

text \<open>
  Claim C9 fails as stated in its first part: the decoder returns \<open>null\<close> for the empty
  string, not an overlay without fields.
\<close>

theorem decode_empty_counterexample:
  "loadStateFromURL [] = None \<and> loadStateFromURL [] \<noteq> Some emptyPartialState"
  by (simp add: load_empty)

text \<open>
  Claim C9, as the code has it. Decoding the empty string returns \<open>null\<close>, and so does
  every query string without a pair, and no other. Decoding the four oscillator-1 pairs
  gives an overlay in which \<open>oscillator1\<close> is the only field present. In every overlay
  the decoder returns, a field is present exactly when the anchor key of its group is
  in the query string; the two fields the codec does not know are never present.
\<close>

theorem decode_partial:
  "loadStateFromURL [] = None \<and>
   (loadStateFromURL search = None) = (URLSearchParams_new search = []) \<and>
   loadStateFromURL ''osc1_waveform=sawtooth&osc1_freq=440&osc1_range=8&osc1_enabled=true''
     = Some (emptyPartialState\<lparr>oscillator1_opt :=
         Some \<lparr>loadedWaveform = ''sawtooth'', loadedFrequency = Fin 440,
               loadedRange = Some ''8'', loadedEnabled = True\<rparr>\<rparr>) \<and>
   (loadStateFromURL search = Some d \<longrightarrow>
     populatedByAnchor (URLSearchParams_new search) d)"
proof -
  have a: "(loadStateFromURL search = None) = (URLSearchParams_new search = [])"
    by (simp add: loadStateFromURL_def Let_def toString_empty_iff)
  have c: "loadStateFromURL search = Some d \<longrightarrow>
     populatedByAnchor (URLSearchParams_new search) d"
  proof
    assume "loadStateFromURL search = Some d"
    from loaded_fields [OF this] show "populatedByAnchor (URLSearchParams_new search) d"
      unfolding populatedByAnchor_def by (intro conjI)
  qed
  show ?thesis
    by (rule conjI [OF load_empty conjI [OF a conjI [OF load_example c]]])
qed

theorem decode_partial_witness:
  "URLSearchParams_has (URLSearchParams_new ''osc1_waveform=sawtooth&osc1_freq=440&osc1_range=8&osc1_enabled=true'') ''osc1_waveform'' \<and>
   \<not> URLSearchParams_has (URLSearchParams_new ''osc1_waveform=sawtooth&osc1_freq=440&osc1_range=8&osc1_enabled=true'') ''osc2_waveform'' \<and>
   \<not> URLSearchParams_has (URLSearchParams_new ''osc1_waveform=sawtooth&osc1_freq=440&osc1_range=8&osc1_enabled=true'') ''mix_osc1_enabled'' \<and>
   \<not> URLSearchParams_has (URLSearchParams_new ''osc1_waveform=sawtooth&osc1_freq=440&osc1_range=8&osc1_enabled=true'') ''filter_cutoff''"
  using decode_partial [of "''osc1_waveform=sawtooth&osc1_freq=440&osc1_range=8&osc1_enabled=true''"
      "emptyPartialState\<lparr>oscillator1_opt :=
         Some \<lparr>loadedWaveform = ''sawtooth'', loadedFrequency = Fin 440,
               loadedRange = Some ''8'', loadedEnabled = True\<rparr>\<rparr>"]
  by (simp add: populatedByAnchor_def emptyPartialState_def)

text \<open>The example state is one the round trip applies to.\<close>

lemma example_valid:
  "\<forall>x \<in> set (numericFields exampleState). x \<noteq> NaN \<and> parseFloat (toStringInteger x) = x"
  "clampParameter (filterCutoff exampleState) (Fin (- 4)) (Fin 4) = filterCutoff exampleState"
  "noiseType (noise (mixer exampleState)) \<noteq> []"
  by (simp_all add: numericFields_def exampleState_def example_numbers clampParameter_def)

theorem codec_roundtrip_witness:
  "loadStateFromURL (saveStateToURL toStringInteger exampleState) = Some (fullOverlay exampleState)"
  using example_valid by (rule codec_roundtrip)

end
